theory Spec2Isabelle
  imports Complex_Main "HOL-Library.Monad_Syntax"
begin

section \<open>JavaScript runtime notions shared by the modules\<close>

text \<open>
  A thrown value. The demos throw \<open>new Error(msg)\<close> themselves; the runtime throws a
  \<open>TypeError\<close> when a property of \<open>undefined\<close> or \<open>null\<close> is read, and a \<open>RangeError\<close>
  when calls nest deeper than the call stack allows. All carry a \<open>message\<close>, which is what
  the dashboard displays.
\<close>

datatype js_error = TypeError string | Error string | RangeError string

fun message :: "js_error \<Rightarrow> string" where
  "message (TypeError m) = m"
| "message (Error m) = m"
| "message (RangeError m) = m"

text \<open>
  A computation that either throws (\<open>Inl\<close>) or returns (\<open>Inr\<close>); \<open>thenE\<close> sequences
  two of them the way consecutive statements do: the second one does not run once the first
  has thrown.
\<close>

definition thenE :: "'e + 'a \<Rightarrow> ('a \<Rightarrow> 'e + 'b) \<Rightarrow> 'e + 'b" where
  "thenE m f = (case m of Inl e \<Rightarrow> Inl e | Inr x \<Rightarrow> f x)"

text \<open>
  What a variable holding an object reference can be: the object, \<open>null\<close> or
  \<open>undefined\<close>.
\<close>

datatype 'a js_ref = Obj 'a | Null | Undefined

section \<open>JavaScript values\<close>

text \<open>
  The values the demos build from literals: primitives, arrays and plain objects. An object
  is the list of its own properties in insertion order, which is the order \<open>Object.keys\<close>
  and \<open>JSON.stringify\<close> follow. Numbers are the integers the literals denote. Strings are
  byte lists holding the UTF-8 encoding of the source text.
\<close>

datatype jsval =
    JUndefined
  | JNull
  | JBool bool
  | JNum int
  | JStr string
  | JArr "jsval list"
  | JObj "(string \<times> jsval) list"

definition nl :: string where
  "nl = [CHR 0x0A]"

fun join :: "string \<Rightarrow> string list \<Rightarrow> string" where
  "join sep [] = []"
| "join sep [x] = x"
| "join sep (x # y # ys) = x @ sep @ join sep (y # ys)"

text \<open>Decimal digits of a number, as \<open>String(n)\<close> prints an integer.\<close>

fun string_of_nat :: "nat \<Rightarrow> string" where
  "string_of_nat n =
     (if n < 10 then [''0123456789'' ! n]
      else string_of_nat (n div 10) @ [''0123456789'' ! (n mod 10)])"

declare string_of_nat.simps [simp del]

definition string_of_int :: "int \<Rightarrow> string" where
  "string_of_int i = (if i < 0 then ''-'' @ string_of_nat (nat (- i)) else string_of_nat (nat i))"

text \<open>
  The conversion a template literal applies to \<open>${v}\<close>. An array prints its elements
  separated by commas, with \<open>null\<close> and \<open>undefined\<close> elements empty; a plain object prints
  as \<open>[object Object]\<close>.
\<close>

fun to_string :: "jsval \<Rightarrow> string" where
  "to_string JUndefined = ''undefined''"
| "to_string JNull = ''null''"
| "to_string (JBool b) = (if b then ''true'' else ''false'')"
| "to_string (JNum n) = string_of_int n"
| "to_string (JStr s) = s"
| "to_string (JArr xs) =
     join '','' (map (\<lambda>x. if x = JUndefined \<or> x = JNull then [] else to_string x) xs)"
| "to_string (JObj ps) = ''[object Object]''"

text \<open>
  An array index written as a property name: \<open>0\<close> or a run of decimal digits that does
  not start with \<open>0\<close>.
\<close>

fun digits_value :: "string \<Rightarrow> nat \<Rightarrow> nat option" where
  "digits_value [] acc = Some acc"
| "digits_value (c # cs) acc =
     (if c \<in> set ''0123456789'' then digits_value cs (10 * acc + (of_char c - 48)) else None)"

definition array_index :: "string \<Rightarrow> nat option" where
  "array_index key =
     (if key = [] \<or> (length key > 1 \<and> hd key = CHR ''0'') then None else digits_value key 0)"

text \<open>
  Reading \<open>v.key\<close> or \<open>v[key]\<close>. On \<open>undefined\<close> and \<open>null\<close> the read throws a TypeError
  (the message is the one V8 prints). An object yields its own property or \<open>undefined\<close>; an
  array yields its \<open>length\<close> or the element at an index; a string yields its \<open>length\<close> or
  the character at an index; the other primitives have no own property of interest here.
  Properties inherited from the prototypes (methods) are not values of this model.
\<close>

definition member :: "jsval \<Rightarrow> string \<Rightarrow> js_error + jsval" where
  "member v key = (case v of
       JUndefined \<Rightarrow> Inl (TypeError (''Cannot read properties of undefined (reading '' @ [CHR 0x27] @ key @ [CHR 0x27] @ '')''))
     | JNull \<Rightarrow> Inl (TypeError (''Cannot read properties of null (reading '' @ [CHR 0x27] @ key @ [CHR 0x27] @ '')''))
     | JObj ps \<Rightarrow> (case map_of ps key of Some x \<Rightarrow> Inr x | None \<Rightarrow> Inr JUndefined)
     | JArr xs \<Rightarrow>
         (if key = ''length'' then Inr (JNum (int (length xs)))
          else case array_index key of
                 Some i \<Rightarrow> Inr (if i < length xs then xs ! i else JUndefined)
               | None \<Rightarrow> Inr JUndefined)
     | JStr s \<Rightarrow>
         (if key = ''length'' then Inr (JNum (int (length s)))
          else case array_index key of
                 Some i \<Rightarrow> Inr (if i < length s then JStr [s ! i] else JUndefined)
               | None \<Rightarrow> Inr JUndefined)
     | _ \<Rightarrow> Inr JUndefined)"

text \<open>
  An array pattern \<open>[a, b, ...] = v\<close> iterates \<open>v\<close>: an array hands out its elements, a
  value that is not iterable throws.
\<close>

definition elements :: "jsval \<Rightarrow> js_error + jsval list" where
  "elements v = (case v of
       JArr xs \<Rightarrow> Inr xs
     | JStr s \<Rightarrow> Inr (map (\<lambda>c. JStr [c]) s)
     | _ \<Rightarrow> Inl (TypeError (to_string v @ '' is not iterable'')))"

text \<open>The \<open>i\<close>-th value an array pattern binds: \<open>undefined\<close> past the end.\<close>

definition nth_or_undefined :: "jsval list \<Rightarrow> nat \<Rightarrow> jsval" where
  "nth_or_undefined xs i = (if i < length xs then xs ! i else JUndefined)"

text \<open>A destructuring default \<open>x = d\<close>: used when, and only when, the value is \<open>undefined\<close>.\<close>

definition default_to :: "jsval \<Rightarrow> jsval \<Rightarrow> jsval" where
  "default_to v d = (if v = JUndefined then d else v)"

section \<open>JSON.stringify without indentation\<close>

text \<open>
  The characters \<open>JSON.stringify\<close> escapes inside a string: the double quote, the backslash
  and the control characters (the named ones by their short escape, the others as
  \<open>\u00XX\<close>).
\<close>

definition hex_digit :: "nat \<Rightarrow> char" where
  "hex_digit n = ''0123456789abcdef'' ! (n mod 16)"

definition json_escape_char :: "char \<Rightarrow> string" where
  "json_escape_char c =
     (if c = CHR 0x22 then [CHR 0x5C, CHR 0x22]
      else if c = CHR 0x5C then [CHR 0x5C, CHR 0x5C]
      else if c = CHR 0x08 then [CHR 0x5C, CHR ''b'']
      else if c = CHR 0x0C then [CHR 0x5C, CHR ''f'']
      else if c = CHR 0x0A then [CHR 0x5C, CHR ''n'']
      else if c = CHR 0x0D then [CHR 0x5C, CHR ''r'']
      else if c = CHR 0x09 then [CHR 0x5C, CHR ''t'']
      else if of_char c < (32 :: nat)
        then [CHR 0x5C, CHR ''u'', CHR ''0'', CHR ''0'', hex_digit (of_char c div 16), hex_digit (of_char c)]
      else [c])"

definition json_quote :: "string \<Rightarrow> string" where
  "json_quote s = [CHR 0x22] @ concat (map json_escape_char s) @ [CHR 0x22]"

text \<open>
  \<open>JSON.stringify(v)\<close> for a value inside an array or an object: \<open>undefined\<close> in an array
  prints as \<open>null\<close>, a property whose value is \<open>undefined\<close> is left out.
\<close>

fun JSON_stringify :: "jsval \<Rightarrow> string" where
  "JSON_stringify JUndefined = ''null''"
| "JSON_stringify JNull = ''null''"
| "JSON_stringify (JBool b) = (if b then ''true'' else ''false'')"
| "JSON_stringify (JNum n) = string_of_int n"
| "JSON_stringify (JStr s) = json_quote s"
| "JSON_stringify (JArr xs) = ''['' @ join '','' (map JSON_stringify xs) @ '']''"
| "JSON_stringify (JObj ps) =
     ''{'' @ join '','' (map (\<lambda>(k, v). json_quote k @ '':'' @ JSON_stringify v)
                            (filter (\<lambda>(k, v). v \<noteq> JUndefined) ps)) @ ''}''"

section \<open>String and array methods the demos call\<close>

text \<open>
  Strings are byte lists, so \<open>length\<close>, \<open>padEnd\<close> and the case conversions agree with
  JavaScript on ASCII text, which is what the demos apply them to.
\<close>

text \<open>\<open>s.split(sep)\<close> for a one-character separator.\<close>

fun split_on :: "char \<Rightarrow> string \<Rightarrow> string list" where
  "split_on sep [] = [[]]"
| "split_on sep (c # cs) =
     (if c = sep then [] # split_on sep cs
      else (case split_on sep cs of [] \<Rightarrow> [[c]] | w # ws \<Rightarrow> (c # w) # ws))"

text \<open>\<open>s.trim()\<close>: white space is removed from both ends.\<close>

definition is_space :: "char \<Rightarrow> bool" where
  "is_space c = (c \<in> set [CHR 0x20, CHR 0x0A, CHR 0x09, CHR 0x0D, CHR 0x0B, CHR 0x0C])"

definition trim :: "string \<Rightarrow> string" where
  "trim s = rev (dropWhile is_space (rev (dropWhile is_space s)))"

text \<open>\<open>s.padEnd(n)\<close>: spaces are appended up to length \<open>n\<close>.\<close>

definition padEnd :: "nat \<Rightarrow> string \<Rightarrow> string" where
  "padEnd n s = s @ replicate (n - length s) CHR '' ''"

definition toUpperCase :: "string \<Rightarrow> string" where
  "toUpperCase s =
     map (\<lambda>c. if (97 :: nat) \<le> of_char c \<and> of_char c \<le> (122 :: nat)
              then char_of (of_char c - (32 :: nat)) else c) s"

definition toLowerCase :: "string \<Rightarrow> string" where
  "toLowerCase s =
     map (\<lambda>c. if (65 :: nat) \<le> of_char c \<and> of_char c \<le> (90 :: nat)
              then char_of (of_char c + (32 :: nat)) else c) s"

text \<open>\<open>s.replace(/c/g, r)\<close> for a one-character pattern.\<close>

definition replace_char :: "char \<Rightarrow> string \<Rightarrow> string \<Rightarrow> string" where
  "replace_char c r s = concat (map (\<lambda>x. if x = c then r else [x]) s)"

text \<open>Whether \<open>sub\<close> occurs in \<open>s\<close> as a substring (\<open>s.includes(sub)\<close>).\<close>

fun is_substring :: "string \<Rightarrow> string \<Rightarrow> bool" where
  "is_substring sub [] = (sub = [])"
| "is_substring sub (c # cs) = (take (length sub) (c # cs) = sub \<or> is_substring sub cs)"

text \<open>\<open>[...new Set(xs)]\<close>: the first occurrence of each element, in order.\<close>

fun dedupe :: "'a list \<Rightarrow> 'a list" where
  "dedupe [] = []"
| "dedupe (x # xs) = x # dedupe (filter (\<lambda>y. y \<noteq> x) xs)"

text \<open>
  An object literal with spreads: a property that is already there keeps its place and
  takes the new value, a new one goes to the end.
\<close>

fun set_property :: "string \<Rightarrow> jsval \<Rightarrow> (string \<times> jsval) list \<Rightarrow> (string \<times> jsval) list" where
  "set_property k v [] = [(k, v)]"
| "set_property k v ((k', v') # ps) = (if k' = k then (k, v) # ps else (k', v') # set_property k v ps)"

text \<open>
  \<open>...source\<close> inside an object literal: the own properties of an object, in order; an
  array contributes its elements under their indices; \<open>undefined\<close>, \<open>null\<close>, booleans and
  numbers contribute nothing.
\<close>

definition own_properties :: "jsval \<Rightarrow> (string \<times> jsval) list" where
  "own_properties v = (case v of
       JObj ps \<Rightarrow> ps
     | JArr xs \<Rightarrow> map (\<lambda>i. (string_of_nat i, xs ! i)) [0 ..< length xs]
     | JStr s \<Rightarrow> map (\<lambda>i. (string_of_nat i, JStr [s ! i])) [0 ..< length s]
     | _ \<Rightarrow> [])"

definition spread_into :: "(string \<times> jsval) list \<Rightarrow> jsval \<Rightarrow> (string \<times> jsval) list" where
  "spread_into ps source = fold (\<lambda>(k, v) acc. set_property k v acc) (own_properties source) ps"

text \<open>Truthiness.\<close>

fun truthy :: "jsval \<Rightarrow> bool" where
  "truthy JUndefined = False"
| "truthy JNull = False"
| "truthy (JBool b) = b"
| "truthy (JNum n) = (n \<noteq> 0)"
| "truthy (JStr s) = (s \<noteq> [])"
| "truthy (JArr xs) = True"
| "truthy (JObj ps) = True"

section \<open>JSON.stringify with an indentation of two spaces\<close>

text \<open>
  \<open>JSON.stringify(v, null, 2)\<close> at nesting depth \<open>d\<close>: the members of a non-empty array
  or object stand on lines of their own, indented by two spaces for each level.
\<close>

fun JSON_pretty :: "nat \<Rightarrow> jsval \<Rightarrow> string" where
  "JSON_pretty d JUndefined = ''null''"
| "JSON_pretty d JNull = ''null''"
| "JSON_pretty d (JBool b) = (if b then ''true'' else ''false'')"
| "JSON_pretty d (JNum n) = string_of_int n"
| "JSON_pretty d (JStr s) = json_quote s"
| "JSON_pretty d (JArr xs) =
     (if xs = [] then ''[]''
      else ''['' @ nl
           @ join ('','' @ nl) (map (\<lambda>x. replicate (2 * Suc d) CHR '' '' @ JSON_pretty (Suc d) x) xs)
           @ nl @ replicate (2 * d) CHR '' '' @ '']'')"
| "JSON_pretty d (JObj ps) =
     (if filter (\<lambda>(k, v). v \<noteq> JUndefined) ps = [] then ''{}''
      else ''{'' @ nl
           @ join ('','' @ nl)
               (map (\<lambda>(k, v). replicate (2 * Suc d) CHR '' '' @ json_quote k @ '': '' @ JSON_pretty (Suc d) v)
                    (filter (\<lambda>(k, v). v \<noteq> JUndefined) ps))
           @ nl @ replicate (2 * d) CHR '' '' @ ''}'')"

section \<open>Numbers that are not integers\<close>

text \<open>
  The result of a division or of a time measurement: a rational, an infinity or \<open>NaN\<close>.
  Arithmetic is exact; the rounding of floating-point operations and the sign of zero are
  not modelled.
\<close>

datatype jsnum = Finite rat | PosInfinity | NegInfinity | NaN

text \<open>\<open>a / b\<close> on finite numbers.\<close>

definition js_divide :: "rat \<Rightarrow> rat \<Rightarrow> jsnum" where
  "js_divide a b =
     (if b = 0 then (if a = 0 then NaN else if a > 0 then PosInfinity else NegInfinity)
      else Finite (a / b))"

text \<open>\<open>x * c\<close> and \<open>c - x\<close> for a finite \<open>c\<close>.\<close>

definition js_times :: "jsnum \<Rightarrow> rat \<Rightarrow> jsnum" where
  "js_times x c = (case x of
       Finite r \<Rightarrow> Finite (r * c)
     | NaN \<Rightarrow> NaN
     | PosInfinity \<Rightarrow> (if c = 0 then NaN else if c > 0 then PosInfinity else NegInfinity)
     | NegInfinity \<Rightarrow> (if c = 0 then NaN else if c > 0 then NegInfinity else PosInfinity))"

definition js_minus_from :: "rat \<Rightarrow> jsnum \<Rightarrow> jsnum" where
  "js_minus_from c x = (case x of
       Finite r \<Rightarrow> Finite (c - r)
     | NaN \<Rightarrow> NaN
     | PosInfinity \<Rightarrow> NegInfinity
     | NegInfinity \<Rightarrow> PosInfinity)"

text \<open>\<open>Math.round\<close>: to the nearest integer, halves upwards.\<close>

definition Math_round :: "jsnum \<Rightarrow> jsnum" where
  "Math_round x = (case x of Finite r \<Rightarrow> Finite (of_int \<lfloor>r + 1 / 2\<rfloor>) | _ \<Rightarrow> x)"

text \<open>
  \<open>String(x)\<close> for the numbers the demos print without \<open>toFixed\<close>, which are integers,
  infinities or \<open>NaN\<close>; the integer part is printed for any other number.
\<close>

definition number_to_string :: "jsnum \<Rightarrow> string" where
  "number_to_string x = (case x of
       Finite r \<Rightarrow> string_of_int \<lfloor>r\<rfloor>
     | PosInfinity \<Rightarrow> ''Infinity''
     | NegInfinity \<Rightarrow> ''-Infinity''
     | NaN \<Rightarrow> ''NaN'')"

text \<open>
  \<open>x.toFixed(d)\<close>: the magnitude is rounded to \<open>d\<close> decimals, halves upwards, and printed
  with exactly \<open>d\<close> digits after the point (numbers of magnitude \<open>1e21\<close> and more, which
  JavaScript prints in exponent form, do not occur).
\<close>

definition toFixed :: "nat \<Rightarrow> jsnum \<Rightarrow> string" where
  "toFixed d x = (case x of
       Finite r \<Rightarrow>
         (let n = nat \<lfloor>\<bar>r\<bar> * 10 ^ d + 1 / 2\<rfloor>;
              ds = string_of_nat n;
              padded = replicate (Suc d - length ds) CHR ''0'' @ ds;
              whole = take (length padded - d) padded;
              frac = drop (length padded - d) padded
          in (if r < 0 then ''-'' else []) @ whole @ (if d = 0 then [] else ''.'' @ frac))
     | PosInfinity \<Rightarrow> ''Infinity''
     | NegInfinity \<Rightarrow> ''-Infinity''
     | NaN \<Rightarrow> ''NaN'')"

section \<open>performance.js: binary search against linear search\<close>

text \<open>
  The elements of \<open>testData\<close>. A score is a JavaScript number that is not NaN; on those the
  comparisons \<open>>=\<close> and \<open><\<close> are the order of the reals.
\<close>

record user =
  id :: nat
  name :: string
  score :: real
  active :: bool

text \<open>\<open>arr[i]\<close>: an index outside the array reads \<open>undefined\<close>.\<close>

definition at_index :: "'a list \<Rightarrow> int \<Rightarrow> 'a js_ref" where
  "at_index arr i = (if 0 \<le> i \<and> i < int (length arr) then Obj (arr ! nat i) else Undefined)"

text \<open>\<open>x.score\<close>: throws a TypeError when \<open>x\<close> is \<open>undefined\<close> or \<open>null\<close>.\<close>

definition score_of :: "user js_ref \<Rightarrow> js_error + real" where
  "score_of r = (case r of
       Obj u \<Rightarrow> Inr (score u)
     | Null \<Rightarrow> Inl (TypeError ''Cannot read properties of null (reading 'score')'')
     | Undefined \<Rightarrow> Inl (TypeError ''Cannot read properties of undefined (reading 'score')''))"

text \<open>
  The \<open>while (left <= right)\<close> loop of \<open>binarySearch\<close>, with \<open>left\<close> and \<open>right\<close> as the
  loop state. \<open>Math.floor((left + right) / 2)\<close> is \<open>div 2\<close> on integers.
\<close>

function binarySearch_loop :: "user list \<Rightarrow> real \<Rightarrow> int \<Rightarrow> int \<Rightarrow> js_error + user js_ref" where
  "binarySearch_loop arr target left right =
     (if left \<le> right then
        (let mid = (left + right) div 2 in
         case score_of (at_index arr mid) of
           Inl e \<Rightarrow> Inl e
         | Inr s \<Rightarrow>
             if s \<ge> target then
               (if mid = 0 then Inr (at_index arr mid)
                else case score_of (at_index arr (mid - 1)) of
                       Inl e \<Rightarrow> Inl e
                     | Inr p \<Rightarrow>
                         if p < target then Inr (at_index arr mid)
                         else binarySearch_loop arr target left (mid - 1))
             else binarySearch_loop arr target (mid + 1) right)
      else Inr Null)"
  by pat_completeness auto
termination
  by (relation "measure (\<lambda>(arr, target, left, right). nat (right - left + 1))") auto

declare binarySearch_loop.simps [simp del]

definition binarySearch :: "user list \<Rightarrow> real \<Rightarrow> js_error + user js_ref" where
  "binarySearch arr target = binarySearch_loop arr target 0 (int (length arr) - 1)"

text \<open>
  \<open>sortedData.find((user) => user.score >= targetScore)\<close>: the first element that
  satisfies the predicate, \<open>undefined\<close> when there is none.
\<close>

definition linearSearch :: "user list \<Rightarrow> real \<Rightarrow> user js_ref" where
  "linearSearch arr target =
     (case List.find (\<lambda>u. score u \<ge> target) arr of Some u \<Rightarrow> Obj u | None \<Rightarrow> Undefined)"

text \<open>The result of \<open>sort((a, b) => a.score - b.score)\<close>: scores in non-decreasing order.\<close>

definition sorted_by_score :: "user list \<Rightarrow> bool" where
  "sorted_by_score arr = sorted (map score arr)"

text \<open>Four users in score order, two of them with the target score, used to run the search on a concrete array.\<close>

definition sample_sorted :: "user list" where
  "sample_sorted =
     [\<lparr>id = 7, name = ''User 7'', score = 12, active = True\<rparr>,
      \<lparr>id = 2, name = ''User 2'', score = 50, active = False\<rparr>,
      \<lparr>id = 5, name = ''User 5'', score = 50, active = True\<rparr>,
      \<lparr>id = 0, name = ''User 0'', score = 93, active = True\<rparr>]"

section \<open>destructuring.js: DestructuringDemo\<close>

record DestructuringDemo =
  sampleData :: jsval

text \<open>The constructor: \<open>this.sampleData\<close> is the literal below.\<close>

definition new_DestructuringDemo :: DestructuringDemo where
  "new_DestructuringDemo = \<lparr> sampleData =
     JObj [
       (''user'', JObj [
          (''id'', JNum 1),
          (''name'', JStr ''John Doe''),
          (''email'', JStr ''john@example.com''),
          (''preferences'', JObj [
             (''theme'', JStr ''dark''),
             (''notifications'', JObj [
                (''email'', JBool True),
                (''push'', JBool False),
                (''sms'', JBool True)])]),
          (''addresses'', JArr [
             JObj [(''type'', JStr ''home''), (''city'', JStr ''New York''), (''zipCode'', JStr ''10001'')],
             JObj [(''type'', JStr ''work''), (''city'', JStr ''San Francisco''), (''zipCode'', JStr ''94105'')]])]),
       (''products'', JArr [
          JObj [(''id'', JNum 1), (''name'', JStr ''Laptop''), (''price'', JNum 999), (''category'', JStr ''Electronics'')],
          JObj [(''id'', JNum 2), (''name'', JStr ''Book''), (''price'', JNum 29), (''category'', JStr ''Education'')],
          JObj [(''id'', JNum 3), (''name'', JStr ''Coffee''), (''price'', JNum 5), (''category'', JStr ''Food'')]])] \<rparr>"

text \<open>
  \<open>nestedObjectDestructuring\<close>: the pattern is read in source order, each nested pattern
  reading a property of the value bound one level up, and the template literal is filled
  from the bound names. The first line of the result starts with the emoji U+1F3AF.
\<close>

definition nestedObjectDestructuring :: "DestructuringDemo \<Rightarrow> js_error + string" where
  "nestedObjectDestructuring this =
     thenE (member (sampleData this) ''user'') (\<lambda>user.
     thenE (member user ''name'') (\<lambda>name.
     thenE (member user ''email'') (\<lambda>email.
     thenE (member user ''preferences'') (\<lambda>preferences.
     thenE (member preferences ''theme'') (\<lambda>theme.
     thenE (member preferences ''notifications'') (\<lambda>notifications.
     thenE (member notifications ''email'') (\<lambda>emailNotif.
     thenE (member notifications ''push'') (\<lambda>push.
     let pushNotif = default_to push (JBool True) in
     thenE (member user ''addresses'') (\<lambda>addresses.
     thenE (elements addresses) (\<lambda>elems.
     let homeAddress = nth_or_undefined elems 0;
         workAddress = default_to (nth_or_undefined elems 1) (JObj [(''city'', JStr ''Unknown'')]) in
     thenE (member homeAddress ''city'') (\<lambda>homeCity.
     thenE (member workAddress ''city'') (\<lambda>workCity.
     Inr ([CHR 0xF0, CHR 0x9F, CHR 0x8E, CHR 0xAF] @ '' Nested Object Destructuring:'' @ nl
          @ ''Name: '' @ to_string name @ nl
          @ ''Email: '' @ to_string email @ nl
          @ ''Theme: '' @ to_string theme @ nl
          @ ''Email Notifications: '' @ to_string emailNotif @ nl
          @ ''Push Notifications: '' @ to_string pushNotif @ nl
          @ ''Home City: '' @ to_string homeCity @ nl
          @ ''Work City: '' @ to_string workCity)))))))))))))"

section \<open>advancedPatterns.js: memoizationPattern\<close>

text \<open>The object \<open>{ result, cached }\<close> the memoized wrapper returns.\<close>

record 'v memo_result =
  result :: 'v
  cached :: bool

text \<open>
  \<open>memoize(fn, keyGenerator)\<close> returns a closure over a private \<open>Map\<close>. In the model the
  program state \<open>'st\<close> holds that map: \<open>get_cache\<close> reads it and \<open>set_cache\<close> replaces it.
  \<open>fn\<close> is any function of the arguments that may throw and may change the state. One call
  of the wrapper:
  \<^item> \<open>cache.has(key)\<close>: return the stored value with \<open>cached: true\<close>; \<open>fn\<close> is not called;
  \<^item> otherwise call \<open>fn\<close>; when it throws, the wrapper throws and stores nothing; when it
    returns, \<open>cache.set(key, result)\<close> on the map as it is after the call, and return the
    result with \<open>cached: false\<close>.
\<close>

definition memoize ::
  "('st \<Rightarrow> ('k \<rightharpoonup> 'v)) \<Rightarrow> (('k \<rightharpoonup> 'v) \<Rightarrow> 'st \<Rightarrow> 'st) \<Rightarrow>
   ('a \<Rightarrow> 'st \<Rightarrow> (js_error + 'v) \<times> 'st) \<Rightarrow> ('a \<Rightarrow> 'k) \<Rightarrow>
   'a \<Rightarrow> 'st \<Rightarrow> (js_error + 'v memo_result) \<times> 'st" where
  "memoize get_cache set_cache fn keyGenerator args st =
     (let key = keyGenerator args in
      case get_cache st key of
        Some v \<Rightarrow> (Inr \<lparr>result = v, cached = True\<rparr>, st)
      | None \<Rightarrow>
          (case fn args st of
             (Inl e, st') \<Rightarrow> (Inl e, st')
           | (Inr r, st') \<Rightarrow>
               (Inr \<lparr>result = r, cached = False\<rparr>, set_cache ((get_cache st')(key \<mapsto> r)) st')))"


text \<open>The default key generator \<open>(...args) => JSON.stringify(args)\<close> on one numeric argument.\<close>

definition key_of_number :: "int \<Rightarrow> string" where
  "key_of_number n = JSON_stringify (JArr [JNum n])"

text \<open>
  \<open>a + b\<close> where both operands are plain objects: each converts to the string
  \<open>[object Object]\<close> and the strings are concatenated.
\<close>

definition add_objects :: "'x memo_result \<Rightarrow> 'y memo_result \<Rightarrow> string" where
  "add_objects a b = ''[object Object]'' @ ''[object Object]''"

text \<open>
  \<open>const fib = memoize(fibonacci)\<close> inside the function being memoized: a second wrapper,
  with a map of its own (the first component of the state), around the outer wrapper
  \<open>self\<close>, whose map is the second component. Its results are the objects \<open>self\<close> returns.
\<close>

definition fib_inner ::
  "(int \<Rightarrow> (string \<rightharpoonup> jsval) \<Rightarrow> (js_error + jsval memo_result) \<times> (string \<rightharpoonup> jsval)) \<Rightarrow>
   int \<Rightarrow> (string \<rightharpoonup> jsval memo_result) \<times> (string \<rightharpoonup> jsval) \<Rightarrow>
   (js_error + jsval memo_result memo_result) \<times> ((string \<rightharpoonup> jsval memo_result) \<times> (string \<rightharpoonup> jsval))" where
  "fib_inner self =
     memoize fst (\<lambda>c st. (c, snd st))
       (\<lambda>m st. case self m (snd st) of (r, outer) \<Rightarrow> (r, (fst st, outer)))
       key_of_number"

lemma memoize_cong [fundef_cong]:
  assumes "args = args'" and "st = st'" and "\<And>s. fn args' s = fn' args' s"
  shows "memoize g s fn k args st = memoize g s fn' k args' st'"
  using assms by (simp add: memoize_def Let_def split: option.splits)

lemma fib_inner_cong [fundef_cong]:
  assumes "n = n'" and "st = st'" and "\<And>c. self n' c = self' n' c"
  shows "fib_inner self n st = fib_inner self' n' st'"
  using assms by (simp add: fib_inner_def memoize_def Let_def split: option.splits)

text \<open>
  \<open>const fibonacci = memoize((n) => { ... })\<close>. The state is the wrapper's own map. The
  function returns \<open>n\<close> for \<open>n <= 1\<close>; otherwise it makes the inner wrapper \<open>fib\<close> (with an
  empty map), calls \<open>fib(n - 1)\<close> and \<open>fib(n - 2)\<close> and adds their \<open>result\<close> fields, which
  are the objects returned by \<open>fibonacci\<close>.
\<close>

function fibonacci ::
  "int \<Rightarrow> (string \<rightharpoonup> jsval) \<Rightarrow> (js_error + jsval memo_result) \<times> (string \<rightharpoonup> jsval)" where
  "fibonacci n cache =
     memoize (\<lambda>c. c) (\<lambda>c st. c)
       (\<lambda>n st.
          if n \<le> 1 then (Inr (JNum n), st)
          else
            (case fib_inner fibonacci (n - 1) (Map.empty, st) of
               (Inl e, fib_cache, st1) \<Rightarrow> (Inl e, st1)
             | (Inr r1, fib_cache1, st1) \<Rightarrow>
                 (case fib_inner fibonacci (n - 2) (fib_cache1, st1) of
                    (Inl e, fib_cache2, st2) \<Rightarrow> (Inl e, st2)
                  | (Inr r2, fib_cache2, st2) \<Rightarrow>
                      (Inr (JStr (add_objects (result r1) (result r2))), st2))))
       key_of_number n cache"
  by pat_completeness auto
termination
  by (relation "measure (\<lambda>(n, cache). nat n)") auto

declare fibonacci.simps [simp del]


text \<open>
  \<open>const processData = memoize((data) => data.map((item) => item * 2).reduce((a, b) => a + b, 0))\<close>
  on an array of numbers; the key is \<open>JSON.stringify([data])\<close>.
\<close>

definition processData ::
  "int list \<Rightarrow> (string \<rightharpoonup> int) \<Rightarrow> (js_error + int memo_result) \<times> (string \<rightharpoonup> int)" where
  "processData =
     memoize (\<lambda>c. c) (\<lambda>c st. c)
       (\<lambda>data st. (Inr (foldl (\<lambda>a b. a + b) 0 (map (\<lambda>item. item * 2) data)), st))
       (\<lambda>data. JSON_stringify (JArr [JArr (map JNum data)]))"

text \<open>
  \<open>memoizationPattern()\<close>: both wrappers start with an empty map; \<open>fibonacci(10)\<close> is called
  twice on the same wrapper, then \<open>processData([1, 2, 3, 4, 5])\<close>. The first line of the result
  starts with the emoji U+26A1.
\<close>

definition memoizationPattern :: "js_error + string" where
  "memoizationPattern =
     (case fibonacci 10 Map.empty of
        (Inl e, c1) \<Rightarrow> Inl e
      | (Inr fib10First, c1) \<Rightarrow>
     (case fibonacci 10 c1 of
        (Inl e, c2) \<Rightarrow> Inl e
      | (Inr fib10Second, c2) \<Rightarrow>
     (case processData [1, 2, 3, 4, 5] Map.empty of
        (Inl e, c3) \<Rightarrow> Inl e
      | (Inr dataResult, c3) \<Rightarrow>
        Inr ([CHR 0xE2, CHR 0x9A, CHR 0xA1] @ '' Memoization Pattern:'' @ nl
          @ ''Fibonacci(10) first call: '' @ to_string (result fib10First)
          @ '' (cached: '' @ to_string (JBool (cached fib10First)) @ '')'' @ nl
          @ ''Fibonacci(10) second call: '' @ to_string (result fib10Second)
          @ '' (cached: '' @ to_string (JBool (cached fib10Second)) @ '')'' @ nl
          @ ''Data processing result: '' @ string_of_int (result dataResult)))))"



section \<open>advancedPatterns.js: observerPattern\<close>

text \<open>
  Function objects are compared by identity (\<open>indexOf\<close>), so every listener carries one.
  A function handed to \<open>on\<close> by a caller is \<open>Named n\<close>; the arrow function that \<open>once\<close>
  creates around a callback is \<open>OnceWrapper k\<close>, a new one for each call of \<open>once\<close>.
\<close>

datatype fn_id = Named nat | OnceWrapper nat

text \<open>
  A callback is any function: it acts on the variables it closes over (\<open>'w\<close>; in the demo
  the array \<open>messages\<close>), and the emitter may be among them, so it can call the emitter's
  methods while it runs. Its body is a tree of the steps it takes:
  \<^item> \<open>Return\<close> and \<open>Throw e\<close> end it;
  \<^item> \<open>Local f g\<close> assigns \<open>f w\<close> to the closed-over variables, whose value was \<open>w\<close>, and goes
    on with \<open>g w\<close>;
  \<^item> \<open>CallEmit event data g\<close> calls \<open>emitter.emit(event, data)\<close> and goes on with \<open>g r\<close>,
    where \<open>r\<close> is the error the call threw, if any (a body that has no \<open>try\<close> around the
    call goes on with \<open>Throw e\<close>);
  \<^item> \<open>CallOn event n f p\<close> calls \<open>emitter.on(event, f)\<close> for the function \<open>f\<close> of identity
    \<open>Named n\<close> and goes on with \<open>p\<close>;
  \<^item> \<open>CallOnce event f g\<close> calls \<open>emitter.once(event, f)\<close> and goes on with \<open>g h\<close>, where \<open>h\<close>
    stands for the unsubscribe function that the call returned;
  \<^item> \<open>CallUnsubscribe h g\<close> calls the unsubscribe function \<open>h\<close> and goes on with \<open>g r\<close>,
    \<open>r\<close> as for \<open>CallEmit\<close>.

  The same trees describe the code that uses an emitter from outside. The values that
  \<open>emit\<close> and the callbacks return are read by nobody in the source and are left out.
\<close>

datatype ('d, 'w) prog =
    Return
  | Throw js_error
  | Local "'w \<Rightarrow> 'w" "'w \<Rightarrow> ('d, 'w) prog"
  | CallEmit string 'd "js_error option \<Rightarrow> ('d, 'w) prog"
  | CallOn string nat "'d \<Rightarrow> ('d, 'w) prog" "('d, 'w) prog"
  | CallOnce string "'d \<Rightarrow> ('d, 'w) prog" "string \<times> fn_id \<Rightarrow> ('d, 'w) prog"
  | CallUnsubscribe "string \<times> fn_id" "js_error option \<Rightarrow> ('d, 'w) prog"

type_synonym ('d, 'w) callback = "'d \<Rightarrow> ('d, 'w) prog"

text \<open>
  What an array in \<open>this.events\<close> holds: a caller's function, or the wrapper
  \<open>(data) => { callback(data); unsubscribe() }\<close> made by \<open>once\<close> for \<open>callback\<close>.
\<close>

datatype ('d, 'w) listener =
    Plain nat "('d, 'w) callback"
  | Wrapper nat "('d, 'w) callback"

fun ident :: "('d, 'w) listener \<Rightarrow> fn_id" where
  "ident (Plain n f) = Named n"
| "ident (Wrapper k f) = OnceWrapper k"

text \<open>
  The state: \<open>this.events\<close>, the variables the callbacks close over, the number of wrappers
  \<open>once\<close> has created so far (the next wrapper's identity), and a log of the listeners
  invoked, in order. The log is not in the source; it is what the statements about "invoked
  at most once" count.
\<close>

record ('d, 'w) emitter_state =
  events :: "string \<rightharpoonup> ('d, 'w) listener list"
  outside :: 'w
  wrappers_made :: nat
  calls :: "fn_id list"

definition new_EventEmitter :: "'w \<Rightarrow> ('d, 'w) emitter_state" where
  "new_EventEmitter w = \<lparr>events = Map.empty, outside = w, wrappers_made = 0, calls = []\<rparr>"

text \<open>\<open>this.events.get(event) || []\<close>\<close>

definition listeners :: "('d, 'w) emitter_state \<Rightarrow> string \<Rightarrow> ('d, 'w) listener list" where
  "listeners st event = (case events st event of None \<Rightarrow> [] | Some cbs \<Rightarrow> cbs)"

text \<open>
  \<open>on(event, callback)\<close>: create the array if the event has none, push the callback. The
  returned unsubscribe function is represented by what it closes over: the event and the
  callback's identity.
\<close>

definition on :: "string \<Rightarrow> ('d, 'w) listener \<Rightarrow> ('d, 'w) emitter_state \<Rightarrow> (string \<times> fn_id) \<times> ('d, 'w) emitter_state" where
  "on event callback st =
     ((event, ident callback), st\<lparr>events := (events st)(event \<mapsto> listeners st event @ [callback])\<rparr>)"

text \<open>\<open>callbacks.splice(callbacks.indexOf(callback), 1)\<close> when the index is not \<open>-1\<close>.\<close>

fun remove_first :: "fn_id \<Rightarrow> ('d, 'w) listener list \<Rightarrow> ('d, 'w) listener list" where
  "remove_first i [] = []"
| "remove_first i (l # ls) = (if ident l = i then ls else l # remove_first i ls)"

text \<open>
  Calling the unsubscribe function. \<open>this.events.get(event)\<close> is the array \<open>on\<close> created;
  were it missing, \<open>callbacks.indexOf\<close> would throw.
\<close>

definition unsubscribe :: "string \<times> fn_id \<Rightarrow> ('d, 'w) emitter_state \<Rightarrow> js_error option \<times> ('d, 'w) emitter_state" where
  "unsubscribe h st =
     (case events st (fst h) of
        None \<Rightarrow> (Some (TypeError ''Cannot read properties of undefined (reading 'indexOf')''), st)
      | Some callbacks \<Rightarrow> (None, st\<lparr>events := (events st)(fst h \<mapsto> remove_first (snd h) callbacks)\<rparr>))"

text \<open>
  \<open>once(event, callback)\<close>: register a new wrapper. When the wrapper is invoked it calls
  \<open>callback(data)\<close> and then, unless that threw, \<open>unsubscribe()\<close>.
\<close>

definition once :: "string \<Rightarrow> ('d, 'w) callback \<Rightarrow> ('d, 'w) emitter_state \<Rightarrow> (string \<times> fn_id) \<times> ('d, 'w) emitter_state" where
  "once event callback st =
     on event (Wrapper (wrappers_made st) callback) (st\<lparr>wrappers_made := Suc (wrappers_made st)\<rparr>)"

text \<open>
  Running a body. \<open>em\<close> is what a call of \<open>emit\<close> from inside the body does; it is
  \<open>emit\<close> itself, with the stack that is left (below).
\<close>

primrec exec ::
  "(string \<Rightarrow> 'd \<Rightarrow> ('d, 'w) emitter_state \<Rightarrow> js_error option \<times> ('d, 'w) emitter_state) \<Rightarrow>
   ('d, 'w) prog \<Rightarrow> ('d, 'w) emitter_state \<Rightarrow> js_error option \<times> ('d, 'w) emitter_state" where
  "exec em Return = (\<lambda>st. (None, st))"
| "exec em (Throw e) = (\<lambda>st. (Some e, st))"
| "exec em (Local f g) = (\<lambda>st. exec em (g (outside st)) (st\<lparr>outside := f (outside st)\<rparr>))"
| "exec em (CallEmit event data g) =
     (\<lambda>st. case em event data st of (r, st') \<Rightarrow> exec em (g r) st')"
| "exec em (CallOn event n f p) = (\<lambda>st. exec em p (snd (on event (Plain n f) st)))"
| "exec em (CallOnce event f g) =
     (\<lambda>st. case once event f st of (h, st') \<Rightarrow> exec em (g h) st')"
| "exec em (CallUnsubscribe h g) =
     (\<lambda>st. case unsubscribe h st of (r, st') \<Rightarrow> exec em (g r) st')"

text \<open>
  One listener called by \<open>emit\<close> for \<open>event\<close>: the call is logged and the body runs. The
  wrapper of \<open>once\<close> is still registered while \<open>callback(data)\<close> runs.
\<close>

fun invoke ::
  "(string \<Rightarrow> 'd \<Rightarrow> ('d, 'w) emitter_state \<Rightarrow> js_error option \<times> ('d, 'w) emitter_state) \<Rightarrow>
   string \<Rightarrow> ('d, 'w) listener \<Rightarrow> 'd \<Rightarrow> ('d, 'w) emitter_state \<Rightarrow> js_error option \<times> ('d, 'w) emitter_state" where
  "invoke em event (Plain n f) data st =
     exec em (f data) (st\<lparr>calls := calls st @ [Named n]\<rparr>)"
| "invoke em event (Wrapper k callback) data st =
     (case exec em (callback data) (st\<lparr>calls := calls st @ [OnceWrapper k]\<rparr>) of
        (Some e, st') \<Rightarrow> (Some e, st')
      | (None, st') \<Rightarrow> unsubscribe (event, OnceWrapper k) st')"

text \<open>
  \<open>callbacks.map((callback) => callback(data))\<close> on the array stored for the event.
  \<open>map\<close> fixes the number of indices \<open>len\<close> when it starts and visits \<open>k = 0, ..., len - 1\<close>,
  reading the array as it is at that moment: an index that a \<open>splice\<close> during an earlier
  callback has moved past the end is skipped. A throwing callback ends the loop.
\<close>

function emit_loop ::
  "(string \<Rightarrow> 'd \<Rightarrow> ('d, 'w) emitter_state \<Rightarrow> js_error option \<times> ('d, 'w) emitter_state) \<Rightarrow>
   string \<Rightarrow> 'd \<Rightarrow> nat \<Rightarrow> nat \<Rightarrow> ('d, 'w) emitter_state \<Rightarrow> js_error option \<times> ('d, 'w) emitter_state" where
  "emit_loop em event data k len st =
     (if k < len then
        (if k < length (listeners st event) then
           (case invoke em event (listeners st event ! k) data st of
              (Some e, st') \<Rightarrow> (Some e, st')
            | (None, st') \<Rightarrow> emit_loop em event data (Suc k) len st')
         else emit_loop em event data (Suc k) len st)
      else (None, st))"
  by pat_completeness auto
termination
  by (relation "measure (\<lambda>(em, event, data, k, len, st). len - k)") auto

declare emit_loop.simps [simp del]

text \<open>
  \<open>emit(event, data)\<close> with room for \<open>stack\<close> nested calls of \<open>emit\<close> on the call stack.
  A callback that emits is run by an \<open>emit\<close> and calls \<open>emit\<close> again, one level deeper;
  when no room is left the call throws a \<open>RangeError\<close>, as the engine does, and no listener
  runs.
\<close>

primrec emit :: "nat \<Rightarrow> string \<Rightarrow> 'd \<Rightarrow> ('d, 'w) emitter_state \<Rightarrow> js_error option \<times> ('d, 'w) emitter_state" where
  "emit 0 = (\<lambda>event data st. (Some (RangeError ''Maximum call stack size exceeded''), st))"
| "emit (Suc stack) =
     (\<lambda>event data st. emit_loop (emit stack) event data 0 (length (listeners st event)) st)"

text \<open>
  The room that the engine's call stack leaves for nested calls of \<open>emit\<close>. Engines differ;
  the demo nests \<open>emit\<close> one deep, and what is proved about emitters is proved for every
  stack.
\<close>

definition call_stack_size :: nat where
  "call_stack_size = 10000"

text \<open>The three callbacks of the demo; \<open>messages.push(...)\<close> appends to \<open>messages\<close>.\<close>

definition on_login :: "(jsval, string list) callback" where
  "on_login user =
     (case member user ''name'' of
        Inl e \<Rightarrow> Throw e
      | Inr n \<Rightarrow> Local (\<lambda>messages. messages @ [''User '' @ to_string n @ '' logged in'']) (\<lambda>messages. Return))"

definition on_logout :: "(jsval, string list) callback" where
  "on_logout user =
     (case member user ''name'' of
        Inl e \<Rightarrow> Throw e
      | Inr n \<Rightarrow> Local (\<lambda>messages. messages @ [''User '' @ to_string n @ '' logged out'']) (\<lambda>messages. Return))"

definition on_startup :: "(jsval, string list) callback" where
  "on_startup data =
     Local (\<lambda>messages. messages @ [''System started (one-time event)'']) (\<lambda>messages. Return)"

text \<open>
  The body of \<open>observerPattern()\<close> up to the template literal: the subscriptions and the
  four \<open>emit\<close> calls, each of which would end the method if it threw.
\<close>

definition observer_run :: "nat \<Rightarrow> js_error + (jsval, string list) emitter_state" where
  "observer_run stack =
     (let st0 = new_EventEmitter [];
          st1 = snd (on ''user:login'' (Plain 0 on_login) st0);
          st2 = snd (on ''user:logout'' (Plain 1 on_logout) st1);
          st3 = snd (once ''system:startup'' on_startup st2)
      in case emit stack ''system:startup'' JUndefined st3 of
           (Some e, st4) \<Rightarrow> Inl e
         | (None, st4) \<Rightarrow>
      (case emit stack ''user:login'' (JObj [(''name'', JStr ''John'')]) st4 of
           (Some e, st5) \<Rightarrow> Inl e
         | (None, st5) \<Rightarrow>
      (case emit stack ''user:logout'' (JObj [(''name'', JStr ''John'')]) st5 of
           (Some e, st6) \<Rightarrow> Inl e
         | (None, st6) \<Rightarrow>
      (case emit stack ''system:startup'' JUndefined st6 of
           (Some e, st7) \<Rightarrow> Inl e
         | (None, st7) \<Rightarrow> Inr st7))))"

text \<open>
  \<open>observerPattern()\<close>. The first line starts with the emoji U+1F441 U+FE0F, each message
  line with the bullet U+2022.
\<close>

definition observerPattern :: "js_error + string" where
  "observerPattern =
     (case observer_run call_stack_size of
        Inl e \<Rightarrow> Inl e
      | Inr st \<Rightarrow>
          Inr ([CHR 0xF0, CHR 0x9F, CHR 0x91, CHR 0x81, CHR 0xEF, CHR 0xB8, CHR 0x8F] @ '' Observer Pattern:'' @ nl
            @ ''Events fired: '' @ string_of_int (int (length (outside st))) @ nl
            @ ''Messages:'' @ nl
            @ join nl (map (\<lambda>msg. [CHR 0xE2, CHR 0x80, CHR 0xA2] @ '' '' @ msg) (outside st))))"

text \<open>
  Three callbacks over a counter: one that throws every time, one that adds one, and one
  that adds one and, the first time it runs, emits the event \<open>e\<close> again before it returns.
\<close>

definition always_throws :: "(unit, nat) callback" where
  "always_throws data = Throw (Error ''boom'')"

definition count_up :: "(unit, nat) callback" where
  "count_up data = Local Suc (\<lambda>n. Return)"

definition emit_again :: "(unit, nat) callback" where
  "emit_again data =
     Local Suc (\<lambda>n. if n < 1 then CallEmit ''e'' () (\<lambda>r. Return) else Return)"

text \<open>
  Code that uses an emitter over such a counter: it registers \<open>emit_again\<close> with \<open>on\<close>
  for the event \<open>e\<close>; it emits \<open>e\<close> twice.
\<close>

definition listen_again :: "(unit, nat) prog" where
  "listen_again = CallOn ''e'' 0 emit_again Return"

definition emit_twice :: "(unit, nat) prog" where
  "emit_twice = CallEmit ''e'' () (\<lambda>r. CallEmit ''e'' () (\<lambda>r. Return))"

text \<open>
  A body that returns normally and makes no call of \<open>emit\<close>, whatever values it meets. It
  may assign to its variables and call \<open>on\<close>, \<open>once\<close> and unsubscribe functions.
\<close>

primrec quiet :: "('d, 'w) prog \<Rightarrow> bool" where
  "quiet Return = True"
| "quiet (Throw e) = False"
| "quiet (Local f g) = (\<forall>w. quiet (g w))"
| "quiet (CallEmit event data g) = False"
| "quiet (CallOn event n f p) = quiet p"
| "quiet (CallOnce event f g) = (\<forall>h. quiet (g h))"
| "quiet (CallUnsubscribe h g) = (\<forall>r. quiet (g r))"

text \<open>How often a function object occurs in an array of listeners.\<close>

definition occurrences :: "fn_id \<Rightarrow> ('d, 'w) listener list \<Rightarrow> nat" where
  "occurrences i ls = length (filter (\<lambda>l. ident l = i) ls)"

text \<open>
  Wrapper identities are handed out in order: in a state reached from a new emitter, every
  wrapper that is registered or has been invoked was made earlier.
\<close>

definition wrappers_known :: "('d, 'w) emitter_state \<Rightarrow> bool" where
  "wrappers_known st =
     ((\<forall>e cbs k g. events st e = Some cbs \<longrightarrow> Wrapper k g \<in> set cbs \<longrightarrow> k < wrappers_made st)
      \<and> (\<forall>k. OnceWrapper k \<in> set (calls st) \<longrightarrow> k < wrappers_made st))"

text \<open>
  What holds of the wrapper \<open>k\<close> that \<open>once(event, callback)\<close> made, from its registration
  on: it is registered for that event only, at most once, and wraps that callback.
\<close>

definition registered :: "string \<Rightarrow> nat \<Rightarrow> ('d, 'w) callback \<Rightarrow> ('d, 'w) emitter_state \<Rightarrow> bool" where
  "registered event k callback st =
     (k < wrappers_made st
      \<and> (\<forall>e cbs g. events st e = Some cbs \<longrightarrow> Wrapper k g \<in> set cbs \<longrightarrow> e = event \<and> g = callback)
      \<and> occurrences (OnceWrapper k) (listeners st event) \<le> 1)"

text \<open>
  And between two calls of listeners: the number of times it is still registered plus the
  number of times it has been invoked is at most one.
\<close>

definition tracked :: "string \<Rightarrow> nat \<Rightarrow> ('d, 'w) callback \<Rightarrow> ('d, 'w) emitter_state \<Rightarrow> bool" where
  "tracked event k callback st =
     (registered event k callback st
      \<and> occurrences (OnceWrapper k) (listeners st event) + count_list (calls st) (OnceWrapper k) \<le> 1)"

section \<open>script.js and performance.js: debounce and the timers it uses\<close>

text \<open>
  The browser's timers, in whole milliseconds. A pending timer is its identifier, the time
  at which it is due and what it will do (\<open>'p\<close>, one constructor for each arrow function
  handed to \<open>setTimeout\<close>). \<open>vars\<close> holds the variables of the program. Synchronous code
  takes no time: the clock moves only in \<open>advance\<close>.
\<close>

record ('p, 's) event_loop =
  clock :: nat
  pending :: "(nat \<times> nat \<times> 'p) list"
  next_timer :: nat
  vars :: 's

text \<open>\<open>setTimeout(action, delay)\<close> returns a new identifier.\<close>

definition setTimeout :: "'p \<Rightarrow> nat \<Rightarrow> ('p, 's) event_loop \<Rightarrow> nat \<times> ('p, 's) event_loop" where
  "setTimeout action delay st =
     (next_timer st,
      st\<lparr>pending := pending st @ [(next_timer st, clock st + delay, action)],
         next_timer := Suc (next_timer st)\<rparr>)"

text \<open>\<open>clearTimeout(id)\<close>: \<open>undefined\<close> and identifiers of timers that are gone do nothing.\<close>

definition clearTimeout :: "nat option \<Rightarrow> ('p, 's) event_loop \<Rightarrow> ('p, 's) event_loop" where
  "clearTimeout tid st =
     (case tid of
        None \<Rightarrow> st
      | Some i \<Rightarrow> st\<lparr>pending := filter (\<lambda>(j, due, action). j \<noteq> i) (pending st)\<rparr>)"

text \<open>
  Time passes until \<open>t\<close>: the timers due by then run, earliest first and in the order they
  were set among equals, each told the time at which it was due; the others stay pending.
  The actions of this program set no timers, so they act on the variables only.
\<close>

definition advance :: "(nat \<Rightarrow> 'p \<Rightarrow> 's \<Rightarrow> 's) \<Rightarrow> nat \<Rightarrow> ('p, 's) event_loop \<Rightarrow> ('p, 's) event_loop" where
  "advance fire t st =
     (let due_now = sort_key (\<lambda>(j, due, action). due) (filter (\<lambda>(j, due, action). due \<le> t) (pending st))
      in st\<lparr>clock := max (clock st) t,
            pending := filter (\<lambda>(j, due, action). \<not> due \<le> t) (pending st),
            vars := fold (\<lambda>(j, due, action) s. fire due action s) due_now (vars st)\<rparr>)"

text \<open>The variable \<open>timeout\<close> that the closure returned by \<open>debounce\<close> keeps.\<close>

record debounce_vars =
  timeout :: "nat option"

text \<open>
  One call of the function returned by \<open>debounce(func, wait)\<close> with arguments \<open>args\<close>:
  \<open>clearTimeout(timeout)\<close>, then \<open>timeout = setTimeout(() => func.apply(this, args), wait)\<close>.
  \<open>later args\<close> stands for that arrow function.
\<close>

definition debounced :: "('a \<Rightarrow> 'p) \<Rightarrow> nat \<Rightarrow> 'a \<Rightarrow> ('p, 'z debounce_vars_scheme) event_loop \<Rightarrow> ('p, 'z debounce_vars_scheme) event_loop" where
  "debounced later wait args st =
     (let st1 = clearTimeout (timeout (vars st)) st;
          (tid, st2) = setTimeout (later args) wait st1
      in st2\<lparr>vars := (vars st2)\<lparr>timeout := Some tid\<rparr>\<rparr>)"

text \<open>
  A debounced function on its own: \<open>func\<close> acts on \<open>world\<close>, and \<open>runs\<close> logs the time and
  the arguments of each execution of \<open>func\<close> (the log is not in the source).
\<close>

record ('a, 'w) single_vars = debounce_vars +
  world :: 'w
  runs :: "(nat \<times> 'a) list"

definition run_func :: "('a \<Rightarrow> 'w \<Rightarrow> 'w) \<Rightarrow> nat \<Rightarrow> 'a \<Rightarrow> ('a, 'w) single_vars \<Rightarrow> ('a, 'w) single_vars" where
  "run_func func t args s = s\<lparr>world := func args (world s), runs := runs s @ [(t, args)]\<rparr>"

definition single_start :: "'w \<Rightarrow> ('a, ('a, 'w) single_vars) event_loop" where
  "single_start w = \<lparr>clock = 0, pending = [], next_timer = 0,
                     vars = \<lparr>timeout = None, world = w, runs = []\<rparr>\<rparr>"

text \<open>Calls of the debounced function at given times, each after the time up to it has passed.\<close>

fun calls_at :: "('a \<Rightarrow> 'w \<Rightarrow> 'w) \<Rightarrow> nat \<Rightarrow> (nat \<times> 'a) list \<Rightarrow>
    ('a, ('a, 'w) single_vars) event_loop \<Rightarrow> ('a, ('a, 'w) single_vars) event_loop" where
  "calls_at func wait [] st = st"
| "calls_at func wait ((t, args) # cs) st =
     calls_at func wait cs (debounced (\<lambda>a. a) wait args (advance (run_func func) t st))"

text \<open>A burst: call times in order, each less than \<open>wait\<close> after the one before.\<close>

fun burst :: "nat \<Rightarrow> nat list \<Rightarrow> bool" where
  "burst wait [] = True"
| "burst wait [t] = True"
| "burst wait (t # u # ts) = (t \<le> u \<and> u < t + wait \<and> burst wait (u # ts))"


text \<open>
  \<open>debouncingThrottling()\<close> in performance.js. Its three timers: the debounced call, the
  reset of \<open>inThrottle\<close>, and the \<open>resolve\<close> of the awaited promise.
\<close>

datatype demo_timer = CallDebounced | ResetThrottle | Resolve

record demo_vars = debounce_vars +
  inThrottle :: bool
  debounceCount :: nat
  throttleCount :: nat
  directCount :: nat
  resolved :: bool

text \<open>What each timer does when it runs.\<close>

fun fire_demo :: "nat \<Rightarrow> demo_timer \<Rightarrow> demo_vars \<Rightarrow> demo_vars" where
  "fire_demo t CallDebounced s = s\<lparr>debounceCount := debounceCount s + 1\<rparr>"
| "fire_demo t ResetThrottle s = s\<lparr>inThrottle := False\<rparr>"
| "fire_demo t Resolve s = s\<lparr>resolved := True\<rparr>"

text \<open>
  One call of the function returned by \<open>throttle(() => throttleCount++, limit)\<close>;
  \<open>inThrottle\<close> starts out \<open>undefined\<close>, which \<open>!inThrottle\<close> treats as \<open>false\<close>.
\<close>

definition throttledOperation :: "nat \<Rightarrow> (demo_timer, demo_vars) event_loop \<Rightarrow> (demo_timer, demo_vars) event_loop" where
  "throttledOperation limit st =
     (if \<not> inThrottle (vars st) then
        (let st1 = st\<lparr>vars := (vars st)\<lparr>throttleCount := throttleCount (vars st) + 1, inThrottle := True\<rparr>\<rparr>
         in snd (setTimeout ResetThrottle limit st1))
      else st)"

definition expensiveOperation :: "(demo_timer, demo_vars) event_loop \<Rightarrow> (demo_timer, demo_vars) event_loop" where
  "expensiveOperation st = st\<lparr>vars := (vars st)\<lparr>directCount := directCount (vars st) + 1\<rparr>\<rparr>"

definition debouncedOperation :: "(demo_timer, demo_vars) event_loop \<Rightarrow> (demo_timer, demo_vars) event_loop" where
  "debouncedOperation = debounced (\<lambda>args. CallDebounced) 100 ()"

text \<open>The body of \<open>rapidCalls.forEach\<close>, and the loop over the fifty elements.\<close>

definition rapid_call :: "(demo_timer, demo_vars) event_loop \<Rightarrow> (demo_timer, demo_vars) event_loop" where
  "rapid_call st = throttledOperation 100 (debouncedOperation (expensiveOperation st))"

fun forEach :: "'x list \<Rightarrow> ('s \<Rightarrow> 's) \<Rightarrow> 's \<Rightarrow> 's" where
  "forEach [] f s = s"
| "forEach (x # xs) f s = forEach xs f (f s)"

definition demo_start :: "nat \<Rightarrow> (demo_timer, demo_vars) event_loop" where
  "demo_start now = \<lparr>clock = now, pending = [], next_timer = 0,
     vars = \<lparr>timeout = None, inThrottle = False, debounceCount = 0, throttleCount = 0,
             directCount = 0, resolved = False\<rparr>\<rparr>"

text \<open>
  The state in which the method resumes after
  \<open>await new Promise((resolve) => setTimeout(resolve, 150))\<close>: the fifty calls are made, the
  timer for \<open>resolve\<close> is set, and 150 ms pass.
\<close>

definition after_await :: "nat \<Rightarrow> (demo_timer, demo_vars) event_loop" where
  "after_await now =
     (let st = forEach [0 ..< 50] rapid_call (demo_start now);
          st' = snd (setTimeout Resolve 150 st)
      in advance fire_demo (clock st' + 150) st')"

text \<open>
  \<open>Math.round((1 - debounceCount / directCount) * 100)\<close>, computed on the rationals;
  \<open>Math.round\<close> rounds halves up. A zero \<open>directCount\<close> gives \<open>NaN\<close> or \<open>-Infinity\<close>.
\<close>

definition improvement :: "nat \<Rightarrow> nat \<Rightarrow> string" where
  "improvement dc direct =
     (if direct = 0 then (if dc = 0 then ''NaN'' else ''-Infinity'')
      else string_of_int \<lfloor>(1 - rat_of_nat dc / rat_of_nat direct) * 100 + 1 / 2\<rfloor>)"

text \<open>
  The string the method returns, or \<open>None\<close> if the awaited promise is never resolved. The
  first line starts with the emoji U+26A1.
\<close>

definition debouncingThrottling :: "nat \<Rightarrow> string option" where
  "debouncingThrottling now =
     (let s = vars (after_await now)
      in if resolved s then
           Some ([CHR 0xE2, CHR 0x9A, CHR 0xA1] @ '' Debouncing & Throttling:'' @ nl
                 @ ''Direct calls: '' @ string_of_int (int (directCount s)) @ nl
                 @ ''Debounced calls: '' @ string_of_int (int (debounceCount s)) @ nl
                 @ ''Throttled calls: '' @ string_of_int (int (throttleCount s)) @ nl
                 @ ''Performance improvement: '' @ improvement (debounceCount s) (directCount s) @ ''%'')
         else None)"

text \<open>
  The state of a lone debounced function in the middle of a burst: the clock stands at the
  time \<open>t\<close> of the latest call, the only pending timer is the one that call has set, due at
  \<open>t + wait\<close> with that call's arguments, and \<open>func\<close> has not run.
\<close>

definition waiting :: "nat \<Rightarrow> nat \<Rightarrow> 'a \<Rightarrow> 'w \<Rightarrow> ('a, ('a, 'w) single_vars) event_loop \<Rightarrow> bool" where
  "waiting wait t args w st =
     (clock st = t
      \<and> (\<exists>i. pending st = [(i, t + wait, args)] \<and> timeout (vars st) = Some i)
      \<and> runs (vars st) = []
      \<and> world (vars st) = w)"

section \<open>script.js and codeDisplay.js: the dashboard\<close>

text \<open>
  What a page element holds for this program: its content, as last assigned through
  \<open>innerHTML\<close> or \<open>textContent\<close>, and its class list.
\<close>

datatype content = InnerHTML string | TextContent string

record element =
  content :: content
  classList :: "string list"

text \<open>\<open>classList.add\<close> and \<open>classList.remove\<close>: a class is listed at most once.\<close>

definition classList_add :: "string \<Rightarrow> element \<Rightarrow> element" where
  "classList_add c el = (if c \<in> set (classList el) then el else el\<lparr>classList := classList el @ [c]\<rparr>)"

definition classList_remove :: "string \<Rightarrow> element \<Rightarrow> element" where
  "classList_remove c el = el\<lparr>classList := filter (\<lambda>x. x \<noteq> c) (classList el)\<rparr>"

text \<open>
  \<open>CodeDisplayManager\<close>: the element found under the id \<open>code-display\<close> when the manager
  was constructed (\<open>None\<close> for \<open>null\<close>) and \<open>currentCode\<close>. No other code reaches that
  element, so the manager holds it.
\<close>

record CodeDisplayManager =
  codeDisplay :: "element option"
  currentCode :: string

text \<open>
  \<open>show(code, feature)\<close>: nothing without the element; otherwise \<open>currentCode\<close> and
  \<open>textContent\<close> are set and \<open>highlightSyntax()\<close> replaces the content by the highlighted
  HTML. \<open>highlight\<close> stands for the chain of five \<open>String.replace\<close> calls with regular
  expressions in \<open>highlightSyntax\<close>; \<open>scrollIntoView\<close> changes nothing recorded here.
\<close>

definition "show" :: "(string \<Rightarrow> string) \<Rightarrow> string \<Rightarrow> CodeDisplayManager \<Rightarrow> CodeDisplayManager" where
  "show highlight code m =
     (case codeDisplay m of
        None \<Rightarrow> m
      | Some el \<Rightarrow>
          (let m1 = m\<lparr>currentCode := code, codeDisplay := Some (el\<lparr>content := TextContent code\<rparr>)\<rparr>
           in case codeDisplay m1 of
                None \<Rightarrow> m1
              | Some el1 \<Rightarrow> m1\<lparr>codeDisplay := Some (el1\<lparr>content := InnerHTML (highlight (currentCode m1))\<rparr>)\<rparr>))"

text \<open>
  What \<open>run()\<close> of a demo resolves to: the object \<open>{ output, code }\<close> (the field names
  carry a prefix here because \<open>output\<close> is a keyword of the theory language).
\<close>

record run_result =
  run_output :: string
  run_code :: string

text \<open>
  The dashboard: the map of demo instances (\<open>'d\<close>), the code display manager, the elements
  of the document by id, and what has been written with \<open>console.error\<close>: the first
  argument and the error.
\<close>

record 'd dashboard =
  demos :: "string \<rightharpoonup> 'd"
  codeDisplayManager :: CodeDisplayManager
  document :: "string \<rightharpoonup> element"
  console_error :: "(string \<times> js_error) list"

text \<open>The one timer of the dashboard: \<open>() => output.classList.remove("highlight")\<close>.\<close>

datatype dashboard_timer = RemoveHighlight string

fun fire_dashboard :: "nat \<Rightarrow> dashboard_timer \<Rightarrow> 'd dashboard \<Rightarrow> 'd dashboard" where
  "fire_dashboard t (RemoveHighlight i) s =
     (case document s i of
        None \<Rightarrow> s
      | Some el \<Rightarrow> s\<lparr>document := (document s)(i \<mapsto> classList_remove ''highlight'' el)\<rparr>)"

text \<open>
  \<open>handleError(action, error)\<close>: without the element \<open><action>-output\<close> the assignment to
  \<open>output.innerHTML\<close> throws and nothing is logged; with it, the element receives the
  error span and the error is logged. The result is what the method throws, if anything.
\<close>

definition handleError :: "string \<Rightarrow> js_error \<Rightarrow> (dashboard_timer, 'd dashboard) event_loop \<Rightarrow>
    js_error option \<times> (dashboard_timer, 'd dashboard) event_loop" where
  "handleError action error st =
     (case document (vars st) (action @ ''-output'') of
        None \<Rightarrow> (Some (TypeError ''Cannot set properties of null (setting 'innerHTML')''), st)
      | Some out \<Rightarrow>
          (None,
           st\<lparr>vars := (vars st)\<lparr>
             document := (document (vars st))(action @ ''-output'' \<mapsto>
               out\<lparr>content := InnerHTML (''<span class='' @ [CHR 0x22] @ ''error'' @ [CHR 0x22] @ ''>Error: ''
                                           @ message error @ ''</span>'')\<rparr>),
             console_error := console_error (vars st) @ [(''Demo '' @ action @ '' failed:'', error)]\<rparr>\<rparr>))"

text \<open>
  The \<open>try\<close> block of \<open>runDemo\<close> after \<open>demo.run()\<close> has resolved to \<open>result\<close>: the output
  element receives \<open>result.output\<close>, the code is shown, the element is highlighted and a
  timer is set to remove the highlight after 2000 ms. A missing element makes the first
  assignment throw.
\<close>

definition show_result :: "(string \<Rightarrow> string) \<Rightarrow> string \<Rightarrow> run_result \<Rightarrow>
    (dashboard_timer, 'd dashboard) event_loop \<Rightarrow> js_error + (dashboard_timer, 'd dashboard) event_loop" where
  "show_result highlight action res st =
     (case document (vars st) (action @ ''-output'') of
        None \<Rightarrow> Inl (TypeError ''Cannot set properties of null (setting 'innerHTML')'')
      | Some out \<Rightarrow>
          (let s = vars st;
               s1 = s\<lparr>document := (document s)(action @ ''-output'' \<mapsto> out\<lparr>content := InnerHTML (run_output res)\<rparr>)\<rparr>;
               s2 = s1\<lparr>codeDisplayManager := show highlight (run_code res) (codeDisplayManager s1)\<rparr>;
               s3 = (case document s2 (action @ ''-output'') of
                       None \<Rightarrow> s2
                     | Some out2 \<Rightarrow> s2\<lparr>document := (document s2)(action @ ''-output'' \<mapsto> classList_add ''highlight'' out2)\<rparr>)
           in Inr (snd (setTimeout (RemoveHighlight (action @ ''-output'')) 2000 (st\<lparr>vars := s3\<rparr>)))))"

text \<open>
  \<open>runDemo(action, demo)\<close>. \<open>run\<close> is the demo's \<open>run()\<close>: it throws or resolves, and leaves
  the instance in a new state. The time \<open>run()\<close> takes is not modelled. An error from
  \<open>run()\<close> or from showing the result goes to \<open>handleError\<close>. The result is the rejection
  of the returned promise (if any), the instance after the run, and the state.
\<close>

definition runDemo :: "('d \<Rightarrow> (js_error + run_result) \<times> 'd) \<Rightarrow> (string \<Rightarrow> string) \<Rightarrow> string \<Rightarrow> 'd \<Rightarrow>
    (dashboard_timer, 'd dashboard) event_loop \<Rightarrow>
    js_error option \<times> 'd \<times> (dashboard_timer, 'd dashboard) event_loop" where
  "runDemo run highlight action demo st =
     (case run demo of
        (Inl error, demo') \<Rightarrow>
          (case handleError action error st of (thrown, st') \<Rightarrow> (thrown, demo', st'))
      | (Inr res, demo') \<Rightarrow>
          (case show_result highlight action res st of
             Inl error \<Rightarrow> (case handleError action error st of (thrown, st') \<Rightarrow> (thrown, demo', st'))
           | Inr st' \<Rightarrow> (None, demo', st')))"

text \<open>The target of a click: its class list and its \<open>data-action\<close> attribute, if it has one.\<close>

record click_target =
  target_classList :: "string list"
  dataset_action :: "string option"

text \<open>
  \<open>handleDemoClick(event)\<close>. The promise \<open>runDemo\<close> returns is dropped. The instance the
  map holds is the object that \<open>run()\<close> acted on, so the map shows its new state.
\<close>

definition handleDemoClick :: "('d \<Rightarrow> (js_error + run_result) \<times> 'd) \<Rightarrow> (string \<Rightarrow> string) \<Rightarrow> click_target \<Rightarrow>
    (dashboard_timer, 'd dashboard) event_loop \<Rightarrow> (dashboard_timer, 'd dashboard) event_loop" where
  "handleDemoClick run highlight target st =
     (if \<not> ''demo-btn'' \<in> set (target_classList target) then st
      else
        (let action = dataset_action target;
             demo = (case action of None \<Rightarrow> None | Some a \<Rightarrow> demos (vars st) a)
         in case demo of
              None \<Rightarrow> st
            | Some d \<Rightarrow>
                (case runDemo run highlight (the action) d st of
                   (thrown, d', st') \<Rightarrow> st'\<lparr>vars := (vars st')\<lparr>demos := (demos (vars st'))(the action \<mapsto> d')\<rparr>\<rparr>)))"

section \<open>destructuring.js: the other methods and run\<close>

text \<open>
  \<open>arrayDestructuringWithDefaults()\<close>; the first line starts with the emoji U+1F4E6.
\<close>

definition arrayDestructuringWithDefaults :: "DestructuringDemo \<Rightarrow> js_error + string" where
  "arrayDestructuringWithDefaults this =
     thenE (member (sampleData this) ''products'') (\<lambda>products.
     thenE (elements products) (\<lambda>elems.
     (let first = nth_or_undefined elems 0;
          second = nth_or_undefined elems 1;
          third = nth_or_undefined elems 2;
          fourth = default_to (nth_or_undefined elems 3) (JObj [(''name'', JStr ''No more products''), (''price'', JNum 0)]) in
     thenE (member first ''name'') (\<lambda>firstName.
     thenE (member first ''price'') (\<lambda>firstPrice.
     thenE (member second ''name'') (\<lambda>secondName.
     thenE (member second ''price'') (\<lambda>secondPrice.
     thenE (member third ''name'') (\<lambda>thirdName.
     thenE (member third ''price'') (\<lambda>thirdPrice.
     thenE (member fourth ''name'') (\<lambda>fourthName.
     thenE (member fourth ''price'') (\<lambda>fourthPrice.
     Inr ([CHR 0xF0, CHR 0x9F, CHR 0x93, CHR 0xA6] @ '' Array Destructuring with Defaults:'' @ nl
          @ ''First Product: '' @ to_string firstName @ '' - $'' @ to_string firstPrice @ nl
          @ ''Second Product: '' @ to_string secondName @ '' - $'' @ to_string secondPrice @ nl
          @ ''Third Product: '' @ to_string thirdName @ '' - $'' @ to_string thirdPrice @ nl
          @ ''Fourth Product: '' @ to_string fourthName @ '' - $'' @ to_string fourthPrice))))))))))))"

text \<open>
  The arrow function \<open>processUser\<close> with its parameter pattern
  \<open>{ name, email, preferences: { theme = "light" } = {}, addresses = [] }\<close>.
\<close>

definition processUser :: "jsval \<Rightarrow> js_error + string" where
  "processUser user =
     thenE (member user ''name'') (\<lambda>name.
     thenE (member user ''email'') (\<lambda>email.
     thenE (member user ''preferences'') (\<lambda>p.
     (let preferences = default_to p (JObj []) in
     thenE (member preferences ''theme'') (\<lambda>t.
     (let theme = default_to t (JStr ''light'') in
     thenE (member user ''addresses'') (\<lambda>a.
     (let addresses = default_to a (JArr []) in
     thenE (member addresses ''length'') (\<lambda>addressCount.
     Inr (''Processing '' @ to_string name @ '' ('' @ to_string email @ '') with '' @ to_string theme
          @ '' theme and '' @ to_string addressCount @ '' addresses''))))))))))"

text \<open>\<open>functionParameterDestructuring()\<close>; the first line starts with the emoji U+1F527.\<close>

definition functionParameterDestructuring :: "DestructuringDemo \<Rightarrow> js_error + string" where
  "functionParameterDestructuring this =
     thenE (member (sampleData this) ''user'') (\<lambda>user.
     thenE (processUser user) (\<lambda>result.
     Inr ([CHR 0xF0, CHR 0x9F, CHR 0x94, CHR 0xA7] @ '' Function Parameter Destructuring:'' @ nl @ result)))"

text \<open>\<open>value?.[key]\<close>: \<open>undefined\<close> when \<open>value\<close> is \<open>undefined\<close> or \<open>null\<close>.\<close>

definition optional_member :: "jsval \<Rightarrow> string \<Rightarrow> jsval" where
  "optional_member v key =
     (if v = JUndefined \<or> v = JNull then JUndefined
      else case member v key of Inl e \<Rightarrow> JUndefined | Inr x \<Rightarrow> x)"

text \<open>
  \<open>extractProperties(obj, ...props)\<close>: for each dotted path the value reached from
  \<open>obj\<close>, collected in an object under the path as key.
\<close>

definition extractProperties :: "jsval \<Rightarrow> string list \<Rightarrow> jsval" where
  "extractProperties obj props =
     JObj (foldl (\<lambda>result prop.
                    let keys = split_on CHR ''.'' prop;
                        v = foldl optional_member obj keys
                    in set_property prop v result)
                 [] props)"

text \<open>\<open>dynamicPropertyExtraction()\<close>; the first line starts with the emoji U+1F3AA.\<close>

definition dynamicPropertyExtraction :: "DestructuringDemo \<Rightarrow> js_error + string" where
  "dynamicPropertyExtraction this =
     (let extracted = extractProperties (sampleData this)
                        [''user.name'', ''user.preferences.theme'', ''user.addresses.0.city'']
      in Inr ([CHR 0xF0, CHR 0x9F, CHR 0x8E, CHR 0xAA] @ '' Dynamic Property Extraction:'' @ nl
              @ JSON_pretty 0 extracted))"

text \<open>\<open>restPatternInDestructuring()\<close>; the first line starts with the emoji U+1F504.\<close>

definition restPatternInDestructuring :: "DestructuringDemo \<Rightarrow> js_error + string" where
  "restPatternInDestructuring this =
     thenE (member (sampleData this) ''products'') (\<lambda>products.
     thenE (elements products) (\<lambda>elems.
     (let firstProduct = nth_or_undefined elems 0;
          restProducts = drop 1 elems in
     thenE (member (sampleData this) ''user'') (\<lambda>user.
     thenE (member user ''name'') (\<lambda>name.
     thenE (member user ''email'') (\<lambda>email.
     (let otherUserData = filter (\<lambda>(k, v). k \<noteq> ''name'' \<and> k \<noteq> ''email'') (own_properties user) in
     thenE (member firstProduct ''name'') (\<lambda>firstName.
     Inr ([CHR 0xF0, CHR 0x9F, CHR 0x94, CHR 0x84] @ '' Rest Pattern in Destructuring:'' @ nl
          @ ''First Product: '' @ to_string firstName @ nl
          @ ''Remaining Products: '' @ string_of_int (int (length restProducts)) @ '' items'' @ nl
          @ ''User Core: '' @ to_string name @ '', '' @ to_string email @ nl
          @ ''Other User Data Keys: '' @ join '', '' (map fst otherUserData))))))))))"

text \<open>\<open>getSourceCode()\<close>: the template literal, with its escapes resolved.\<close>

definition Destructuring_getSourceCode :: string where
  "Destructuring_getSourceCode =
     nl
     @ ''// Advanced Destructuring Patterns'' @ nl
     @ nl
     @ ''// 1. Nested Object Destructuring with Defaults'' @ nl
     @ ''const {'' @ nl
     @ ''    user: {'' @ nl
     @ ''        name,'' @ nl
     @ ''        preferences: {'' @ nl
     @ ''            notifications: { email: emailNotif, push: pushNotif = true }'' @ nl
     @ ''        },'' @ nl
     @ ''        addresses: [homeAddress, workAddress = { city: 'Unknown' }]'' @ nl
     @ ''    }'' @ nl
     @ ''} = complexData;'' @ nl
     @ nl
     @ ''// 2. Function Parameter Destructuring'' @ nl
     @ ''const processUser = ({'' @ nl
     @ ''    name,'' @ nl
     @ ''    email,'' @ nl
     @ ''    preferences: { theme = 'light' } = {},'' @ nl
     @ ''    addresses = []'' @ nl
     @ ''}) => {'' @ nl
     @ ''    // Process user with destructured parameters'' @ nl
     @ ''};'' @ nl
     @ nl
     @ ''// 3. Dynamic Property Extraction'' @ nl
     @ ''const extractProperties = (obj, ...props) => {'' @ nl
     @ ''    return props.reduce((result, prop) => {'' @ nl
     @ ''        const keys = prop.split('.');'' @ nl
     @ ''        let value = obj;'' @ nl
     @ ''        for (const key of keys) {'' @ nl
     @ ''            value = value?.[key];'' @ nl
     @ ''        }'' @ nl
     @ ''        return { ...result, [prop]: value };'' @ nl
     @ ''    }, {});'' @ nl
     @ ''};'' @ nl
     @ nl
     @ ''// 4. Rest Pattern in Destructuring'' @ nl
     @ ''const [first, ...rest] = array;'' @ nl
     @ ''const { name, email, ...otherData } = user;'' @ nl
     @ ''        ''"

text \<open>
  \<open>run()\<close>: the five methods fill the array in order, the first one that throws rejects
  the promise. The methods read \<open>this.sampleData\<close> and assign nothing; the instance is
  returned as it was.
\<close>

definition Destructuring_run :: "DestructuringDemo \<Rightarrow> (js_error + run_result) \<times> DestructuringDemo" where
  "Destructuring_run this =
     (thenE (nestedObjectDestructuring this) (\<lambda>e1.
      thenE (arrayDestructuringWithDefaults this) (\<lambda>e2.
      thenE (functionParameterDestructuring this) (\<lambda>e3.
      thenE (dynamicPropertyExtraction this) (\<lambda>e4.
      thenE (restPatternInDestructuring this) (\<lambda>e5.
      Inr \<lparr>run_output = join (nl @ nl) [e1, e2, e3, e4, e5],
           run_code = Destructuring_getSourceCode\<rparr>))))),
      this)"

section \<open>spreadRest.js: SpreadRestDemo\<close>

record SpreadRestDemo =
  baseUser :: jsval
  permissions :: jsval
  additionalData :: jsval

definition new_SpreadRestDemo :: SpreadRestDemo where
  "new_SpreadRestDemo =
     \<lparr>baseUser = JObj [(''id'', JNum 1), (''name'', JStr ''John''), (''role'', JStr ''user'')],
      permissions = JArr [JStr ''read'', JStr ''write''],
      additionalData = JObj [(''lastLogin'', JStr ''2024-01-01''), (''isActive'', JBool True)]\<rparr>"

text \<open>
  \<open>objectComposition()\<close>; \<open>now\<close> is what \<open>new Date().toISOString()\<close> returns. The first
  line starts with the emoji U+1F3D7 U+FE0F.
\<close>

definition objectComposition :: "string \<Rightarrow> SpreadRestDemo \<Rightarrow> js_error + string" where
  "objectComposition now this =
     (let withBase = spread_into [] (baseUser this);
          withAdditional = spread_into withBase (additionalData this) in
     thenE (elements (permissions this)) (\<lambda>perms.
     (let enhancedUser = JObj (set_property ''metadata'' (JObj [(''createdAt'', JStr now), (''version'', JStr ''1.0'')]) (set_property ''permissions'' (JArr (perms @ [JStr ''admin''])) withAdditional)) in
     Inr ([CHR 0xF0, CHR 0x9F, CHR 0x8F, CHR 0x97, CHR 0xEF, CHR 0xB8, CHR 0x8F] @ '' Object Composition:'' @ nl
          @ JSON_pretty 0 enhancedUser))))"

text \<open>\<open>user.id\<close> where \<open>user\<close> is one of the object literals of \<open>immutableUpdates\<close>.\<close>

definition own_id :: "jsval \<Rightarrow> jsval" where
  "own_id user = (case member user ''id'' of Inl e \<Rightarrow> JUndefined | Inr v \<Rightarrow> v)"

text \<open>
  \<open>immutableUpdates()\<close>; \<open>date_now\<close> is what \<open>Date.now()\<close> returns. The first line starts
  with the emoji U+1F504.
\<close>

definition immutableUpdates :: "int \<Rightarrow> js_error + string" where
  "immutableUpdates date_now =
     (let users = [JObj [(''id'', JNum 1), (''name'', JStr ''John''), (''active'', JBool True)],
          JObj [(''id'', JNum 2), (''name'', JStr ''Jane''), (''active'', JBool False)],
          JObj [(''id'', JNum 3), (''name'', JStr ''Bob''), (''active'', JBool True)]];
          updatedUsers = map (\<lambda>user. if own_id user = JNum 2
          then JObj (set_property ''lastUpdated'' (JNum date_now) (set_property ''active'' (JBool True) (spread_into [] user)))
          else user) users;
          withNewUser = updatedUsers @ [JObj [(''id'', JNum 4), (''name'', JStr ''Alice''), (''active'', JBool True), (''isNew'', JBool True)]];
          found = (case List.find (\<lambda>u. own_id u = JNum 2) withNewUser of None \<Rightarrow> JUndefined | Some u \<Rightarrow> u) in
     thenE (member found ''active'') (\<lambda>janeActive.
     Inr ([CHR 0xF0, CHR 0x9F, CHR 0x94, CHR 0x84] @ '' Immutable Updates:'' @ nl
          @ ''Original Users: '' @ string_of_int (int (length users)) @ nl
          @ ''Updated Users: '' @ string_of_int (int (length updatedUsers)) @ nl
          @ ''With New User: '' @ string_of_int (int (length withNewUser)) @ nl
          @ ''Jane is now active: '' @ to_string janeActive)))"

text \<open>\<open>arrayMerging()\<close>; the first line starts with the emoji U+1F4DA.\<close>

definition arrayMerging :: string where
  "arrayMerging =
     (let frontend = [''React'', ''Vue'', ''Angular''];
          backend = [''Node.js'', ''Python'', ''Java''];
          databases = [''MongoDB'', ''PostgreSQL''];
          allTech = dedupe (frontend @ backend @ databases);
          isFullStack = True;
          techStack = take 1 frontend @ (if isFullStack then backend else []) @ databases
      in [CHR 0xF0, CHR 0x9F, CHR 0x93, CHR 0x9A] @ '' Array Merging & Manipulation:'' @ nl
         @ ''All Technologies: '' @ join '', '' allTech @ nl
         @ ''Tech Stack: '' @ join '', '' techStack @ nl
         @ ''Unique Count: '' @ string_of_int (int (length allTech)))"

text \<open>
  What \<open>calculateStats(operation, ...numbers)\<close> returns: a number, or the string
  \<open>Invalid operation\<close> for a name that is not in \<open>operations\<close>.
\<close>

datatype stat = Number jsnum | Text string

definition calculateStats :: "string \<Rightarrow> int list \<Rightarrow> stat" where
  "calculateStats operation numbers =
     (if operation = ''sum'' then Number (Finite (of_int (foldl (\<lambda>a b. a + b) 0 numbers)))
      else if operation = ''avg''
        then Number (js_divide (of_int (foldl (\<lambda>a b. a + b) 0 numbers)) (of_nat (length numbers)))
      else if operation = ''max''
        then Number (if numbers = [] then NegInfinity else Finite (of_int (Max (set numbers))))
      else if operation = ''min''
        then Number (if numbers = [] then PosInfinity else Finite (of_int (Min (set numbers))))
      else Text ''Invalid operation'')"

definition stat_to_string :: "stat \<Rightarrow> string" where
  "stat_to_string s = (case s of Number x \<Rightarrow> number_to_string x | Text t \<Rightarrow> t)"

text \<open>\<open>avg.toFixed(2)\<close>: a string has no \<open>toFixed\<close>.\<close>

definition stat_toFixed :: "nat \<Rightarrow> stat \<Rightarrow> js_error + string" where
  "stat_toFixed d s = (case s of
       Number x \<Rightarrow> Inr (toFixed d x)
     | Text t \<Rightarrow> Inl (TypeError ''avg.toFixed is not a function''))"

text \<open>\<open>functionArguments()\<close>; the first line starts with the emoji U+1F9EE.\<close>

definition functionArguments :: "js_error + string" where
  "functionArguments =
     (let numbers = [10, 25, 30, 15, 40];
          sum = calculateStats ''sum'' numbers;
          avg = calculateStats ''avg'' numbers;
          max = calculateStats ''max'' numbers in
     thenE (stat_toFixed 2 avg) (\<lambda>average.
     Inr ([CHR 0xF0, CHR 0x9F, CHR 0xA7, CHR 0xAE] @ '' Variadic Functions:'' @ nl
          @ ''Numbers: '' @ join '', '' (map string_of_int numbers) @ nl
          @ ''Sum: '' @ stat_to_string sum @ nl
          @ ''Average: '' @ average @ nl
          @ ''Maximum: '' @ stat_to_string max)))"

text \<open>
  \<open>createApiRequest(baseUrl, options = {})\<close>. A spread of \<open>false\<close> adds nothing;
  \<open>options.headers\<close> and \<open>options.cache\<close> are read from an object.
\<close>

definition createApiRequest :: "string \<Rightarrow> jsval option \<Rightarrow> js_error + jsval" where
  "createApiRequest baseUrl opts =
     (let options = (case opts of None \<Rightarrow> JObj [] | Some v \<Rightarrow> default_to v (JObj []));
          isProduction = False;
          hasAuth = True;
          r1 = spread_into [(''url'', JStr baseUrl), (''method'', JStr ''GET'')] options;
          r2 = (if isProduction then set_property ''timeout'' (JNum 5000) r1 else r1)
      in thenE (member options ''headers'') (\<lambda>headers.
           let r3 = (if hasAuth
                     then set_property ''headers''
                            (JObj (set_property ''Authorization'' (JStr ''Bearer token123'') (spread_into [] headers))) r2
                     else r2)
           in thenE (member options ''cache'') (\<lambda>cache_option.
                Inr (JObj (if cache_option \<noteq> JBool False then set_property ''cache'' (JStr ''default'') r3 else r3)))))"

text \<open>\<open>conditionalSpreading()\<close>; the first line starts with the emoji U+1F527.\<close>

definition conditionalSpreading :: "js_error + string" where
  "conditionalSpreading =
     thenE (createApiRequest ''/api/users''
              (Some (JObj [(''method'', JStr ''POST''),
                           (''headers'', JObj [(''Content-Type'', JStr ''application/json'')])])))
       (\<lambda>request.
          Inr ([CHR 0xF0, CHR 0x9F, CHR 0x94, CHR 0xA7] @ '' Conditional Spreading:'' @ nl
               @ JSON_pretty 0 request))"

text \<open>\<open>getSourceCode()\<close>: the template literal, with its escapes resolved.\<close>

definition SpreadRest_getSourceCode :: string where
  "SpreadRest_getSourceCode =
     nl
     @ ''// Advanced Spread & Rest Patterns'' @ nl
     @ nl
     @ ''// 1. Object Composition'' @ nl
     @ ''const enhancedUser = {'' @ nl
     @ ''    ...baseUser,'' @ nl
     @ ''    ...additionalData,'' @ nl
     @ ''    permissions: [...permissions, 'admin']'' @ nl
     @ ''};'' @ nl
     @ nl
     @ ''// 2. Immutable Updates'' @ nl
     @ ''const updatedUsers = users.map(user => '' @ nl
     @ ''    user.id === targetId '' @ nl
     @ ''        ? { ...user, active: true, lastUpdated: Date.now() }'' @ nl
     @ ''        : user'' @ nl
     @ '');'' @ nl
     @ nl
     @ ''// 3. Array Deduplication'' @ nl
     @ ''const uniqueItems = [...new Set([...array1, ...array2])];'' @ nl
     @ nl
     @ ''// 4. Variadic Functions'' @ nl
     @ ''const calculateStats = (operation, ...numbers) => {'' @ nl
     @ ''    return operations[operation]?.(numbers);'' @ nl
     @ ''};'' @ nl
     @ nl
     @ ''// 5. Conditional Spreading'' @ nl
     @ ''const config = {'' @ nl
     @ ''    ...baseConfig,'' @ nl
     @ ''    ...(isProduction && { timeout: 5000 }),'' @ nl
     @ ''    ...(hasAuth && { headers: { Authorization: token } })'' @ nl
     @ ''};'' @ nl
     @ ''        ''"

text \<open>
  What the clock yields during a run: \<open>new Date().toISOString()\<close> and \<open>Date.now()\<close>.
\<close>

record date_env =
  iso_now :: string
  epoch_now :: int

text \<open>
  \<open>run()\<close>. The methods read the three fields and build new arrays and objects from them;
  none assigns to a field or changes an object a field holds.
\<close>

definition SpreadRest_run :: "date_env \<Rightarrow> SpreadRestDemo \<Rightarrow> (js_error + run_result) \<times> SpreadRestDemo" where
  "SpreadRest_run env this =
     (thenE (objectComposition (iso_now env) this) (\<lambda>e1.
      thenE (immutableUpdates (epoch_now env)) (\<lambda>e2.
      thenE (Inr arrayMerging) (\<lambda>e3.
      thenE functionArguments (\<lambda>e4.
      thenE conditionalSpreading (\<lambda>e5.
      Inr \<lparr>run_output = join (nl @ nl) [e1, e2, e3, e4, e5],
           run_code = SpreadRest_getSourceCode\<rparr>))))),
      this)"

section \<open>arrowFunctions.js: ArrowFunctionDemo\<close>

record ArrowFunctionDemo =
  "context" :: jsval

definition new_ArrowFunctionDemo :: ArrowFunctionDemo where
  "new_ArrowFunctionDemo = \<lparr>context =
     JObj [(''name'', JStr ''Dashboard''), (''version'', JStr ''1.0''),
           (''features'', JArr [JStr ''destructuring'', JStr ''spread'', JStr ''arrows''])]\<rparr>"

subsection \<open>lexicalThisBinding\<close>

text \<open>
  The object \<open>eventManager\<close> (its fields \<open>name\<close> and \<open>events\<close>, prefixed here to keep
  them apart from the other records) and its three functions.
\<close>

record eventManager =
  manager_name :: string
  manager_events :: "string list"

definition addEvent :: "string \<Rightarrow> string" where
  "addEvent eventName =
       ''Adding event: '' @ eventName"

definition addEventRegular :: "string \<Rightarrow> eventManager \<Rightarrow> string \<times> eventManager" where
  "addEventRegular eventName this =
     (let this = this\<lparr>manager_events := manager_events this @ [eventName]\<rparr>
      in (manager_name this @ '' added: '' @ eventName, this))"

definition processEvents :: "eventManager \<Rightarrow> string list" where
  "processEvents this = map (\<lambda>event. manager_name this @ '': '' @ event) (manager_events this)"

text \<open>\<open>lexicalThisBinding()\<close>; the first line starts with the emoji U+1F3AF.\<close>

definition lexicalThisBinding :: string where
  "lexicalThisBinding =
     (let eventManager = \<lparr>manager_name = ''EventManager'', manager_events = []\<rparr>;
          eventManager = snd (addEventRegular ''click'' eventManager);
          eventManager = snd (addEventRegular ''scroll'' eventManager);
          processed = processEvents eventManager
      in [CHR 0xF0, CHR 0x9F, CHR 0x8E, CHR 0xAF] @ '' Lexical This Binding:'' @ nl
          @ ''Events processed: '' @ join '', '' processed @ nl
          @ ''Arrow functions preserve outer 'this' context!'')"

subsection \<open>higherOrderFunctions\<close>

definition createValidator :: "('a \<Rightarrow> bool) \<Rightarrow> 'a \<Rightarrow> bool" where
  "createValidator rule v = rule v"

text \<open>
  \<open>higherOrderFunctions()\<close>; \<open>n % 2 === 0\<close> on integers is \<open>n mod 2 = 0\<close>. The first line
  starts with the emoji U+1F527.
\<close>

definition higherOrderFunctions :: string where
  "higherOrderFunctions =
     (let data = [1, 2, 3, 4, 5, 6, 7, 8, 9, 10 :: int];
          pipeline = foldl (\<lambda>acc n. acc + n) 0 (map (\<lambda>n. n * n) (filter (\<lambda>n. n mod 2 = 0) data));
          isPositive = createValidator (\<lambda>n. n > 0);
          isEven = createValidator (\<lambda>n. n mod 2 = 0);
          validationResults = map (\<lambda>n. (n, isPositive n, isEven n)) (take 5 data)
      in [CHR 0xF0, CHR 0x9F, CHR 0x94, CHR 0xA7] @ '' Higher-Order Functions:'' @ nl
          @ ''Pipeline Result: '' @ string_of_int pipeline @ nl
          @ ''Validation Results:'' @ nl
          @ join nl (map (\<lambda>(v, positive, even). string_of_int v @ '': positive='' @ to_string (JBool positive) @ '', even='' @ to_string (JBool even)) validationResults))"

subsection \<open>functionalComposition\<close>

text \<open>\<open>compose(...fns)(value)\<close>: \<open>reduceRight\<close> applies the last function first.\<close>

definition compose :: "('a \<Rightarrow> 'a) list \<Rightarrow> 'a \<Rightarrow> 'a" where
  "compose fns v = foldr (\<lambda>fn acc. fn acc) fns v"

definition addTax :: "rat \<Rightarrow> rat" where
  "addTax price = price * (11 / 10)"

definition addShipping :: "rat \<Rightarrow> rat" where
  "addShipping price = price + 10"

definition applyDiscount :: "rat \<Rightarrow> rat \<Rightarrow> rat" where
  "applyDiscount discount price = price * (1 - discount)"

definition multiply :: "int \<Rightarrow> int \<Rightarrow> int" where
  "multiply x y = x * y"

text \<open>
  \<open>functionalComposition()\<close>, with the prices as rationals; the first line starts with the
  emoji U+1F3BC.
\<close>

definition functionalComposition :: string where
  "functionalComposition =
     (let calculateFinalPrice = compose [\<lambda>p. of_int \<lfloor>p + 1 / 2\<rfloor>, addShipping, addTax, applyDiscount (1 / 10)];
          originalPrice = 100;
          finalPrice = Finite (calculateFinalPrice originalPrice);
          double = multiply 2;
          triple = multiply 3
      in [CHR 0xF0, CHR 0x9F, CHR 0x8E, CHR 0xBC] @ '' Functional Composition:'' @ nl
          @ ''Original Price: $'' @ number_to_string (Finite originalPrice) @ nl
          @ ''Final Price: $'' @ number_to_string finalPrice @ nl
          @ ''Double 5: '' @ string_of_int (double 5) @ nl
          @ ''Triple 4: '' @ string_of_int (triple 4))"

subsection \<open>asyncArrowPatterns\<close>

text \<open>
  What a promise settles to. When it does is not modelled: the timers behind
  \<open>fetchData\<close> only delay the value.
\<close>

datatype 'a promise = Resolves 'a | Rejects js_error

definition fetchData :: "string \<Rightarrow> string" where
  "fetchData url =
       ''Data from '' @ url"

text \<open>
  \<open>asyncArrowPatterns()\<close>: an async method, so the call returns a promise. The first line
  of the string it resolves to starts with the emoji U+26A1.
\<close>

definition asyncArrowPatterns :: "string promise" where
  "asyncArrowPatterns =
     (let urls = [''/api/users'', ''/api/posts'', ''/api/comments''];
          results = map fetchData urls;
          processedResults = map (\<lambda>item. toUpperCase (fetchData item)) (take 2 urls)
      in Resolves ([CHR 0xE2, CHR 0x9A, CHR 0xA1] @ '' Async Arrow Patterns:'' @ nl
          @ ''Parallel Results: '' @ string_of_int (int (length results)) @ '' items fetched'' @ nl
          @ ''Sequential Results: '' @ join '', '' processedResults))"

subsection \<open>whenNotToUseArrows\<close>

text \<open>
  \<open>examples.objectMethod\<close> called with a bound \<open>this\<close>, and the object made by
  \<open>new examples.regularConstructor(name)\<close> with its \<open>getName\<close>.
\<close>

definition objectMethod :: "jsval \<Rightarrow> js_error + string" where
  "objectMethod this =
     thenE (member this ''name'') (\<lambda>name.
       Inr (''Object method with proper 'this': ''
       @ to_string (if truthy name then name else JStr ''undefined'')))"

record constructed =
  constructed_name :: string

definition regularConstructor :: "string \<Rightarrow> constructed" where
  "regularConstructor n = \<lparr>constructed_name = n\<rparr>"

definition getName :: "constructed \<Rightarrow> string" where
  "getName this = constructed_name this"

text \<open>
  \<open>whenNotToUseArrows()\<close>. The arrow function \<open>withArguments\<close> has no \<open>arguments\<close> of its
  own: it sees those of the method call, \<open>args\<close>, and ignores what it is passed. The first
  line starts with the emoji U+274C.
\<close>

definition whenNotToUseArrows :: "jsval list \<Rightarrow> js_error + string" where
  "whenNotToUseArrows args =
     (let obj = JObj [(''name'', JStr ''TestObject'')];
          constructor = regularConstructor ''TestName'';
          argsResult = join '', '' (map (\<lambda>x. if x = JUndefined \<or> x = JNull then [] else to_string x) args)
      in thenE (objectMethod obj) (\<lambda>boundMethod.
           Inr ([CHR 0xE2, CHR 0x9D, CHR 0x8C] @ '' When NOT to Use Arrows:'' @ nl
          @ ''Object Method: '' @ boundMethod @ nl
          @ ''Constructor Result: '' @ getName constructor @ nl
          @ ''Arguments Example: '' @ argsResult)))"

text \<open>\<open>getSourceCode()\<close>: the template literal, with its escapes resolved.\<close>

definition ArrowFunction_getSourceCode :: string where
  "ArrowFunction_getSourceCode =
     nl
     @ ''// Advanced Arrow Function Patterns'' @ nl
     @ nl
     @ ''// 1. Lexical This Binding'' @ nl
     @ ''const eventManager = {'' @ nl
     @ ''    events: [],'' @ nl
     @ ''    processEvents: function() {'' @ nl
     @ ''        // Arrow function preserves 'this' from outer scope'' @ nl
     @ ''        return this.events.map(event => '' @ [CHR 0x60] @ ''${this.name}: ${event}'' @ [CHR 0x60] @ '');'' @ nl
     @ ''    }'' @ nl
     @ ''};'' @ nl
     @ nl
     @ ''// 2. Higher-Order Functions'' @ nl
     @ ''const createValidator = (rule) => (value) => rule(value);'' @ nl
     @ ''const isPositive = createValidator(n => n > 0);'' @ nl
     @ nl
     @ ''// 3. Functional Composition'' @ nl
     @ ''const compose = (...fns) => (value) => '' @ nl
     @ ''    fns.reduceRight((acc, fn) => fn(acc), value);'' @ nl
     @ nl
     @ ''const pipeline = compose('' @ nl
     @ ''    Math.round,'' @ nl
     @ ''    addShipping,'' @ nl
     @ ''    addTax,'' @ nl
     @ ''    applyDiscount(0.1)'' @ nl
     @ '');'' @ nl
     @ nl
     @ ''// 4. Async Arrow Functions'' @ nl
     @ ''const fetchData = async (url) => {'' @ nl
     @ ''    const response = await fetch(url);'' @ nl
     @ ''    return response.json();'' @ nl
     @ ''};'' @ nl
     @ nl
     @ ''// 5. Curried Functions'' @ nl
     @ ''const multiply = x => y => x * y;'' @ nl
     @ ''const double = multiply(2);'' @ nl
     @ nl
     @ ''// When NOT to use arrows:'' @ nl
     @ ''// - Object methods needing 'this'' @ [CHR 0x27] @ nl
     @ ''// - Constructors'' @ nl
     @ ''// - When you need 'arguments' object'' @ nl
     @ ''        ''"

text \<open>
  \<open>run()\<close>. \<open>asyncArrowPatterns()\<close> is not awaited, so the array holds its promise, which
  \<open>join\<close> prints as \<open>[object Promise]\<close>. No method touches \<open>this.context\<close>.
\<close>

definition ArrowFunction_run :: "ArrowFunctionDemo \<Rightarrow> (js_error + run_result) \<times> ArrowFunctionDemo" where
  "ArrowFunction_run this =
     (thenE (Inr lexicalThisBinding) (\<lambda>e1.
      thenE (Inr higherOrderFunctions) (\<lambda>e2.
      thenE (Inr functionalComposition) (\<lambda>e3.
      thenE (Inr (case asyncArrowPatterns of Resolves s \<Rightarrow> ''[object Promise]'' | Rejects e \<Rightarrow> ''[object Promise]'')) (\<lambda>e4.
      thenE (whenNotToUseArrows []) (\<lambda>e5.
      Inr \<lparr>run_output = join (nl @ nl) [e1, e2, e3, e4, e5],
           run_code = ArrowFunction_getSourceCode\<rparr>))))),
      this)"

section \<open>performance.js: PerformanceDemo\<close>

subsection \<open>The store\<close>

text \<open>
  The demo copies an array of objects and sorts the copy in place, and it writes to the
  fields of pooled objects. So objects and arrays of objects live in a store, and a
  reference is an index into it: \<open>objects h ! a\<close> is the object at address \<open>a\<close>, and
  \<open>arrays h ! r\<close> holds the addresses of the elements of the array at \<open>r\<close>. Numbers, strings
  and the arrays of numbers the methods build are values.
\<close>

record heap =
  objects :: "user list"
  arrays :: "nat list list"

definition alloc_object :: "user \<Rightarrow> heap \<Rightarrow> nat \<times> heap" where
  "alloc_object obj h = (length (objects h), h\<lparr>objects := objects h @ [obj]\<rparr>)"

definition alloc_array :: "nat list \<Rightarrow> heap \<Rightarrow> nat \<times> heap" where
  "alloc_array elems h = (length (arrays h), h\<lparr>arrays := arrays h @ [elems]\<rparr>)"

text \<open>An assignment to fields of the object at \<open>obj\<close>.\<close>

definition assign :: "nat \<Rightarrow> (user \<Rightarrow> user) \<Rightarrow> heap \<Rightarrow> heap" where
  "assign obj f h = h\<lparr>objects := (objects h)[obj := f (objects h ! obj)]\<rparr>"

text \<open>The elements of the array at \<open>r\<close>, read through their references.\<close>

definition users_of :: "heap \<Rightarrow> nat \<Rightarrow> user list" where
  "users_of h r = map (\<lambda>a. objects h ! a) (arrays h ! r)"

subsection \<open>The constructor\<close>

text \<open>
  \<open>this.testData\<close> holds a reference to an array of 10000 new objects. \<open>random k\<close> is what
  the \<open>k\<close>-th call of \<open>Math.random()\<close> yields; element \<open>i\<close> takes the calls \<open>2 * i\<close>, for its
  score, and \<open>2 * i + 1\<close>.
\<close>

record PerformanceDemo =
  testData :: nat

definition new_PerformanceDemo :: "(nat \<Rightarrow> real) \<Rightarrow> heap \<Rightarrow> PerformanceDemo \<times> heap" where
  "new_PerformanceDemo random h =
     (let users = map (\<lambda>i. \<lparr>id = i, name = ''User '' @ string_of_int (int i),
                             score = random (2 * i) * 100, active = random (2 * i + 1) > 1 / 2\<rparr>)
                      [0 ..< 10000];
          h1 = h\<lparr>objects := objects h @ users\<rparr>;
          (r, h2) = alloc_array [length (objects h) ..< length (objects h) + 10000] h1
      in (\<lparr>testData = r\<rparr>, h2))"

subsection \<open>What the clocks yield\<close>

text \<open>
  \<open>started\<close> is the time in milliseconds at which \<open>debouncingThrottling\<close> is called. The
  other fields are the differences of two readings of \<open>performance.now()\<close> that the
  methods take, under the names the source gives them.
\<close>

record timings =
  started :: nat
  eagerTime :: rat
  lazyTime :: rat
  linearTime :: rat
  binaryTime :: rat
  hashTime :: rat
  sequentialTime :: rat
  parallelTime :: rat
  batchTime :: rat

subsection \<open>lazyEvaluation\<close>

text \<open>
  The \<open>for (const score of lazyMapped)\<close> loop over the generators: \<open>lazyFilter\<close> passes the
  active users on, \<open>lazyMap\<close> doubles their score, and the loop breaks at the sixth value.
\<close>

fun lazy_loop :: "user list \<Rightarrow> nat \<Rightarrow> real list \<Rightarrow> real list" where
  "lazy_loop [] count lazyResult = lazyResult"
| "lazy_loop (item # rest) count lazyResult =
     (if active item then
        (if count \<ge> 5 then lazyResult
         else lazy_loop rest (count + 1) (lazyResult @ [score item * 2]))
      else lazy_loop rest count lazyResult)"

text \<open>
  \<open>lazyEvaluation()\<close>. Two arrays of numbers have the same \<open>JSON.stringify\<close> exactly when
  they are equal. The first line starts with the emoji U+1F504.
\<close>

definition lazyEvaluation :: "timings \<Rightarrow> PerformanceDemo \<Rightarrow> heap \<Rightarrow> string" where
  "lazyEvaluation env this h =
     (let data = users_of h (testData this);
          eagerResult = take 5 (map (\<lambda>user. score user * 2) (filter (\<lambda>user. active user) data));
          lazyResult = lazy_loop data 0 []
      in [CHR 0xF0, CHR 0x9F, CHR 0x94, CHR 0x84] @ '' Lazy Evaluation:'' @ nl
         @ ''Eager time: '' @ toFixed 3 (Finite (eagerTime env)) @ ''ms'' @ nl
         @ ''Lazy time: '' @ toFixed 3 (Finite (lazyTime env)) @ ''ms'' @ nl
         @ ''Performance gain: ''
         @ number_to_string (Math_round (js_times (js_divide (eagerTime env - lazyTime env) (eagerTime env)) 100))
         @ ''%'' @ nl
         @ ''Results match: '' @ (if take 2 eagerResult = take 2 lazyResult then ''true'' else ''false''))"

subsection \<open>memoryOptimization\<close>

text \<open>
  The class \<open>ObjectPool\<close>, as it is instantiated: \<open>createFn\<close> makes a new blank object,
  \<open>resetFn\<close> assigns the four fields of the object it is given.
\<close>

record ObjectPool =
  pool :: "nat list"

definition createFn :: "heap \<Rightarrow> nat \<times> heap" where
  "createFn h = alloc_object \<lparr>id = 0, name = [], score = 0, active = False\<rparr> h"

definition resetFn :: "nat \<Rightarrow> heap \<Rightarrow> heap" where
  "resetFn obj h =
     assign obj (\<lambda>u. u\<lparr>active := False\<rparr>)
       (assign obj (\<lambda>u. u\<lparr>score := 0\<rparr>)
         (assign obj (\<lambda>u. u\<lparr>name := []\<rparr>)
           (assign obj (\<lambda>u. u\<lparr>id := 0\<rparr>) h)))"

text \<open>The loop of the constructor, with the number of objects still to make.\<close>

fun populate :: "nat \<Rightarrow> ObjectPool \<Rightarrow> heap \<Rightarrow> ObjectPool \<times> heap" where
  "populate 0 this h = (this, h)"
| "populate (Suc k) this h =
     (let (obj, h1) = createFn h
      in populate k (this\<lparr>pool := pool this @ [obj]\<rparr>) h1)"

definition new_ObjectPool :: "nat \<Rightarrow> heap \<Rightarrow> ObjectPool \<times> heap" where
  "new_ObjectPool initialSize h = populate initialSize \<lparr>pool = []\<rparr> h"

text \<open>\<open>acquire()\<close>: \<open>pop\<close> takes the last element of the pool.\<close>

definition acquire :: "ObjectPool \<Rightarrow> heap \<Rightarrow> nat \<times> ObjectPool \<times> heap" where
  "acquire this h =
     (if length (pool this) > 0 then (last (pool this), this\<lparr>pool := butlast (pool this)\<rparr>, h)
      else (let (obj, h1) = createFn h in (obj, this, h1)))"

definition release :: "nat \<Rightarrow> ObjectPool \<Rightarrow> heap \<Rightarrow> ObjectPool \<times> heap" where
  "release obj this h = (this\<lparr>pool := pool this @ [obj]\<rparr>, resetFn obj h)"

definition ObjectPool_size :: "ObjectPool \<Rightarrow> nat" where
  "ObjectPool_size this = length (pool this)"

text \<open>The loop \<open>for (let i = 0; i < 5; i++)\<close> over its values of \<open>i\<close>, and the \<open>forEach\<close> that releases.\<close>

fun acquire_loop :: "nat list \<Rightarrow> ObjectPool \<Rightarrow> nat list \<Rightarrow> heap \<Rightarrow> ObjectPool \<times> nat list \<times> heap" where
  "acquire_loop [] userPool pooledObjects h = (userPool, pooledObjects, h)"
| "acquire_loop (i # later) userPool pooledObjects h =
     (let (obj, userPool1, h1) = acquire userPool h;
          h2 = assign obj (\<lambda>u. u\<lparr>id := i\<rparr>) h1;
          h3 = assign obj (\<lambda>u. u\<lparr>name := ''Pooled User '' @ string_of_int (int i)\<rparr>) h2
      in acquire_loop later userPool1 (pooledObjects @ [obj]) h3)"

fun release_all :: "nat list \<Rightarrow> ObjectPool \<Rightarrow> heap \<Rightarrow> ObjectPool \<times> heap" where
  "release_all [] userPool h = (userPool, h)"
| "release_all (obj # later) userPool h =
     (let (userPool1, h1) = release obj userPool h
      in release_all later userPool1 h1)"

text \<open>
  \<open>memoryOptimization()\<close>. \<open>processUser\<close> and its \<open>WeakMap\<close> are defined and never called.
  The first line starts with the emoji U+1F4BE.
\<close>

definition memoryOptimization :: "PerformanceDemo \<Rightarrow> heap \<Rightarrow> string \<times> heap" where
  "memoryOptimization this h =
     (let (userPool, h1) = new_ObjectPool 10 h;
          (userPool1, pooledObjects, h2) = acquire_loop [0 ..< 5] userPool [] h1;
          (userPool2, h3) = release_all pooledObjects userPool1 h2
      in ([CHR 0xF0, CHR 0x9F, CHR 0x92, CHR 0xBE] @ '' Memory Optimization:'' @ nl
            @ ''Object Pool Size: '' @ string_of_int (int (ObjectPool_size userPool2)) @ nl
            @ ''WeakMap Cache: Automatic garbage collection'' @ nl
            @ ''Memory-efficient patterns implemented'' @ nl
            @ ''Pool reuse: '' @ string_of_int (int (length pooledObjects)) @ '' objects recycled'',
          h3))"

subsection \<open>algorithmOptimization\<close>

text \<open>
  \<open>sortedData.forEach\<close> filling \<open>scoreMap\<close>: the users under the floor of their score, in
  the order of the array.
\<close>

definition add_to_scoreMap :: "heap \<Rightarrow> (int \<rightharpoonup> nat list) \<Rightarrow> nat \<Rightarrow> (int \<rightharpoonup> nat list)" where
  "add_to_scoreMap h scoreMap a =
     (let scoreKey = \<lfloor>score (objects h ! a)\<rfloor>;
          bucket = (case scoreMap scoreKey of None \<Rightarrow> [] | Some users \<Rightarrow> users)
      in scoreMap(scoreKey \<mapsto> bucket @ [a]))"

text \<open>
  \<open>algorithmOptimization()\<close>. \<open>[...this.testData]\<close> is a new array with the same elements,
  and \<open>sort\<close> rearranges that array in place; the sort is stable. The three results are
  computed and not printed. The first line starts with the emoji U+1F680.
\<close>

definition algorithmOptimization :: "timings \<Rightarrow> PerformanceDemo \<Rightarrow> heap \<Rightarrow> (js_error + string) \<times> heap" where
  "algorithmOptimization env this h =
     (let (sortedData, h1) = alloc_array (arrays h ! testData this) h;
          h2 = h1\<lparr>arrays := (arrays h1)[sortedData :=
                   sort_key (\<lambda>a. score (objects h1 ! a)) (arrays h1 ! sortedData)]\<rparr>;
          targetScore = 50;
          linearResult = linearSearch (users_of h2 sortedData) targetScore
      in (thenE (binarySearch (users_of h2 sortedData) targetScore) (\<lambda>binaryResult.
            let scoreMap = foldl (add_to_scoreMap h2) Map.empty (arrays h2 ! sortedData);
                hashResult = (case scoreMap \<lfloor>targetScore\<rfloor> of
                                None \<Rightarrow> Undefined
                              | Some bucket \<Rightarrow> at_index bucket 0)
            in Inr ([CHR 0xF0, CHR 0x9F, CHR 0x9A, CHR 0x80] @ '' Algorithm Optimization:'' @ nl
                   @ ''Linear Search: '' @ toFixed 4 (Finite (linearTime env)) @ ''ms'' @ nl
                   @ ''Binary Search: '' @ toFixed 4 (Finite (binaryTime env)) @ ''ms'' @ nl
                   @ ''Hash Lookup: '' @ toFixed 4 (Finite (hashTime env)) @ ''ms'' @ nl
                   @ ''Binary vs Linear: ''
                   @ number_to_string (Math_round (js_divide (linearTime env) (binaryTime env))) @ ''x faster'' @ nl
                   @ ''Hash Map: '' @ number_to_string (Math_round (js_divide (linearTime env) (hashTime env)))
                   @ ''x faster'')),
          h2))"

subsection \<open>asyncOptimization\<close>

text \<open>
  The loop \<open>for (let i = 0; i < this.testData.length; i += batchSize)\<close> with \<open>batchSize\<close>
  100: each batch is a slice of the data, mapped to the doubled scores.
\<close>

function slice_batches :: "user list \<Rightarrow> nat \<Rightarrow> real list list \<Rightarrow> real list list" where
  "slice_batches data i batches =
     (if i < length data then
        slice_batches data (i + 100)
          (batches @ [map (\<lambda>user. score user * 2) (take 100 (drop i data))])
      else batches)"
  by pat_completeness auto
termination
  by (relation "measure (\<lambda>(data, i, batches). length data - i)") auto

declare slice_batches.simps [simp del]

text \<open>
  \<open>asyncOptimization()\<close>: an async method, so the call returns a promise; the timers only
  delay it. The first line of the string it resolves to starts with the emoji U+26A1.
\<close>

definition asyncOptimization :: "timings \<Rightarrow> PerformanceDemo \<Rightarrow> heap \<Rightarrow> string promise" where
  "asyncOptimization env this h =
     (let batches = slice_batches (users_of h (testData this)) 0 []
      in Resolves ([CHR 0xE2, CHR 0x9A, CHR 0xA1] @ '' Async Optimization:'' @ nl
                   @ ''Sequential: '' @ toFixed 2 (Finite (sequentialTime env)) @ ''ms'' @ nl
                   @ ''Parallel: '' @ toFixed 2 (Finite (parallelTime env)) @ ''ms'' @ nl
                   @ ''Batch Processing: '' @ toFixed 2 (Finite (batchTime env)) @ ''ms'' @ nl
                   @ ''Parallel speedup: ''
                   @ number_to_string (Math_round (js_divide (sequentialTime env) (parallelTime env))) @ ''x faster''
                   @ nl
                   @ ''Batches processed: '' @ string_of_int (int (length batches))))"

subsection \<open>run\<close>

text \<open>\<open>getSourceCode()\<close>: the template literal, with its escapes resolved.\<close>

definition Performance_getSourceCode :: string where
  "Performance_getSourceCode =
     nl
     @ ''// Performance Optimization Patterns'' @ nl
     @ nl
     @ ''// 1. Debouncing & Throttling'' @ nl
     @ ''const debounce = (func, wait) => {'' @ nl
     @ ''    let timeout;'' @ nl
     @ ''    return (...args) => {'' @ nl
     @ ''        clearTimeout(timeout);'' @ nl
     @ ''        timeout = setTimeout(() => func.apply(this, args), wait);'' @ nl
     @ ''    };'' @ nl
     @ ''};'' @ nl
     @ nl
     @ ''const throttle = (func, limit) => {'' @ nl
     @ ''    let inThrottle;'' @ nl
     @ ''    return (...args) => {'' @ nl
     @ ''        if (!inThrottle) {'' @ nl
     @ ''            func.apply(this, args);'' @ nl
     @ ''            inThrottle = true;'' @ nl
     @ ''            setTimeout(() => inThrottle = false, limit);'' @ nl
     @ ''        }'' @ nl
     @ ''    };'' @ nl
     @ ''};'' @ nl
     @ nl
     @ ''// 2. Lazy Evaluation'' @ nl
     @ ''function* lazyMap(iterable, mapper) {'' @ nl
     @ ''    for (const item of iterable) {'' @ nl
     @ ''        yield mapper(item);'' @ nl
     @ ''    }'' @ nl
     @ ''}'' @ nl
     @ nl
     @ ''function* lazyFilter(iterable, predicate) {'' @ nl
     @ ''    for (const item of iterable) {'' @ nl
     @ ''        if (predicate(item)) yield item;'' @ nl
     @ ''    }'' @ nl
     @ ''}'' @ nl
     @ nl
     @ ''// 3. Object Pooling'' @ nl
     @ ''class ObjectPool {'' @ nl
     @ ''    constructor(createFn, resetFn, initialSize = 10) {'' @ nl
     @ ''        this.createFn = createFn;'' @ nl
     @ ''        this.resetFn = resetFn;'' @ nl
     @ ''        this.pool = [];'' @ nl
     @ ''        for (let i = 0; i < initialSize; i++) {'' @ nl
     @ ''            this.pool.push(this.createFn());'' @ nl
     @ ''        }'' @ nl
     @ ''    }'' @ nl
     @ ''    '' @ nl
     @ ''    acquire() {'' @ nl
     @ ''        return this.pool.length > 0 ? this.pool.pop() : this.createFn();'' @ nl
     @ ''    }'' @ nl
     @ ''    '' @ nl
     @ ''    release(obj) {'' @ nl
     @ ''        this.resetFn(obj);'' @ nl
     @ ''        this.pool.push(obj);'' @ nl
     @ ''    }'' @ nl
     @ ''}'' @ nl
     @ nl
     @ ''// 4. Binary Search Optimization'' @ nl
     @ ''const binarySearch = (arr, target) => {'' @ nl
     @ ''    let left = 0, right = arr.length - 1;'' @ nl
     @ ''    while (left <= right) {'' @ nl
     @ ''        const mid = Math.floor((left + right) / 2);'' @ nl
     @ ''        if (arr[mid] === target) return mid;'' @ nl
     @ ''        arr[mid] < target ? left = mid + 1 : right = mid - 1;'' @ nl
     @ ''    }'' @ nl
     @ ''    return -1;'' @ nl
     @ ''};'' @ nl
     @ nl
     @ ''// 5. Parallel Async Processing'' @ nl
     @ ''const results = await Promise.all(['' @ nl
     @ ''    asyncOperation1(),'' @ nl
     @ ''    asyncOperation2(),'' @ nl
     @ ''    asyncOperation3()'' @ nl
     @ '']);'' @ nl
     @ ''        ''"

text \<open>
  \<open>run()\<close>. The value is \<open>None\<close> if the promise of \<open>debouncingThrottling\<close> that the method
  awaits first is never resolved. The promise of \<open>asyncOptimization\<close> is not awaited: it is
  the promise that is joined into the output, as \<open>[object Promise]\<close>.
\<close>

definition Performance_run :: "timings \<Rightarrow> PerformanceDemo \<Rightarrow> heap \<Rightarrow> (js_error + run_result) option \<times> PerformanceDemo \<times> heap" where
  "Performance_run env this h =
     (case debouncingThrottling (started env) of
        None \<Rightarrow> (None, this, h)
      | Some e1 \<Rightarrow>
          (let e2 = lazyEvaluation env this h;
               (e3, h3) = memoryOptimization this h;
               (r4, h4) = algorithmOptimization env this h3;
               e5 = (case asyncOptimization env this h4 of
                       Resolves text \<Rightarrow> ''[object Promise]''
                     | Rejects e \<Rightarrow> ''[object Promise]'')
           in (Some (thenE r4 (\<lambda>e4.
                 Inr \<lparr>run_output = join (nl @ nl) [e1, e2, e3, e4, e5],
                      run_code = Performance_getSourceCode\<rparr>)),
               this, h4)))"

text \<open>
  A store with three users and an instance whose \<open>testData\<close> refers to them, for running
  the methods on concrete data.
\<close>

definition sample_heap :: heap where
  "sample_heap =
     \<lparr>objects = [\<lparr>id = 0, name = ''User 0'', score = 93, active = True\<rparr>,
                 \<lparr>id = 1, name = ''User 1'', score = 12, active = False\<rparr>,
                 \<lparr>id = 2, name = ''User 2'', score = 50, active = True\<rparr>],
      arrays = [[0, 1, 2]]\<rparr>"

definition sample_timings :: timings where
  "sample_timings =
     \<lparr>started = 0, eagerTime = 3 / 2, lazyTime = 1 / 10, linearTime = 1 / 5, binaryTime = 1 / 100,
      hashTime = 37 / 10, sequentialTime = 1523 / 10, parallelTime = 509 / 10, batchTime = 3 / 10\<rparr>"

section \<open>advancedPatterns.js: the remaining patterns and run\<close>

subsection \<open>closuresAndPrivacy\<close>

text \<open>The variables \<open>count\<close> and \<open>history\<close> that the functions of one counter close over.\<close>

record counter =
  initialValue :: int
  count :: int
  history :: "string list"

text \<open>\<open>createCounter(initialValue = 0)\<close>; \<open>None\<close> is an omitted argument.\<close>

definition createCounter :: "int option \<Rightarrow> counter" where
  "createCounter iv =
     (let initialValue = (case iv of None \<Rightarrow> 0 | Some v \<Rightarrow> v)
      in \<lparr>initialValue = initialValue, count = initialValue, history = []\<rparr>)"

definition increment :: "int option \<Rightarrow> counter \<Rightarrow> int \<times> counter" where
  "increment s c =
     (let step = (case s of None \<Rightarrow> 1 | Some v \<Rightarrow> v);
          c' = c\<lparr>count := count c + step, history := history c @ [''+'' @ string_of_int step]\<rparr>
      in (count c', c'))"

definition decrement :: "int option \<Rightarrow> counter \<Rightarrow> int \<times> counter" where
  "decrement s c =
     (let step = (case s of None \<Rightarrow> 1 | Some v \<Rightarrow> v);
          c' = c\<lparr>count := count c - step, history := history c @ [''-'' @ string_of_int step]\<rparr>
      in (count c', c'))"

definition getValue :: "counter \<Rightarrow> int" where
  "getValue c = count c"

definition getHistory :: "counter \<Rightarrow> string list" where
  "getHistory c = history c"

definition reset :: "counter \<Rightarrow> int \<times> counter" where
  "reset c = (initialValue c, c\<lparr>count := initialValue c, history := []\<rparr>)"

text \<open>\<open>closuresAndPrivacy()\<close>; the first line starts with the emoji U+1F512.\<close>

definition closuresAndPrivacy :: string where
  "closuresAndPrivacy =
     (let counter = createCounter (Some 10);
          counter = snd (increment (Some 5) counter);
          counter = snd (decrement (Some 2) counter);
          counter = snd (increment (Some 3) counter)
      in [CHR 0xF0, CHR 0x9F, CHR 0x94, CHR 0x92] @ '' Closures & Privacy:'' @ nl
         @ ''Current Value: '' @ string_of_int (getValue counter) @ nl
         @ ''History: '' @ join '', '' (getHistory counter) @ nl
         @ ''Private state is completely encapsulated!'')"

subsection \<open>modulePattern\<close>

text \<open>
  \<open>v.includes(x)\<close> (\<open>includes\<close> is a keyword of the theory language) for a string \<open>x\<close>: on a string the substring test, on an array the
  membership test; reading \<open>includes\<close> of \<open>undefined\<close> or \<open>null\<close> throws, and on the other
  values \<open>includes\<close> is \<open>undefined\<close>, so the call throws.
\<close>

definition js_includes :: "jsval \<Rightarrow> string \<Rightarrow> js_error + bool" where
  "js_includes v x = (case v of
       JStr s \<Rightarrow> Inr (is_substring x s)
     | JArr xs \<Rightarrow> Inr (JStr x \<in> set xs)
     | JUndefined \<Rightarrow> Inl (TypeError ''Cannot read properties of undefined (reading 'includes')'')
     | JNull \<Rightarrow> Inl (TypeError ''Cannot read properties of null (reading 'includes')'')
     | _ \<Rightarrow> Inl (TypeError ''includes is not a function''))"

text \<open>The private variables of \<open>UserModule\<close>.\<close>

record UserModule =
  users :: "jsval list"
  currentId :: int

text \<open>
  \<open>validateUser(user)\<close>: \<open>user.name && user.email && user.email.includes("@")\<close>.
\<close>

definition validateUser :: "jsval \<Rightarrow> js_error + jsval" where
  "validateUser user =
     thenE (member user ''name'') (\<lambda>name.
       if \<not> truthy name then Inr name
       else thenE (member user ''email'') (\<lambda>email.
         if \<not> truthy email then Inr email
         else thenE (member user ''email'') (\<lambda>email2.
           thenE (js_includes email2 ''@'') (\<lambda>b. Inr (JBool b)))))"

text \<open>
  \<open>create(userData)\<close>; \<open>now\<close> is what \<open>new Date().toISOString()\<close> returns at the call.
\<close>

definition create :: "string \<Rightarrow> jsval \<Rightarrow> UserModule \<Rightarrow> (js_error + jsval) \<times> UserModule" where
  "create now userData m =
     (case validateUser userData of
        Inl e \<Rightarrow> (Inl e, m)
      | Inr valid \<Rightarrow>
          if \<not> truthy valid then (Inl (Error ''Invalid user data''), m)
          else
            (let newId = currentId m;
                 m1 = m\<lparr>currentId := currentId m + 1\<rparr>;
                 user = JObj (set_property ''createdAt'' (JStr now)
                                (spread_into [(''id'', JNum newId)] userData))
             in (Inr user, m1\<lparr>users := users m1 @ [user]\<rparr>)))"

text \<open>\<open>modulePattern()\<close>; the first line starts with the emoji U+1F3D7 U+FE0F.\<close>

definition modulePattern :: "string \<Rightarrow> js_error + string" where
  "modulePattern now =
     (let m0 = \<lparr>users = [], currentId = 1\<rparr> in
      case create now (JObj [(''name'', JStr ''John''), (''email'', JStr ''john@example.com'')]) m0 of
        (Inl e, m1) \<Rightarrow> Inl e
      | (Inr user1, m1) \<Rightarrow>
     (case create now (JObj [(''name'', JStr ''Jane''), (''email'', JStr ''jane@example.com'')]) m1 of
        (Inl e, m2) \<Rightarrow> Inl e
      | (Inr user2, m2) \<Rightarrow>
          thenE (member user1 ''name'') (\<lambda>name1.
          thenE (member user1 ''id'') (\<lambda>id1.
          thenE (member user2 ''name'') (\<lambda>name2.
          thenE (member user2 ''id'') (\<lambda>id2.
          Inr ([CHR 0xF0, CHR 0x9F, CHR 0x8F, CHR 0x97, CHR 0xEF, CHR 0xB8, CHR 0x8F] @ '' Module Pattern:'' @ nl
               @ ''Created Users: '' @ string_of_int (int (length (users m2))) @ nl
               @ ''User 1: '' @ to_string name1 @ '' (ID: '' @ to_string id1 @ '')'' @ nl
               @ ''User 2: '' @ to_string name2 @ '' (ID: '' @ to_string id2 @ '')'' @ nl
               @ ''Private state is completely encapsulated!'')))))))"

subsection \<open>proxyPattern\<close>

text \<open>
  The number a value converts to in a comparison, \<open>None\<close> for \<open>NaN\<close>. Of the strings only
  the empty one and plain runs of decimal digits are converted; the others count as
  \<open>NaN\<close> here.
\<close>

fun to_number :: "jsval \<Rightarrow> int option" where
  "to_number JUndefined = None"
| "to_number JNull = Some 0"
| "to_number (JBool b) = Some (if b then 1 else 0)"
| "to_number (JNum n) = Some n"
| "to_number (JStr s) = map_option int (digits_value s 0)"
| "to_number (JArr xs) = None"
| "to_number (JObj ps) = None"

text \<open>\<open>v < n\<close> and \<open>v > n\<close> against a number: false when \<open>v\<close> converts to \<open>NaN\<close>.\<close>

definition less_than :: "jsval \<Rightarrow> int \<Rightarrow> bool" where
  "less_than v n = (case to_number v of None \<Rightarrow> False | Some x \<Rightarrow> x < n)"

definition greater_than :: "jsval \<Rightarrow> int \<Rightarrow> bool" where
  "greater_than v n = (case to_number v of None \<Rightarrow> False | Some x \<Rightarrow> x > n)"

text \<open>
  What the closure returned by \<open>createSmartObject\<close> holds: the target object and the
  private array \<open>accessLog\<close>.
\<close>

record smart_object =
  target :: "(string \<times> jsval) list"
  accessLog :: "string list"

definition createSmartObject :: "(string \<times> jsval) list option \<Rightarrow> smart_object" where
  "createSmartObject t = \<lparr>target = (case t of None \<Rightarrow> [] | Some ps \<Rightarrow> ps), accessLog = []\<rparr>"

text \<open>\<open>obj[prop]\<close> on the target: an own property or \<open>undefined\<close>.\<close>

definition own :: "(string \<times> jsval) list \<Rightarrow> string \<Rightarrow> jsval" where
  "own ps prop = (case map_of ps prop of Some v \<Rightarrow> v | None \<Rightarrow> JUndefined)"

text \<open>
  What the \<open>get\<close> trap returns: a value, or the arrow function
  \<open>() => obj[property] !== undefined\<close> for a property name.
\<close>

datatype got = Value jsval | IsDefined string

text \<open>
  The \<open>get\<close> trap. Nothing in it refers to \<open>accessLog\<close> as a property: for
  \<open>prop = "accessLog"\<close> it returns \<open>obj["accessLog"]\<close> like for any other name.
\<close>

definition proxy_get :: "string \<Rightarrow> smart_object \<Rightarrow> got \<times> smart_object" where
  "proxy_get prop st =
     (let st1 = st\<lparr>accessLog := accessLog st @ [''GET: '' @ prop]\<rparr>
      in if take 2 prop = ''is'' \<and> length prop > 2
         then (IsDefined (toLowerCase (drop 2 prop)), st1)
         else (Value (own (target st1) prop), st1))"

text \<open>The \<open>set\<close> trap, with its two validations.\<close>

definition proxy_set :: "string \<Rightarrow> jsval \<Rightarrow> smart_object \<Rightarrow> (js_error + bool) \<times> smart_object" where
  "proxy_set prop v st =
     (let st1 = st\<lparr>accessLog := accessLog st @ [''SET: '' @ prop @ '' = '' @ to_string v]\<rparr>
      in if prop = ''age'' \<and> (less_than v 0 \<or> greater_than v 150)
         then (Inl (Error ''Invalid age value''), st1)
         else
           (case (if prop = ''email'' then js_includes v ''@'' else Inr True) of
              Inl e \<Rightarrow> (Inl e, st1)
            | Inr has_at \<Rightarrow>
                if prop = ''email'' \<and> \<not> has_at
                then (Inl (Error ''Invalid email format''), st1)
                else (Inr True, st1\<lparr>target := set_property prop v (target st1)\<rparr>)))"

text \<open>The \<open>has\<close> trap: \<open>prop in obj\<close> for an own property.\<close>

definition proxy_has :: "string \<Rightarrow> smart_object \<Rightarrow> bool \<times> smart_object" where
  "proxy_has prop st =
     (let st1 = st\<lparr>accessLog := accessLog st @ [''HAS: '' @ prop]\<rparr>
      in (prop \<in> fst ` set (target st1), st1))"

text \<open>
  Calling what \<open>get\<close> returned, as in \<open>smartUser.isName()\<close>: the arrow function reads the
  target; a value that is not a function cannot be called.
\<close>

definition call_got :: "string \<Rightarrow> got \<Rightarrow> smart_object \<Rightarrow> js_error + jsval" where
  "call_got prop g st = (case g of
       IsDefined property \<Rightarrow> Inr (JBool (own (target st) property \<noteq> JUndefined))
     | Value v \<Rightarrow> Inl (TypeError (''smartUser.'' @ prop @ '' is not a function'')))"

text \<open>
  \<open>log.slice(-3).join(", ")\<close> and \<open>log.length\<close> on what \<open>smartUser.accessLog\<close> yielded.
  \<open>slice\<close> exists on arrays and strings; on \<open>undefined\<close> the read of \<open>slice\<close> throws.
\<close>

definition slice_last3_join :: "got \<Rightarrow> js_error + string" where
  "slice_last3_join g = (case g of
       Value JUndefined \<Rightarrow> Inl (TypeError ''Cannot read properties of undefined (reading 'slice')'')
     | Value JNull \<Rightarrow> Inl (TypeError ''Cannot read properties of null (reading 'slice')'')
     | Value (JArr xs) \<Rightarrow> Inr (join '', '' (map (\<lambda>x. if x = JUndefined \<or> x = JNull then [] else to_string x)
                                               (drop (length xs - 3) xs)))
     | Value (JStr s) \<Rightarrow> Inl (TypeError ''log.slice(...).join is not a function'')
     | _ \<Rightarrow> Inl (TypeError ''log.slice is not a function''))"

definition length_of :: "got \<Rightarrow> js_error + jsval" where
  "length_of g = (case g of Value v \<Rightarrow> member v ''length'' | IsDefined p \<Rightarrow> Inr (JNum 0))"

definition got_to_string :: "got \<Rightarrow> string" where
  "got_to_string g = (case g of Value v \<Rightarrow> to_string v | IsDefined p \<Rightarrow> ''() => obj[property] !== undefined'')"

text \<open>
  \<open>proxyPattern()\<close>: three assignments through the \<open>set\<close> trap, \<open>"name" in smartUser\<close>,
  \<open>smartUser.isName()\<close>, \<open>smartUser.accessLog\<close>, and the template literal, whose
  substitutions are evaluated from left to right. The first line starts with the emoji
  U+1F3AD.
\<close>

definition proxyPattern :: "js_error + string" where
  "proxyPattern =
     (let smartUser = createSmartObject None in
      case proxy_set ''name'' (JStr ''John'') smartUser of
        (Inl e, smartUser) \<Rightarrow> Inl e
      | (Inr ok, smartUser) \<Rightarrow>
     (case proxy_set ''age'' (JNum 30) smartUser of
        (Inl e, smartUser) \<Rightarrow> Inl e
      | (Inr ok, smartUser) \<Rightarrow>
     (case proxy_set ''email'' (JStr ''john@example.com'') smartUser of
        (Inl e, smartUser) \<Rightarrow> Inl e
      | (Inr ok, smartUser) \<Rightarrow>
     (case proxy_has ''name'' smartUser of (hasName, smartUser) \<Rightarrow>
     (case proxy_get ''isName'' smartUser of (isNameFn, smartUser) \<Rightarrow>
        thenE (call_got ''isName'' isNameFn smartUser) (\<lambda>isName.
     (case proxy_get ''accessLog'' smartUser of (log', smartUser) \<Rightarrow>
     (case proxy_get ''name'' smartUser of (userName, smartUser) \<Rightarrow>
        thenE (slice_last3_join log') (\<lambda>lastThree.
        thenE (length_of log') (\<lambda>total.
        Inr ([CHR 0xF0, CHR 0x9F, CHR 0x8E, CHR 0xAD] @ '' Proxy Pattern:'' @ nl
             @ ''User Name: '' @ got_to_string userName @ nl
             @ ''Has Name: '' @ to_string (JBool hasName) @ nl
             @ ''Is Name (dynamic): '' @ to_string isName @ nl
             @ ''Access Log: '' @ lastThree @ nl
             @ ''Total Operations: '' @ to_string total)))))))))))"

subsection \<open>run\<close>

text \<open>The fields the constructor sets: \<open>this.cache = new Map()\<close> and \<open>this.observers = []\<close>.\<close>

record AdvancedPatternsDemo =
  cache :: "(jsval \<times> jsval) list"
  observers :: "jsval list"

definition new_AdvancedPatternsDemo :: AdvancedPatternsDemo where
  "new_AdvancedPatternsDemo = \<lparr>cache = [], observers = []\<rparr>"

text \<open>\<open>getSourceCode()\<close>: the template literal, with its escapes resolved.\<close>

definition AdvancedPatterns_getSourceCode :: string where
  "AdvancedPatterns_getSourceCode =
     nl
     @ ''// Advanced JavaScript Patterns'' @ nl
     @ nl
     @ ''// 1. Closures for Privacy'' @ nl
     @ ''const createCounter = (initialValue = 0) => {'' @ nl
     @ ''    let count = initialValue; // Private variable'' @ nl
     @ ''    let history = [];'' @ nl
     @ ''    '' @ nl
     @ ''    return {'' @ nl
     @ ''        increment: (step = 1) => {'' @ nl
     @ ''            count += step;'' @ nl
     @ ''            history.push('' @ [CHR 0x60] @ ''+${step}'' @ [CHR 0x60] @ '');'' @ nl
     @ ''            return count;'' @ nl
     @ ''        },'' @ nl
     @ ''        getValue: () => count,'' @ nl
     @ ''        getHistory: () => [...history] // Return copy'' @ nl
     @ ''    };'' @ nl
     @ ''};'' @ nl
     @ nl
     @ ''// 2. Memoization Pattern'' @ nl
     @ ''const memoize = (fn, keyGenerator = (...args) => JSON.stringify(args)) => {'' @ nl
     @ ''    const cache = new Map();'' @ nl
     @ ''    return (...args) => {'' @ nl
     @ ''        const key = keyGenerator(...args);'' @ nl
     @ ''        if (cache.has(key)) return cache.get(key);'' @ nl
     @ ''        const result = fn(...args);'' @ nl
     @ ''        cache.set(key, result);'' @ nl
     @ ''        return result;'' @ nl
     @ ''    };'' @ nl
     @ ''};'' @ nl
     @ nl
     @ ''// 3. Observer Pattern'' @ nl
     @ ''class EventEmitter {'' @ nl
     @ ''    constructor() { this.events = new Map(); }'' @ nl
     @ ''    '' @ nl
     @ ''    on(event, callback) {'' @ nl
     @ ''        if (!this.events.has(event)) this.events.set(event, []);'' @ nl
     @ ''        this.events.get(event).push(callback);'' @ nl
     @ ''    }'' @ nl
     @ ''    '' @ nl
     @ ''    emit(event, data) {'' @ nl
     @ ''        const callbacks = this.events.get(event) || [];'' @ nl
     @ ''        callbacks.forEach(callback => callback(data));'' @ nl
     @ ''    }'' @ nl
     @ ''}'' @ nl
     @ nl
     @ ''// 4. Module Pattern'' @ nl
     @ ''const UserModule = (() => {'' @ nl
     @ ''    let users = []; // Private'' @ nl
     @ ''    '' @ nl
     @ ''    return {'' @ nl
     @ ''        create(userData) { /* public method */ },'' @ nl
     @ ''        findById(id) { /* public method */ }'' @ nl
     @ ''    };'' @ nl
     @ ''})();'' @ nl
     @ nl
     @ ''// 5. Proxy Pattern'' @ nl
     @ ''const smartObject = new Proxy(target, {'' @ nl
     @ ''    get(obj, prop) { /* intercept property access */ },'' @ nl
     @ ''    set(obj, prop, value) { /* intercept property setting */ }'' @ nl
     @ ''});'' @ nl
     @ ''        ''"

text \<open>
  \<open>run()\<close>: the five methods are called in order to fill the array; the first one that
  throws rejects the promise. No method reads or writes a field of \<open>this\<close>. \<open>now\<close> is
  what \<open>new Date().toISOString()\<close> yields during the run.
\<close>

definition AdvancedPatterns_run :: "string \<Rightarrow> AdvancedPatternsDemo \<Rightarrow> (js_error + run_result) \<times> AdvancedPatternsDemo" where
  "AdvancedPatterns_run now this =
     (thenE (Inr closuresAndPrivacy) (\<lambda>e1.
      thenE memoizationPattern (\<lambda>e2.
      thenE observerPattern (\<lambda>e3.
      thenE (modulePattern now) (\<lambda>e4.
      thenE proxyPattern (\<lambda>e5.
      Inr \<lparr>run_output = join (nl @ nl) [e1, e2, e3, e4, e5],
           run_code = AdvancedPatterns_getSourceCode\<rparr>))))),
      this)"

text \<open>
  A page for running the dashboard code on: the output element of the advanced patterns
  demo, the code display element, and that demo registered under its key.
\<close>

definition sample_page :: "(dashboard_timer, AdvancedPatternsDemo dashboard) event_loop" where
  "sample_page =
     \<lparr>clock = 0, pending = [], next_timer = 0,
      vars = \<lparr>demos = [''advanced-patterns'' \<mapsto> new_AdvancedPatternsDemo],
              codeDisplayManager = \<lparr>codeDisplay = Some \<lparr>content = TextContent [], classList = []\<rparr>,
                                    currentCode = []\<rparr>,
              document = [''advanced-patterns-output'' \<mapsto> \<lparr>content = InnerHTML [], classList = [''output'']\<rparr>],
              console_error = []\<rparr>\<rparr>"

text \<open>A click on the button of the advanced patterns demo, and one on another element.\<close>

definition advanced_button :: click_target where
  "advanced_button = \<lparr>target_classList = [''demo-btn''], dataset_action = Some ''advanced-patterns''\<rparr>"

definition page_header :: click_target where
  "page_header = \<lparr>target_classList = [], dataset_action = None\<rparr>"

section \<open>templateLiterals.js: TemplateLiteralDemo\<close>

text \<open>
  \<open>this.userData\<close> and the objects in its \<open>projects\<close> array. The two \<open>name\<close> fields
  carry the record's name as a prefix.
\<close>

record project =
  project_name :: string
  status :: string
  duration :: string

record userData =
  userData_name :: string
  role :: string
  experience :: int
  skills :: "string list"
  projects :: "project list"

record TemplateLiteralDemo =
  userData :: userData

definition new_TemplateLiteralDemo :: TemplateLiteralDemo where
  "new_TemplateLiteralDemo = \<lparr>userData =
     \<lparr>userData_name = ''John Doe'', role = ''Senior Developer'', experience = 5,
      skills = [''JavaScript'', ''React'', ''Node.js''],
      projects = [\<lparr>project_name = ''E-commerce Platform'', status = ''completed'', duration = ''6 months''\<rparr>,
                  \<lparr>project_name = ''Analytics Dashboard'', status = ''in-progress'', duration = ''3 months''\<rparr>]\<rparr>\<rparr>"

text \<open>\<open>basicTemplating()\<close>; the first line starts with the emoji U+1F4DD.\<close>

definition basicTemplating :: "TemplateLiteralDemo \<Rightarrow> string" where
  "basicTemplating this =
     (let name = userData_name (userData this);
          role = role (userData this);
          experience = experience (userData this);
          skills = skills (userData this);
          profile = trim (nl
                  @ [CHR 0xF0, CHR 0x9F, CHR 0x91, CHR 0xA4] @ '' Developer Profile:'' @ nl
                  @ ''Name: '' @ name @ nl
                  @ ''Role: '' @ role @ nl
                  @ ''Experience: '' @ string_of_int experience @ '' year''
                  @ (if experience \<noteq> 1 then ''s'' else []) @ nl
                  @ ''Skills: '' @ join ('' '' @ [CHR 0xE2, CHR 0x80, CHR 0xA2] @ '' '') skills @ nl
                  @ ''Skill Count: '' @ string_of_int (int (length skills)) @ nl
                  @ ''Senior Level: ''
                  @ (if experience \<ge> 5 then ([CHR 0xE2, CHR 0x9C, CHR 0x85] @ '' Yes'') else ([CHR 0xE2, CHR 0x9D, CHR 0x8C] @ '' No''))
                  @ nl
                  @ ''        '')
      in [CHR 0xF0, CHR 0x9F, CHR 0x93, CHR 0x9D] @ '' Basic Template Literals:'' @ nl
          @ profile)"

text \<open>
  The tag functions \<open>highlight\<close> (\<open>highlight_tag\<close> here) and \<open>query\<close>. A tagged template
  calls its tag with the literal parts and with the values of the substitutions, which are
  strings in this demo; \<open>values[i]\<close> counts when it is there and not empty.
\<close>

definition highlight_tag :: "string list \<Rightarrow> string list \<Rightarrow> string" where
  "highlight_tag strings values =
     foldl (\<lambda>result (i, string).
              let value = (if i < length values \<and> values ! i \<noteq> [] then (''<mark>'' @ values ! i @ ''</mark>'') else [])
              in result @ string @ value)
           [] (zip [0 ..< length strings] strings)"

definition query :: "string list \<Rightarrow> string list \<Rightarrow> string" where
  "query strings values =
     (let sanitized = map (\<lambda>value. [CHR 0x27] @ replace_char (CHR 0x27) [CHR 0x27, CHR 0x27] value @ [CHR 0x27]) values
      in foldl (\<lambda>result (i, string).
                  let value = (if i < length sanitized \<and> sanitized ! i \<noteq> [] then sanitized ! i else [])
                  in result @ string @ value)
               [] (zip [0 ..< length strings] strings))"

text \<open>\<open>taggedTemplates()\<close>; the first line starts with the emoji U+1F3F7 U+FE0F.\<close>

definition taggedTemplates :: "TemplateLiteralDemo \<Rightarrow> string" where
  "taggedTemplates this =
     (let name = userData_name (userData this);
          role = role (userData this);
          highlighted = highlight_tag [''Developer '', '' works as '', ''''] [name, role];
          sqlQuery = query [''SELECT * FROM users WHERE name = '', '' AND role = '', ''''] [name, role]
      in [CHR 0xF0, CHR 0x9F, CHR 0x8F, CHR 0xB7, CHR 0xEF, CHR 0xB8, CHR 0x8F]
          @ '' Tagged Template Literals:'' @ nl
          @ ''Highlighted: '' @ highlighted @ nl
          @ ''SQL Query: '' @ sqlQuery)"

text \<open>The three box lines that \<open>multilineTemplates\<close> prints for one project.\<close>

definition project_lines :: "project \<Rightarrow> string" where
  "project_lines project =
       [CHR 0xE2, CHR 0x95, CHR 0x91] @ '' '' @ [CHR 0xE2, CHR 0x80, CHR 0xA2] @ '' ''
       @ padEnd 32 (project_name project) @ '' '' @ [CHR 0xE2, CHR 0x95, CHR 0x91] @ nl
       @ [CHR 0xE2, CHR 0x95, CHR 0x91] @ ''   Status: '' @ padEnd 26 (status project) @ '' ''
       @ [CHR 0xE2, CHR 0x95, CHR 0x91] @ nl
       @ [CHR 0xE2, CHR 0x95, CHR 0x91] @ ''   Duration: '' @ padEnd 24 (duration project) @ '' ''
       @ [CHR 0xE2, CHR 0x95, CHR 0x91]"

text \<open>\<open>multilineTemplates()\<close>; the first line starts with the emoji U+1F4CA.\<close>

definition multilineTemplates :: "TemplateLiteralDemo \<Rightarrow> string" where
  "multilineTemplates this =
     (let name = userData_name (userData this);
          projects = projects (userData this);
          projectReport = trim (nl
                  @ [CHR 0xE2, CHR 0x95, CHR 0x94, CHR 0xE2, CHR 0x95, CHR 0x90, CHR 0xE2, CHR 0x95, CHR 0x90, CHR 0xE2, CHR 0x95, CHR 0x90, CHR 0xE2, CHR 0x95, CHR 0x90, CHR 0xE2, CHR 0x95, CHR 0x90, CHR 0xE2, CHR 0x95, CHR 0x90, CHR 0xE2, CHR 0x95, CHR 0x90, CHR 0xE2, CHR 0x95, CHR 0x90, CHR 0xE2, CHR 0x95, CHR 0x90, CHR 0xE2, CHR 0x95, CHR 0x90, CHR 0xE2, CHR 0x95, CHR 0x90, CHR 0xE2, CHR 0x95, CHR 0x90, CHR 0xE2, CHR 0x95, CHR 0x90, CHR 0xE2, CHR 0x95, CHR 0x90, CHR 0xE2, CHR 0x95, CHR 0x90, CHR 0xE2, CHR 0x95, CHR 0x90, CHR 0xE2, CHR 0x95, CHR 0x90, CHR 0xE2, CHR 0x95, CHR 0x90, CHR 0xE2, CHR 0x95, CHR 0x90, CHR 0xE2, CHR 0x95, CHR 0x90, CHR 0xE2, CHR 0x95, CHR 0x90, CHR 0xE2, CHR 0x95, CHR 0x90, CHR 0xE2, CHR 0x95, CHR 0x90, CHR 0xE2, CHR 0x95, CHR 0x90, CHR 0xE2, CHR 0x95, CHR 0x90, CHR 0xE2, CHR 0x95, CHR 0x90, CHR 0xE2, CHR 0x95, CHR 0x90, CHR 0xE2, CHR 0x95, CHR 0x90, CHR 0xE2, CHR 0x95, CHR 0x90, CHR 0xE2, CHR 0x95, CHR 0x90, CHR 0xE2, CHR 0x95, CHR 0x90, CHR 0xE2, CHR 0x95, CHR 0x90, CHR 0xE2, CHR 0x95, CHR 0x90, CHR 0xE2, CHR 0x95, CHR 0x90, CHR 0xE2, CHR 0x95, CHR 0x90, CHR 0xE2, CHR 0x95, CHR 0x90, CHR 0xE2, CHR 0x95, CHR 0x90, CHR 0xE2, CHR 0x95, CHR 0x90, CHR 0xE2, CHR 0x95, CHR 0x97]
                  @ nl
                  @ [CHR 0xE2, CHR 0x95, CHR 0x91] @ ''           PROJECT REPORT             ''
                  @ [CHR 0xE2, CHR 0x95, CHR 0x91] @ nl
                  @ [CHR 0xE2, CHR 0x95, CHR 0xA0, CHR 0xE2, CHR 0x95, CHR 0x90, CHR 0xE2, CHR 0x95, CHR 0x90, CHR 0xE2, CHR 0x95, CHR 0x90, CHR 0xE2, CHR 0x95, CHR 0x90, CHR 0xE2, CHR 0x95, CHR 0x90, CHR 0xE2, CHR 0x95, CHR 0x90, CHR 0xE2, CHR 0x95, CHR 0x90, CHR 0xE2, CHR 0x95, CHR 0x90, CHR 0xE2, CHR 0x95, CHR 0x90, CHR 0xE2, CHR 0x95, CHR 0x90, CHR 0xE2, CHR 0x95, CHR 0x90, CHR 0xE2, CHR 0x95, CHR 0x90, CHR 0xE2, CHR 0x95, CHR 0x90, CHR 0xE2, CHR 0x95, CHR 0x90, CHR 0xE2, CHR 0x95, CHR 0x90, CHR 0xE2, CHR 0x95, CHR 0x90, CHR 0xE2, CHR 0x95, CHR 0x90, CHR 0xE2, CHR 0x95, CHR 0x90, CHR 0xE2, CHR 0x95, CHR 0x90, CHR 0xE2, CHR 0x95, CHR 0x90, CHR 0xE2, CHR 0x95, CHR 0x90, CHR 0xE2, CHR 0x95, CHR 0x90, CHR 0xE2, CHR 0x95, CHR 0x90, CHR 0xE2, CHR 0x95, CHR 0x90, CHR 0xE2, CHR 0x95, CHR 0x90, CHR 0xE2, CHR 0x95, CHR 0x90, CHR 0xE2, CHR 0x95, CHR 0x90, CHR 0xE2, CHR 0x95, CHR 0x90, CHR 0xE2, CHR 0x95, CHR 0x90, CHR 0xE2, CHR 0x95, CHR 0x90, CHR 0xE2, CHR 0x95, CHR 0x90, CHR 0xE2, CHR 0x95, CHR 0x90, CHR 0xE2, CHR 0x95, CHR 0x90, CHR 0xE2, CHR 0x95, CHR 0x90, CHR 0xE2, CHR 0x95, CHR 0x90, CHR 0xE2, CHR 0x95, CHR 0x90, CHR 0xE2, CHR 0x95, CHR 0x90, CHR 0xE2, CHR 0x95, CHR 0x90, CHR 0xE2, CHR 0x95, CHR 0xA3]
                  @ nl
                  @ [CHR 0xE2, CHR 0x95, CHR 0x91] @ '' Developer: '' @ padEnd 25 name @ '' ''
                  @ [CHR 0xE2, CHR 0x95, CHR 0x91] @ nl
                  @ [CHR 0xE2, CHR 0x95, CHR 0x91] @ '' Total Projects: ''
                  @ padEnd 20 (string_of_int (int (length projects))) @ '' '' @ [CHR 0xE2, CHR 0x95, CHR 0x91] @ nl
                  @ [CHR 0xE2, CHR 0x95, CHR 0xA0, CHR 0xE2, CHR 0x95, CHR 0x90, CHR 0xE2, CHR 0x95, CHR 0x90, CHR 0xE2, CHR 0x95, CHR 0x90, CHR 0xE2, CHR 0x95, CHR 0x90, CHR 0xE2, CHR 0x95, CHR 0x90, CHR 0xE2, CHR 0x95, CHR 0x90, CHR 0xE2, CHR 0x95, CHR 0x90, CHR 0xE2, CHR 0x95, CHR 0x90, CHR 0xE2, CHR 0x95, CHR 0x90, CHR 0xE2, CHR 0x95, CHR 0x90, CHR 0xE2, CHR 0x95, CHR 0x90, CHR 0xE2, CHR 0x95, CHR 0x90, CHR 0xE2, CHR 0x95, CHR 0x90, CHR 0xE2, CHR 0x95, CHR 0x90, CHR 0xE2, CHR 0x95, CHR 0x90, CHR 0xE2, CHR 0x95, CHR 0x90, CHR 0xE2, CHR 0x95, CHR 0x90, CHR 0xE2, CHR 0x95, CHR 0x90, CHR 0xE2, CHR 0x95, CHR 0x90, CHR 0xE2, CHR 0x95, CHR 0x90, CHR 0xE2, CHR 0x95, CHR 0x90, CHR 0xE2, CHR 0x95, CHR 0x90, CHR 0xE2, CHR 0x95, CHR 0x90, CHR 0xE2, CHR 0x95, CHR 0x90, CHR 0xE2, CHR 0x95, CHR 0x90, CHR 0xE2, CHR 0x95, CHR 0x90, CHR 0xE2, CHR 0x95, CHR 0x90, CHR 0xE2, CHR 0x95, CHR 0x90, CHR 0xE2, CHR 0x95, CHR 0x90, CHR 0xE2, CHR 0x95, CHR 0x90, CHR 0xE2, CHR 0x95, CHR 0x90, CHR 0xE2, CHR 0x95, CHR 0x90, CHR 0xE2, CHR 0x95, CHR 0x90, CHR 0xE2, CHR 0x95, CHR 0x90, CHR 0xE2, CHR 0x95, CHR 0x90, CHR 0xE2, CHR 0x95, CHR 0x90, CHR 0xE2, CHR 0x95, CHR 0x90, CHR 0xE2, CHR 0x95, CHR 0x90, CHR 0xE2, CHR 0x95, CHR 0xA3]
                  @ nl
                  @ join nl (map project_lines projects) @ nl
                  @ [CHR 0xE2, CHR 0x95, CHR 0x9A, CHR 0xE2, CHR 0x95, CHR 0x90, CHR 0xE2, CHR 0x95, CHR 0x90, CHR 0xE2, CHR 0x95, CHR 0x90, CHR 0xE2, CHR 0x95, CHR 0x90, CHR 0xE2, CHR 0x95, CHR 0x90, CHR 0xE2, CHR 0x95, CHR 0x90, CHR 0xE2, CHR 0x95, CHR 0x90, CHR 0xE2, CHR 0x95, CHR 0x90, CHR 0xE2, CHR 0x95, CHR 0x90, CHR 0xE2, CHR 0x95, CHR 0x90, CHR 0xE2, CHR 0x95, CHR 0x90, CHR 0xE2, CHR 0x95, CHR 0x90, CHR 0xE2, CHR 0x95, CHR 0x90, CHR 0xE2, CHR 0x95, CHR 0x90, CHR 0xE2, CHR 0x95, CHR 0x90, CHR 0xE2, CHR 0x95, CHR 0x90, CHR 0xE2, CHR 0x95, CHR 0x90, CHR 0xE2, CHR 0x95, CHR 0x90, CHR 0xE2, CHR 0x95, CHR 0x90, CHR 0xE2, CHR 0x95, CHR 0x90, CHR 0xE2, CHR 0x95, CHR 0x90, CHR 0xE2, CHR 0x95, CHR 0x90, CHR 0xE2, CHR 0x95, CHR 0x90, CHR 0xE2, CHR 0x95, CHR 0x90, CHR 0xE2, CHR 0x95, CHR 0x90, CHR 0xE2, CHR 0x95, CHR 0x90, CHR 0xE2, CHR 0x95, CHR 0x90, CHR 0xE2, CHR 0x95, CHR 0x90, CHR 0xE2, CHR 0x95, CHR 0x90, CHR 0xE2, CHR 0x95, CHR 0x90, CHR 0xE2, CHR 0x95, CHR 0x90, CHR 0xE2, CHR 0x95, CHR 0x90, CHR 0xE2, CHR 0x95, CHR 0x90, CHR 0xE2, CHR 0x95, CHR 0x90, CHR 0xE2, CHR 0x95, CHR 0x90, CHR 0xE2, CHR 0x95, CHR 0x90, CHR 0xE2, CHR 0x95, CHR 0x90, CHR 0xE2, CHR 0x95, CHR 0x90, CHR 0xE2, CHR 0x95, CHR 0x9D]
                  @ nl
                  @ ''        '')
      in [CHR 0xF0, CHR 0x9F, CHR 0x93, CHR 0x8A] @ '' Multiline Templates:'' @ nl
          @ projectReport)"

text \<open>\<open>conditionalTemplating()\<close>; the first line starts with the emoji U+1F500.\<close>

definition conditionalTemplating :: "TemplateLiteralDemo \<Rightarrow> string" where
  "conditionalTemplating this =
     (let name = userData_name (userData this);
          experience = experience (userData this);
          skills = skills (userData this);
          projects = projects (userData this);
          completedProjects = length (filter (\<lambda>p. status p = ''completed'') projects);
          inProgressProjects = length (filter (\<lambda>p. status p = ''in-progress'') projects);
          statusReport = trim (nl
                  @ [CHR 0xF0, CHR 0x9F, CHR 0x8E, CHR 0xAF] @ '' Developer Status Report:'' @ nl
                  @ name @ '' is a ''
                  @ (if experience \<ge> 5 then ''Senior'' else if experience \<ge> 2 then ''Mid-level'' else ''Junior'')
                  @ '' developer'' @ nl
                  @ (if length skills > 3 then ([CHR 0xF0, CHR 0x9F, CHR 0x8C, CHR 0x9F] @ '' Highly skilled'') else ([CHR 0xF0, CHR 0x9F, CHR 0x93, CHR 0x9A] @ '' Growing skillset''))
                  @ '' ('' @ string_of_int (int (length skills)) @ '' skills)'' @ nl
                  @ (if completedProjects > 0 then [CHR 0xE2, CHR 0x9C, CHR 0x85] @ '' '' @ string_of_int (int completedProjects)
@ '' completed project'' @ (if completedProjects \<noteq> 1 then ''s'' else []) else [])
                  @ nl
                  @ (if inProgressProjects > 0 then [CHR 0xF0, CHR 0x9F, CHR 0x9A, CHR 0xA7] @ '' '' @ string_of_int (int inProgressProjects)
@ '' project'' @ (if inProgressProjects \<noteq> 1 then ''s'' else []) @ '' in progress'' else [])
                  @ nl
                  @ (if experience \<ge> 5 \<and> length skills > 3 then ([CHR 0xF0, CHR 0x9F, CHR 0x8F, CHR 0x86] @ '' Ready for leadership roles!'') else [])
                  @ nl
                  @ ''        '')
      in [CHR 0xF0, CHR 0x9F, CHR 0x94, CHR 0x80] @ '' Conditional Templating:'' @ nl
          @ statusReport)"

text \<open>The three templates of \<open>createEmailTemplate\<close>.\<close>

definition "welcome" :: "string \<Rightarrow> string \<Rightarrow> string" where
  "welcome = (\<lambda>name role.
       trim (nl
             @ ''Welcome '' @ name @ ''! '' @ [CHR 0xF0, CHR 0x9F, CHR 0x8E, CHR 0x89] @ nl
             @ ''We're excited to have you join us as a '' @ role @ ''.'' @ nl
             @ ''Your journey starts now!'' @ nl
             @ ''                ''))"

definition project :: "string \<Rightarrow> string \<Rightarrow> string \<Rightarrow> string" where
  "project = (\<lambda>name projectName status.
       trim (nl
             @ ''Hi '' @ name @ '','' @ nl
             @ ''Project Update: '' @ [CHR 0x22] @ projectName @ [CHR 0x22] @ nl
             @ ''Status: '' @ toUpperCase status @ nl
             @ (if status = ''completed'' then ([CHR 0xF0, CHR 0x9F, CHR 0x8E, CHR 0x89] @ '' Congratulations!'') else ([CHR 0xE2, CHR 0x8F, CHR 0xB3] @ '' Keep up the great work!''))
             @ nl
             @ ''                ''))"

definition reminder :: "string \<Rightarrow> string \<Rightarrow> string \<Rightarrow> string" where
  "reminder = (\<lambda>name task deadline.
       trim (nl
             @ ''Reminder for '' @ name @ '':'' @ nl
             @ ''Task: '' @ task @ nl
             @ ''Deadline: '' @ deadline @ nl
             @ [CHR 0xE2, CHR 0x9A, CHR 0xA0, CHR 0xEF, CHR 0xB8, CHR 0x8F]
             @ '' Don't forget to complete this task!'' @ nl
             @ ''                ''))"

text \<open>
  \<open>createEmailTemplate(type)\<close>: \<open>templates[type] || (() => "Template not found")\<close>, as a
  function of three arguments (\<open>welcome\<close> takes no notice of the third).
\<close>

definition createEmailTemplate :: "string \<Rightarrow> string \<Rightarrow> string \<Rightarrow> string \<Rightarrow> string" where
  "createEmailTemplate type =
     (if type = ''welcome'' then (\<lambda>a b c. welcome a b)
      else if type = ''project'' then project
      else if type = ''reminder'' then reminder
      else (\<lambda>a b c. ''Template not found''))"

text \<open>
  \<open>templateFunctions()\<close>; \<open>projects[0]\<close> is \<open>undefined\<close> for an empty array, and reading
  its \<open>name\<close> throws. The first line starts with the emoji U+1F4E7.
\<close>

definition templateFunctions :: "TemplateLiteralDemo \<Rightarrow> js_error + string" where
  "templateFunctions this =
     (let welcomeEmail = createEmailTemplate ''welcome'';
          projectEmail = createEmailTemplate ''project'';
          name = userData_name (userData this);
          role = role (userData this);
          projects = projects (userData this);
          welcome = welcomeEmail name role []
      in case projects of
           [] \<Rightarrow> Inl (TypeError (''Cannot read properties of undefined (reading 'name')''))
         | first # others \<Rightarrow>
             (let project = projectEmail name (project_name first) (status first)
              in Inr ([CHR 0xF0, CHR 0x9F, CHR 0x93, CHR 0xA7] @ '' Template Functions:'' @ nl
               @ ''Welcome Email:'' @ nl
               @ welcome @ nl
               @ nl
               @ ''Project Email:'' @ nl
               @ project)))"

text \<open>\<open>getSourceCode()\<close>: the template literal, with its escapes resolved.\<close>

definition TemplateLiteral_getSourceCode :: string where
  "TemplateLiteral_getSourceCode =
     nl
     @ ''// Advanced Template Literal Patterns'' @ nl
     @ nl
     @ ''// 1. Basic Templates with Expressions'' @ nl
     @ ''const profile = '' @ [CHR 0x60] @ nl
     @ ''Name: ${name}'' @ nl
     @ ''Experience: ${experience} year${experience !== 1 ? 's' : '' @ [CHR 0x27] @ [CHR 0x27] @ ''}'' @ nl
     @ ''Senior: ${experience >= 5 ? '' @ [CHR 0x27] @ [CHR 0xE2, CHR 0x9C, CHR 0x85] @ '' Yes' : '' @ [CHR 0x27] @ [CHR 0xE2, CHR 0x9D, CHR 0x8C] @ '' No'}'' @ nl
     @ [CHR 0x60] @ '';'' @ nl
     @ nl
     @ ''// 2. Tagged Template Literals'' @ nl
     @ ''const highlight = (strings, ...values) => {'' @ nl
     @ ''    return strings.reduce((result, string, i) => {'' @ nl
     @ ''        const value = values[i] ? '' @ [CHR 0x60] @ ''<mark>${values[i]}</mark>'' @ [CHR 0x60] @ '' : '' @ [CHR 0x27] @ [CHR 0x27] @ '';'' @ nl
     @ ''        return result + string + value;'' @ nl
     @ ''    }, '' @ [CHR 0x27] @ [CHR 0x27] @ '');'' @ nl
     @ ''};'' @ nl
     @ nl
     @ ''const highlighted = highlight'' @ [CHR 0x60] @ ''User ${name} has ${role} role'' @ [CHR 0x60] @ '';'' @ nl
     @ nl
     @ ''// 3. SQL Query Builder'' @ nl
     @ ''const query = (strings, ...values) => {'' @ nl
     @ ''    const sanitized = values.map(v => '' @ nl
     @ ''        typeof v === 'string' ? '' @ [CHR 0x60] @ [CHR 0x27] @ ''${v.replace(/'/g, '' @ [CHR 0x22] @ [CHR 0x27] @ [CHR 0x27] @ [CHR 0x22] @ '')}'' @ [CHR 0x27] @ [CHR 0x60] @ '' : v'' @ nl
     @ ''    );'' @ nl
     @ ''    return strings.reduce((result, string, i) => '' @ nl
     @ ''        result + string + (sanitized[i] || '' @ [CHR 0x27] @ [CHR 0x27] @ ''), '' @ [CHR 0x27] @ [CHR 0x27] @ nl
     @ ''    );'' @ nl
     @ ''};'' @ nl
     @ nl
     @ ''// 4. Conditional Templates'' @ nl
     @ ''const status = '' @ [CHR 0x60] @ nl
     @ ''${name} is ${experience >= 5 ? 'Senior' : 'Junior'}'' @ nl
     @ ''${skills.length > 3 ? '' @ [CHR 0x27] @ [CHR 0xF0, CHR 0x9F, CHR 0x8C, CHR 0x9F] @ '' Highly skilled' : '' @ [CHR 0x27] @ [CHR 0xF0, CHR 0x9F, CHR 0x93, CHR 0x9A] @ '' Growing'}'' @ nl
     @ ''${completedProjects > 0 ? '' @ [CHR 0x60] @ [CHR 0xE2, CHR 0x9C, CHR 0x85] @ '' ${completedProjects} completed'' @ [CHR 0x60] @ '' : '' @ [CHR 0x27] @ [CHR 0x27] @ ''}'' @ nl
     @ [CHR 0x60] @ '';'' @ nl
     @ nl
     @ ''// 5. Template Factory Functions'' @ nl
     @ ''const createTemplate = (type) => (name, data) => '' @ [CHR 0x60] @ nl
     @ ''Template for ${name}: ${data}'' @ nl
     @ [CHR 0x60] @ '';'' @ nl
     @ ''        ''"

text \<open>\<open>run()\<close>. The methods read \<open>this.userData\<close> and assign nothing.\<close>

definition TemplateLiteral_run :: "TemplateLiteralDemo \<Rightarrow> (js_error + run_result) \<times> TemplateLiteralDemo" where
  "TemplateLiteral_run this =
     (thenE (Inr (basicTemplating this)) (\<lambda>e1.
      thenE (Inr (taggedTemplates this)) (\<lambda>e2.
      thenE (Inr (multilineTemplates this)) (\<lambda>e3.
      thenE (Inr (conditionalTemplating this)) (\<lambda>e4.
      thenE (templateFunctions this) (\<lambda>e5.
      Inr \<lparr>run_output = join (nl @ nl) [e1, e2, e3, e4, e5],
           run_code = TemplateLiteral_getSourceCode\<rparr>))))),
      this)"

section \<open>script.js: the six demos and their instances\<close>

text \<open>
  The instances that the constructor of \<open>FeatureDashboard\<close> puts into \<open>this.demos\<close>, one
  of each class.
\<close>

datatype demo =
    Destructuring DestructuringDemo
  | SpreadRest SpreadRestDemo
  | ArrowFunctions ArrowFunctionDemo
  | TemplateLiterals TemplateLiteralDemo
  | AdvancedPatterns AdvancedPatternsDemo
  | Performance PerformanceDemo

text \<open>What the clocks yield during one run.\<close>

record environment =
  dates :: date_env
  measured :: timings

text \<open>
  \<open>demo.run()\<close>: the method of the instance's class, on the instance and the store. The
  result is the value or the error the promise settles to, \<open>None\<close> if it never settles;
  with it come the instance and the store as the run leaves them.
\<close>

fun demo_run :: "environment \<Rightarrow> demo \<Rightarrow> heap \<Rightarrow> (js_error + run_result) option \<times> demo \<times> heap" where
  "demo_run env (Destructuring this) h =
     (case Destructuring_run this of (r, this') \<Rightarrow> (Some r, Destructuring this', h))"
| "demo_run env (SpreadRest this) h =
     (case SpreadRest_run (dates env) this of (r, this') \<Rightarrow> (Some r, SpreadRest this', h))"
| "demo_run env (ArrowFunctions this) h =
     (case ArrowFunction_run this of (r, this') \<Rightarrow> (Some r, ArrowFunctions this', h))"
| "demo_run env (TemplateLiterals this) h =
     (case TemplateLiteral_run this of (r, this') \<Rightarrow> (Some r, TemplateLiterals this', h))"
| "demo_run env (AdvancedPatterns this) h =
     (case AdvancedPatterns_run (iso_now (dates env)) this of (r, this') \<Rightarrow> (Some r, AdvancedPatterns this', h))"
| "demo_run env (Performance this) h =
     (case Performance_run (measured env) this h of (r, this', h') \<Rightarrow> (r, Performance this', h'))"

text \<open>
  Any number of calls of \<open>run()\<close> on one instance, one after the other, each under the
  clocks of its own time.
\<close>

fun run_times :: "environment list \<Rightarrow> demo \<Rightarrow> heap \<Rightarrow> demo \<times> heap" where
  "run_times [] d h = (d, h)"
| "run_times (env # later) d h =
     (case demo_run env d h of (r, d', h') \<Rightarrow> run_times later d' h')"

text \<open>
  The input data of an instance: the fields its constructor has initialised and, where a
  field is a reference into the store, the objects of the array it refers to.
\<close>

definition input_data :: "heap \<Rightarrow> demo \<Rightarrow> demo \<times> user list" where
  "input_data h d =
     (d, case d of Performance this \<Rightarrow> users_of h (testData this) | _ \<Rightarrow> [])"

text \<open>
  The references of an instance are allocated: \<open>testData\<close> is the address of an array in
  the store, and so are the elements of that array addresses of objects.
\<close>

definition allocated :: "heap \<Rightarrow> demo \<Rightarrow> bool" where
  "allocated h d =
     (case d of
        Performance this \<Rightarrow>
          testData this < length (arrays h)
          \<and> list_all (\<lambda>a. a < length (objects h)) (arrays h ! testData this)
      | _ \<Rightarrow> True)"

text \<open>
  The store \<open>h'\<close> extends the store \<open>h\<close>: every object and array of \<open>h\<close> is in \<open>h'\<close> at its
  address, with the content it has in \<open>h\<close>.
\<close>

definition extends :: "heap \<Rightarrow> heap \<Rightarrow> bool" where
  "extends h h' \<longleftrightarrow>
     take (length (objects h)) (objects h') = objects h
     \<and> take (length (arrays h)) (arrays h') = arrays h"

text \<open>The six instances as the dashboard creates them, in a store that is empty before.\<close>

definition new_demos :: "(nat \<Rightarrow> real) \<Rightarrow> (string \<times> demo) list \<times> heap" where
  "new_demos random =
     (let (performance, h) = new_PerformanceDemo random \<lparr>objects = [], arrays = []\<rparr>
      in ([(''destructuring'', Destructuring new_DestructuringDemo),
           (''spread-rest'', SpreadRest new_SpreadRestDemo),
           (''arrow-functions'', ArrowFunctions new_ArrowFunctionDemo),
           (''template-literals'', TemplateLiterals new_TemplateLiteralDemo),
           (''advanced-patterns'', AdvancedPatterns new_AdvancedPatternsDemo),
           (''performance'', Performance performance)], h))"

text \<open>Clock readings for running the demos on concrete data.\<close>

definition sample_environment :: environment where
  "sample_environment =
     \<lparr>dates = \<lparr>iso_now = ''2024-01-15T10:30:00.000Z'', epoch_now = 1705314600000\<rparr>,
      measured = sample_timings\<rparr>"

section \<open>Binary search returns what the linear scan returns\<close>

lemma sorted_by_score_nth:
  "sorted_by_score arr \<Longrightarrow> i \<le> j \<Longrightarrow> j < length arr \<Longrightarrow> score (arr ! i) \<le> score (arr ! j)"
  unfolding sorted_by_score_def
  using sorted_nth_mono [of "map score arr" i j] by simp

lemma score_of_at_index:
  "0 \<le> i \<Longrightarrow> i < int (length arr) \<Longrightarrow> score_of (at_index arr i) = Inr (score (arr ! nat i))"
  by (simp add: score_of_def at_index_def)

lemma all_below_set:
  assumes "\<forall>i < length arr. score (arr ! i) < tgt"
  shows "\<forall>u \<in> set arr. score u < tgt"
  using assms by (auto simp: in_set_conv_nth)

text \<open>
  The loop invariant: everything left of \<open>left\<close> is below the tgt, and \<open>right\<close> is
  either still the last index or an index whose score has been seen to reach the tgt.
  Under it the loop ends at the lowest index that reaches the tgt, or with \<open>null\<close> when
  every score is below it. Indices stay inside the array, so no read throws.
\<close>

lemma binarySearch_loop_inv:
  assumes "sorted_by_score arr"
    and "0 \<le> left" and "right < int (length arr)"
    and "\<forall>i < nat left. score (arr ! i) < tgt"
    and "right = int (length arr) - 1 \<or> (left \<le> right \<and> tgt \<le> score (arr ! nat right))"
    and "left \<le> right + 1"
  shows "(\<exists>k < length arr. tgt \<le> score (arr ! k) \<and> (\<forall>i < k. score (arr ! i) < tgt)
            \<and> binarySearch_loop arr tgt left right = Inr (Obj (arr ! k)))
       \<or> ((\<forall>u \<in> set arr. score u < tgt) \<and> binarySearch_loop arr tgt left right = Inr Null)"
  using assms
proof (induction arr tgt left right rule: binarySearch_loop.induct)
  case (1 arr tgt left right)
  note srt = \<open>sorted_by_score arr\<close>
  note lo = \<open>0 \<le> left\<close>
  note hi = \<open>right < int (length arr)\<close>
  note below = \<open>\<forall>i < nat left. score (arr ! i) < tgt\<close>
  note above = \<open>right = int (length arr) - 1 \<or> (left \<le> right \<and> tgt \<le> score (arr ! nat right))\<close>
  show ?case
  proof (cases "left \<le> right")
    case False
    with "1.prems" have eq: "left = right + 1" by linarith
    have res: "binarySearch_loop arr tgt left right = Inr Null"
      using False by (simp add: binarySearch_loop.simps)
    from above False have "right = int (length arr) - 1" by simp
    with eq have "nat left = length arr" by simp
    with below have "\<forall>u \<in> set arr. score u < tgt" by (simp add: all_below_set)
    with res show ?thesis by simp
  next
    case True
    define mid where "mid = (left + right) div 2"
    have mid_lo: "left \<le> mid" and mid_hi: "mid \<le> right"
      using True by (simp_all add: mid_def)
    have mid0: "0 \<le> mid" and midlen: "mid < int (length arr)"
      using mid_lo mid_hi lo hi by simp_all
    have sc_mid: "score_of (at_index arr mid) = Inr (score (arr ! nat mid))"
      using mid0 midlen by (rule score_of_at_index)
    have at_mid: "at_index arr mid = Obj (arr ! nat mid)"
      using mid0 midlen by (simp add: at_index_def)
    show ?thesis
    proof (cases "tgt \<le> score (arr ! nat mid)")
      case ge: True
      show ?thesis
      proof (cases "mid = 0")
        case True
        have "binarySearch_loop arr tgt left right = Inr (Obj (arr ! 0))"
          using \<open>left \<le> right\<close> ge True sc_mid at_mid
          by (subst binarySearch_loop.simps) (simp add: mid_def [symmetric])
        moreover have "0 < length arr" using midlen True by simp
        moreover have "tgt \<le> score (arr ! 0)" using ge True by simp
        ultimately show ?thesis by auto
      next
        case nz: False
        have p0: "0 \<le> mid - 1" and plen: "mid - 1 < int (length arr)"
          using mid0 nz midlen by simp_all
        have sc_p: "score_of (at_index arr (mid - 1)) = Inr (score (arr ! nat (mid - 1)))"
          using p0 plen by (rule score_of_at_index)
        show ?thesis
        proof (cases "score (arr ! nat (mid - 1)) < tgt")
          case True
          have res: "binarySearch_loop arr tgt left right = Inr (Obj (arr ! nat mid))"
            using \<open>left \<le> right\<close> ge nz sc_mid sc_p at_mid True
            by (subst binarySearch_loop.simps) (simp add: mid_def [symmetric])
          have "\<forall>i < nat mid. score (arr ! i) < tgt"
          proof (intro allI impI)
            fix i assume "i < nat mid"
            then have "i \<le> nat (mid - 1)" by simp
            moreover have "nat (mid - 1) < length arr" using plen p0 by simp
            ultimately have "score (arr ! i) \<le> score (arr ! nat (mid - 1))"
              using srt by (simp add: sorted_by_score_nth)
            with True show "score (arr ! i) < tgt" by simp
          qed
          moreover have "nat mid < length arr" using mid0 midlen by simp
          ultimately show ?thesis using res ge by blast
        next
          case False
          then have pge: "tgt \<le> score (arr ! nat (mid - 1))" by simp
          have unf: "binarySearch_loop arr tgt left right = binarySearch_loop arr tgt left (mid - 1)"
            using \<open>left \<le> right\<close> ge nz sc_mid sc_p False
            by (subst binarySearch_loop.simps) (simp add: mid_def [symmetric])
          have "left \<le> mid - 1"
          proof (rule ccontr)
            assume "\<not> left \<le> mid - 1"
            then have "nat (mid - 1) < nat left" using lo p0 by simp
            with below have "score (arr ! nat (mid - 1)) < tgt" by simp
            with pge show False by simp
          qed
          have IH: "(\<exists>k < length arr. tgt \<le> score (arr ! k) \<and> (\<forall>i < k. score (arr ! i) < tgt)
                  \<and> binarySearch_loop arr tgt left (mid - 1) = Inr (Obj (arr ! k)))
             \<or> ((\<forall>u \<in> set arr. score u < tgt) \<and> binarySearch_loop arr tgt left (mid - 1) = Inr Null)"
          proof (rule "1.IH"(1) [OF \<open>left \<le> right\<close> mid_def sc_mid ge nz sc_p False srt lo])
            show "mid - 1 < int (length arr)" by (rule plen)
            show "\<forall>i < nat left. score (arr ! i) < tgt" by (rule below)
            show "mid - 1 = int (length arr) - 1 \<or> left \<le> mid - 1 \<and> tgt \<le> score (arr ! nat (mid - 1))"
              using \<open>left \<le> mid - 1\<close> pge by simp
            show "left \<le> mid - 1 + 1" using mid_lo by simp
          qed
          show ?thesis using IH unf by simp
        qed
      qed
    next
      case lt: False
      have unf: "binarySearch_loop arr tgt left right = binarySearch_loop arr tgt (mid + 1) right"
        using \<open>left \<le> right\<close> lt sc_mid
        by (subst binarySearch_loop.simps) (simp add: mid_def [symmetric])
      have IH: "(\<exists>k < length arr. tgt \<le> score (arr ! k) \<and> (\<forall>i < k. score (arr ! i) < tgt)
                  \<and> binarySearch_loop arr tgt (mid + 1) right = Inr (Obj (arr ! k)))
             \<or> ((\<forall>u \<in> set arr. score u < tgt) \<and> binarySearch_loop arr tgt (mid + 1) right = Inr Null)"
      proof (rule "1.IH"(2) [OF \<open>left \<le> right\<close> mid_def sc_mid lt srt])
        show "0 \<le> mid + 1" using mid0 by simp
        show "right < int (length arr)" by (rule hi)
        show "\<forall>i < nat (mid + 1). score (arr ! i) < tgt"
        proof (intro allI impI)
          fix i assume "i < nat (mid + 1)"
          then have "i \<le> nat mid" using mid0 by simp
          moreover have "nat mid < length arr" using mid0 midlen by simp
          ultimately have "score (arr ! i) \<le> score (arr ! nat mid)"
            using srt by (simp add: sorted_by_score_nth)
          with lt show "score (arr ! i) < tgt" by simp
        qed
        show "right = int (length arr) - 1 \<or> mid + 1 \<le> right \<and> tgt \<le> score (arr ! nat right)"
        proof (cases "right = int (length arr) - 1")
          case True then show ?thesis by simp
        next
          case False
          with above have r: "tgt \<le> score (arr ! nat right)" by simp
          with lt have "mid \<noteq> right" by auto
          with mid_hi r show ?thesis by simp
        qed
        show "mid + 1 \<le> right + 1" using mid_hi by simp
      qed
      show ?thesis using IH unf by simp
    qed
  qed
qed

lemma binarySearch_cases:
  assumes "sorted_by_score arr"
  shows "(\<exists>k < length arr. tgt \<le> score (arr ! k) \<and> (\<forall>i < k. score (arr ! i) < tgt)
            \<and> binarySearch arr tgt = Inr (Obj (arr ! k)))
       \<or> ((\<forall>u \<in> set arr. score u < tgt) \<and> binarySearch arr tgt = Inr Null)"
  unfolding binarySearch_def
  by (rule binarySearch_loop_inv [OF assms]) simp_all

lemma linearSearch_least:
  assumes "k < length arr" and "tgt \<le> score (arr ! k)" and "\<forall>i < k. score (arr ! i) < tgt"
  shows "linearSearch arr tgt = Obj (arr ! k)"
proof -
  have "List.find (\<lambda>u. score u \<ge> tgt) arr = Some (arr ! k)"
    unfolding find_Some_iff using assms by (intro exI [of _ k]) (auto simp: not_le)
  then show ?thesis by (simp add: linearSearch_def)
qed

lemma linearSearch_none:
  assumes "\<forall>u \<in> set arr. score u < tgt"
  shows "linearSearch arr tgt = Undefined"
proof -
  have "List.find (\<lambda>u. score u \<ge> tgt) arr = None"
    unfolding find_None_iff using assms by (auto simp: not_le)
  then show ?thesis by (simp add: linearSearch_def)
qed

text \<open>
  Claim C8. On an array sorted in non-decreasing order of score, and for every tgt,
  \<open>binarySearch\<close> does not throw and returns the record that the linear scan
  \<open>arr.find(u => u.score >= tgt)\<close> returns, which is the element at the lowest index whose
  score reaches the tgt; it returns \<open>null\<close> exactly when no element has a score that
  reaches the tgt (the linear scan then returns \<open>undefined\<close>).
\<close>

theorem binarySearch_agrees_with_linearSearch:
  assumes "sorted_by_score arr"
  shows "((\<exists>k < length arr. tgt \<le> score (arr ! k) \<and> (\<forall>i < k. score (arr ! i) < tgt)
             \<and> linearSearch arr tgt = Obj (arr ! k)
             \<and> binarySearch arr tgt = Inr (Obj (arr ! k)))
          \<or> (linearSearch arr tgt = Undefined \<and> binarySearch arr tgt = Inr Null))
       \<and> ((binarySearch arr tgt = Inr Null) = (\<not> (\<exists>u \<in> set arr. tgt \<le> score u)))"
proof -
  from binarySearch_cases [OF assms, of tgt]
  show ?thesis
  proof
    assume "\<exists>k < length arr. tgt \<le> score (arr ! k) \<and> (\<forall>i < k. score (arr ! i) < tgt)
            \<and> binarySearch arr tgt = Inr (Obj (arr ! k))"
    then obtain k where k: "k < length arr" "tgt \<le> score (arr ! k)"
      "\<forall>i < k. score (arr ! i) < tgt" "binarySearch arr tgt = Inr (Obj (arr ! k))"
      by blast
    have lin: "linearSearch arr tgt = Obj (arr ! k)"
      using k(1-3) by (rule linearSearch_least)
    have "arr ! k \<in> set arr" using k(1) by simp
    with k(2) have ex: "\<exists>u \<in> set arr. tgt \<le> score u" by blast
    have "binarySearch arr tgt \<noteq> Inr Null" using k(4) by simp
    with ex k lin show ?thesis by blast
  next
    assume a: "(\<forall>u \<in> set arr. score u < tgt) \<and> binarySearch arr tgt = Inr Null"
    then have "linearSearch arr tgt = Undefined" by (simp add: linearSearch_none)
    moreover have "\<not> (\<exists>u \<in> set arr. tgt \<le> score u)" using a by (auto simp: not_le)
    ultimately show ?thesis using a by simp
  qed
qed

theorem binarySearch_agrees_with_linearSearch_witness:
  "sorted_by_score sample_sorted
   \<and> linearSearch sample_sorted 50 = Obj (sample_sorted ! 1)
   \<and> binarySearch sample_sorted 50 = Inr (Obj (sample_sorted ! 1))
   \<and> binarySearch sample_sorted 50 \<noteq> Inr Null"
proof -
  have s: "sorted_by_score sample_sorted"
    by (simp add: sorted_by_score_def sample_sorted_def)
  have l: "linearSearch sample_sorted 50 = Obj (sample_sorted ! 1)"
    by (simp add: linearSearch_def sample_sorted_def)
  from binarySearch_agrees_with_linearSearch [OF s, of 50] l s
  show ?thesis by auto
qed

section \<open>The nested destructuring demo on the sample data\<close>

text \<open>
  Claim C1. \<open>nestedObjectDestructuring()\<close> on the \<open>sampleData\<close> literal of the constructor
  returns, without throwing, exactly the eight-line text below: name John Doe, email
  john@example.com, theme dark, email notifications true, push notifications false (the stored
  \<open>false\<close> is defined, so the default \<open>true\<close> is not used), home city New York and work
  city San Francisco (a second address exists, so the default \<open>{ city: "Unknown" }\<close> is not
  used).
\<close>

theorem nestedObjectDestructuring_sampleData:
  "nestedObjectDestructuring new_DestructuringDemo =
     Inr ([CHR 0xF0, CHR 0x9F, CHR 0x8E, CHR 0xAF] @ '' Nested Object Destructuring:'' @ nl
          @ ''Name: John Doe'' @ nl
          @ ''Email: john@example.com'' @ nl
          @ ''Theme: dark'' @ nl
          @ ''Email Notifications: true'' @ nl
          @ ''Push Notifications: false'' @ nl
          @ ''Home City: New York'' @ nl
          @ ''Work City: San Francisco'')"
  by (simp add: nestedObjectDestructuring_def new_DestructuringDemo_def thenE_def member_def
      elements_def nth_or_undefined_def default_to_def)

section \<open>The memoized wrapper\<close>














lemma key_of_number_10: "key_of_number 10 = ''[10]''"
  by (simp add: key_of_number_def string_of_int_def string_of_nat.simps)

lemma fibonacci_hit:
  "c (key_of_number n) = Some v \<Longrightarrow> fibonacci n c = (Inr \<lparr>result = v, cached = True\<rparr>, c)"
  by (simp add: fibonacci.simps memoize_def)

lemma fibonacci_10_first:
  "fst (fibonacci 10 Map.empty) = Inr \<lparr>result = JStr ''[object Object][object Object]'', cached = False\<rparr>"
  by (simp add: fibonacci.simps fib_inner_def memoize_def key_of_number_def string_of_int_def
      string_of_nat.simps add_objects_def Let_def)

lemma fibonacci_10_stored:
  "snd (fibonacci 10 Map.empty) (key_of_number 10) = Some (JStr ''[object Object][object Object]'')"
  by (simp add: fibonacci.simps fib_inner_def memoize_def key_of_number_def string_of_int_def
      string_of_nat.simps add_objects_def Let_def)

lemma fibonacci_10_second:
  "fibonacci 10 (snd (fibonacci 10 Map.empty)) =
     (Inr \<lparr>result = JStr ''[object Object][object Object]'', cached = True\<rparr>, snd (fibonacci 10 Map.empty))"
  using fibonacci_10_stored by (rule fibonacci_hit)

lemma processData_demo:
  "fst (processData [1, 2, 3, 4, 5] Map.empty) = Inr \<lparr>result = 30, cached = False\<rparr>"
  by (simp add: processData_def memoize_def)

lemma memoizationPattern_output:
  "memoizationPattern =
     Inr ([CHR 0xE2, CHR 0x9A, CHR 0xA1] @ '' Memoization Pattern:'' @ nl
          @ ''Fibonacci(10) first call: [object Object][object Object] (cached: false)'' @ nl
          @ ''Fibonacci(10) second call: [object Object][object Object] (cached: true)'' @ nl
          @ ''Data processing result: 30'')"
proof -
  obtain c1 where f1: "fibonacci 10 Map.empty =
      (Inr \<lparr>result = JStr ''[object Object][object Object]'', cached = False\<rparr>, c1)"
    using fibonacci_10_first by (cases "fibonacci 10 Map.empty") simp
  have f2: "fibonacci 10 c1 = (Inr \<lparr>result = JStr ''[object Object][object Object]'', cached = True\<rparr>, c1)"
    using fibonacci_10_second f1 by simp
  obtain c3 where p: "processData [1, 2, 3, 4, 5] Map.empty = (Inr \<lparr>result = 30, cached = False\<rparr>, c3)"
    using processData_demo by (cases "processData [1, 2, 3, 4, 5] Map.empty") simp
  show ?thesis
    by (simp add: memoizationPattern_def f1 f2 p string_of_int_def string_of_nat.simps)
qed




section \<open>Listeners registered with once\<close>

lemma set_remove_first: "set (remove_first i ls) \<subseteq> set ls"
  by (induction ls) auto

lemma occurrences_remove_first_other:
  "i \<noteq> j \<Longrightarrow> occurrences i (remove_first j ls) = occurrences i ls"
  by (induction ls) (auto simp: occurrences_def)

lemma occurrences_remove_first_same:
  "occurrences i (remove_first i ls) = occurrences i ls - 1"
  by (induction ls) (auto simp: occurrences_def)

lemma occurrences_remove_first_le:
  "occurrences i (remove_first j ls) \<le> occurrences i ls"
  by (cases "i = j") (simp_all add: occurrences_remove_first_same occurrences_remove_first_other)

lemma occurrences_member:
  "l \<in> set ls \<Longrightarrow> 0 < occurrences (ident l) ls"
  by (induction ls) (auto simp: occurrences_def)

lemma occurrences_append [simp]:
  "occurrences i (xs @ ys) = occurrences i xs + occurrences i ys"
  by (simp add: occurrences_def)

lemma occurrences_none:
  "\<forall>l \<in> set ls. ident l \<noteq> i \<Longrightarrow> occurrences i ls = 0"
  by (induction ls) (auto simp: occurrences_def)

lemma listeners_Some: "events st e = Some cbs \<Longrightarrow> listeners st e = cbs"
  by (simp add: listeners_def)

lemma listeners_member:
  "l \<in> set (listeners st e) \<Longrightarrow> \<exists>cbs. events st e = Some cbs \<and> l \<in> set cbs"
  by (cases "events st e") (auto simp: listeners_def)

lemma listeners_events_update:
  "listeners (st\<lparr>events := (events st)(e \<mapsto> cbs')\<rparr>) e' = (if e' = e then cbs' else listeners st e')"
  by (simp add: listeners_def)

lemma listeners_outside [simp]: "listeners (st\<lparr>outside := w\<rparr>) = listeners st"
  by (simp add: listeners_def fun_eq_iff)

lemma listeners_calls [simp]: "listeners (st\<lparr>calls := c\<rparr>) = listeners st"
  by (simp add: listeners_def fun_eq_iff)

lemma listeners_wrappers_made [simp]: "listeners (st\<lparr>wrappers_made := n\<rparr>) = listeners st"
  by (simp add: listeners_def fun_eq_iff)

lemma calls_on: "calls (snd (on e l st)) = calls st"
  by (simp add: on_def)

lemma calls_once: "calls (snd (once e f st)) = calls st"
  by (simp add: once_def on_def)

lemma calls_unsubscribe: "calls (snd (unsubscribe h st)) = calls st"
  by (cases "events st (fst h)") (simp_all add: unsubscribe_def)

subsection \<open>What is kept by every step is kept by every run\<close>

text \<open>
  A property of the state that the steps of a body keep, and that \<open>emit\<close> keeps when it
  is called from inside the body, is kept by the body.
\<close>

lemma exec_preserves:
  assumes em: "\<And>e d s. P s \<Longrightarrow> P (snd (em e d s))"
    and upd: "\<And>s w. P s \<Longrightarrow> P (s\<lparr>outside := w\<rparr>)"
    and onP: "\<And>s e n f. P s \<Longrightarrow> P (snd (on e (Plain n f) s))"
    and onceP: "\<And>s e f. P s \<Longrightarrow> P (snd (once e f s))"
    and unsubP: "\<And>s h. P s \<Longrightarrow> P (snd (unsubscribe h s))"
  shows "P st \<Longrightarrow> P (snd (exec em p st))"
proof (induction p arbitrary: st)
  case Return
  then show ?case by simp
next
  case (Throw e)
  then show ?case by simp
next
  case (Local f g)
  have "P (st\<lparr>outside := f (outside st)\<rparr>)" using Local.prems by (rule upd)
  then have "P (snd (exec em (g (outside st)) (st\<lparr>outside := f (outside st)\<rparr>)))"
    by (rule Local.IH [OF rangeI])
  then show ?case by simp
next
  case (CallEmit event data g)
  obtain r st' where e: "em event data st = (r, st')" by (cases "em event data st")
  have "P st'" using em [OF CallEmit.prems, of event data] e by simp
  then have "P (snd (exec em (g r) st'))" by (rule CallEmit.IH [OF rangeI])
  then show ?case using e by simp
next
  case (CallOn event n f p)
  have "P (snd (on event (Plain n f) st))" using CallOn.prems by (rule onP)
  then have "P (snd (exec em p (snd (on event (Plain n f) st))))" by (rule CallOn.IH(2))
  then show ?case by simp
next
  case (CallOnce event f g)
  obtain h st' where e: "once event f st = (h, st')" by (cases "once event f st")
  have "P st'" using onceP [OF CallOnce.prems, of event f] e by simp
  then have "P (snd (exec em (g h) st'))" by (rule CallOnce.IH(2) [OF rangeI])
  then show ?case using e by simp
next
  case (CallUnsubscribe h g)
  obtain r st' where e: "unsubscribe h st = (r, st')" by (cases "unsubscribe h st")
  have "P st'" using unsubP [OF CallUnsubscribe.prems, of h] e by simp
  then have "P (snd (exec em (g r) st'))" by (rule CallUnsubscribe.IH [OF rangeI])
  then show ?case using e by simp
qed

text \<open>So it is by the loop of \<open>emit\<close>, if each call of a registered listener keeps it.\<close>

lemma emit_loop_preserves:
  assumes inv: "\<And>l s. P s \<Longrightarrow> l \<in> set (listeners s event) \<Longrightarrow> P (snd (invoke em event l data s))"
  shows "P st \<Longrightarrow> P (snd (emit_loop em event data k len st))"
proof (induction "len - k" arbitrary: k st)
  case 0
  then show ?case by (simp add: emit_loop.simps)
next
  case (Suc m)
  then have less: "k < len" and m: "m = len - Suc k" by simp_all
  show ?case
  proof (cases "k < length (listeners st event)")
    case False
    have "P (snd (emit_loop em event data (Suc k) len st))"
      using m Suc.prems by (rule Suc.hyps(1))
    then show ?thesis using less False by (simp add: emit_loop.simps [of em event data k])
  next
    case True
    obtain r st' where i: "invoke em event (listeners st event ! k) data st = (r, st')"
      by (cases "invoke em event (listeners st event ! k) data st")
    have "listeners st event ! k \<in> set (listeners st event)" using True by simp
    from inv [OF Suc.prems this] i have st': "P st'" by simp
    show ?thesis
    proof (cases r)
      case None
      have "P (snd (emit_loop em event data (Suc k) len st'))"
        using m st' by (rule Suc.hyps(1))
      then show ?thesis using less True i None by (simp add: emit_loop.simps [of em event data k])
    next
      case (Some e)
      then show ?thesis using less True i st' by (simp add: emit_loop.simps [of em event data k])
    qed
  qed
qed

subsection \<open>A body that is quiet\<close>

text \<open>
  A quiet body returns, logs no call, and keeps what its steps keep, whatever \<open>emit\<close>
  would do: it does not call it.
\<close>

lemma exec_quiet:
  assumes upd: "\<And>s w. P s \<Longrightarrow> P (s\<lparr>outside := w\<rparr>)"
    and onP: "\<And>s e n f. P s \<Longrightarrow> P (snd (on e (Plain n f) s))"
    and onceP: "\<And>s e f. P s \<Longrightarrow> P (snd (once e f s))"
    and unsubP: "\<And>s h. P s \<Longrightarrow> P (snd (unsubscribe h s))"
  shows "quiet p \<Longrightarrow> P st \<Longrightarrow> fst (exec em p st) = None \<and> P (snd (exec em p st))"
proof (induction p arbitrary: st)
  case Return
  then show ?case by simp
next
  case (Throw e)
  then show ?case by simp
next
  case (Local f g)
  have "P (st\<lparr>outside := f (outside st)\<rparr>)" using Local.prems(2) by (rule upd)
  moreover have "quiet (g (outside st))" using Local.prems(1) by simp
  ultimately have "fst (exec em (g (outside st)) (st\<lparr>outside := f (outside st)\<rparr>)) = None
      \<and> P (snd (exec em (g (outside st)) (st\<lparr>outside := f (outside st)\<rparr>)))"
    by (intro Local.IH [OF rangeI])
  then show ?case by simp
next
  case (CallEmit event data g)
  then show ?case by simp
next
  case (CallOn event n f p)
  have "P (snd (on event (Plain n f) st))" using CallOn.prems(2) by (rule onP)
  moreover have "quiet p" using CallOn.prems(1) by simp
  ultimately have "fst (exec em p (snd (on event (Plain n f) st))) = None
      \<and> P (snd (exec em p (snd (on event (Plain n f) st))))"
    by (intro CallOn.IH(2))
  then show ?case by simp
next
  case (CallOnce event f g)
  obtain h st' where e: "once event f st = (h, st')" by (cases "once event f st")
  have "P st'" using onceP [OF CallOnce.prems(2), of event f] e by simp
  moreover have "quiet (g h)" using CallOnce.prems(1) by (cases h) simp
  ultimately have "fst (exec em (g h) st') = None \<and> P (snd (exec em (g h) st'))"
    by (intro CallOnce.IH(2) [OF rangeI])
  then show ?case using e by simp
next
  case (CallUnsubscribe h g)
  obtain r st' where e: "unsubscribe h st = (r, st')" by (cases "unsubscribe h st")
  have "P st'" using unsubP [OF CallUnsubscribe.prems(2), of h] e by simp
  moreover have "quiet (g r)" using CallUnsubscribe.prems(1) by simp
  ultimately have "fst (exec em (g r) st') = None \<and> P (snd (exec em (g r) st'))"
    by (intro CallUnsubscribe.IH [OF rangeI])
  then show ?case using e by simp
qed

subsection \<open>Wrapper identities stay known\<close>

lemma wrappers_known_events_update:
  assumes known: "wrappers_known st"
    and sub: "\<And>k g. Wrapper k g \<in> set cbs' \<Longrightarrow> k < wrappers_made st"
  shows "wrappers_known (st\<lparr>events := (events st)(e \<mapsto> cbs')\<rparr>)"
  unfolding wrappers_known_def
proof (intro conjI allI impI)
  fix e' cbs k g
  assume ev: "events (st\<lparr>events := (events st)(e \<mapsto> cbs')\<rparr>) e' = Some cbs"
    and mem: "Wrapper k g \<in> set cbs"
  show "k < wrappers_made (st\<lparr>events := (events st)(e \<mapsto> cbs')\<rparr>)"
  proof (cases "e' = e")
    case True
    with ev have "cbs = cbs'" by simp
    with mem sub show ?thesis by simp
  next
    case False
    with ev have "events st e' = Some cbs" by simp
    with mem known show ?thesis unfolding wrappers_known_def by auto
  qed
next
  fix k
  assume "OnceWrapper k \<in> set (calls (st\<lparr>events := (events st)(e \<mapsto> cbs')\<rparr>))"
  with known show "k < wrappers_made (st\<lparr>events := (events st)(e \<mapsto> cbs')\<rparr>)"
    unfolding wrappers_known_def by simp
qed

lemma wrappers_known_listeners:
  "wrappers_known st \<Longrightarrow> Wrapper k g \<in> set (listeners st e) \<Longrightarrow> k < wrappers_made st"
  unfolding wrappers_known_def using listeners_member by blast

lemma wrappers_known_outside:
  "wrappers_known st \<Longrightarrow> wrappers_known (st\<lparr>outside := w\<rparr>)"
  by (simp add: wrappers_known_def)

lemma wrappers_known_unsubscribe:
  assumes "wrappers_known st"
  shows "wrappers_known (snd (unsubscribe h st))"
proof (cases "events st (fst h)")
  case None
  then show ?thesis using assms by (simp add: unsubscribe_def)
next
  case (Some cbs)
  have "wrappers_known (st\<lparr>events := (events st)(fst h \<mapsto> remove_first (snd h) cbs)\<rparr>)"
  proof (rule wrappers_known_events_update [OF assms])
    fix k g assume "Wrapper k g \<in> set (remove_first (snd h) cbs)"
    then have "Wrapper k g \<in> set cbs" using set_remove_first by fastforce
    with Some assms show "k < wrappers_made st" unfolding wrappers_known_def by blast
  qed
  then show ?thesis using Some by (simp add: unsubscribe_def)
qed

lemma wrappers_known_on_Plain:
  assumes "wrappers_known st"
  shows "wrappers_known (snd (on e (Plain n f) st))"
proof -
  have "wrappers_known (st\<lparr>events := (events st)(e \<mapsto> listeners st e @ [Plain n f])\<rparr>)"
  proof (rule wrappers_known_events_update [OF assms])
    fix k g assume "Wrapper k g \<in> set (listeners st e @ [Plain n f])"
    then have "Wrapper k g \<in> set (listeners st e)" by simp
    then show "k < wrappers_made st" by (rule wrappers_known_listeners [OF assms])
  qed
  then show ?thesis by (simp add: on_def)
qed

lemma wrappers_known_more_made:
  "wrappers_known st \<Longrightarrow> wrappers_known (st\<lparr>wrappers_made := Suc (wrappers_made st)\<rparr>)"
  unfolding wrappers_known_def by (auto simp: less_Suc_eq)

lemma wrappers_known_once:
  assumes "wrappers_known st"
  shows "wrappers_known (snd (once e f st))"
proof -
  define st1 where "st1 = st\<lparr>wrappers_made := Suc (wrappers_made st)\<rparr>"
  have k1: "wrappers_known st1" unfolding st1_def using assms by (rule wrappers_known_more_made)
  have "wrappers_known (st1\<lparr>events := (events st1)(e \<mapsto> listeners st1 e @ [Wrapper (wrappers_made st) f])\<rparr>)"
  proof (rule wrappers_known_events_update [OF k1])
    fix k g assume "Wrapper k g \<in> set (listeners st1 e @ [Wrapper (wrappers_made st) f])"
    then consider "Wrapper k g \<in> set (listeners st1 e)" | "k = wrappers_made st" by auto
    then show "k < wrappers_made st1"
    proof cases
      case 1
      then show ?thesis by (rule wrappers_known_listeners [OF k1])
    next
      case 2
      then show ?thesis by (simp add: st1_def)
    qed
  qed
  then show ?thesis by (simp add: once_def on_def st1_def)
qed

lemma wrappers_known_log:
  assumes "wrappers_known st" and "l \<in> set (listeners st e)"
  shows "wrappers_known (st\<lparr>calls := calls st @ [ident l]\<rparr>)"
proof (cases l)
  case (Plain n f)
  with assms(1) show ?thesis by (simp add: wrappers_known_def)
next
  case (Wrapper k g)
  with assms have "k < wrappers_made st" using wrappers_known_listeners by blast
  with assms(1) Wrapper show ?thesis by (auto simp add: wrappers_known_def)
qed

lemma wrappers_known_invoke:
  assumes em: "\<And>e d s. wrappers_known s \<Longrightarrow> wrappers_known (snd (em e d s))"
    and known: "wrappers_known st" and mem: "l \<in> set (listeners st event)"
  shows "wrappers_known (snd (invoke em event l data st))"
proof -
  have logged: "wrappers_known (st\<lparr>calls := calls st @ [ident l]\<rparr>)"
    using known mem by (rule wrappers_known_log)
  have body: "wrappers_known (snd (exec em p (st\<lparr>calls := calls st @ [ident l]\<rparr>)))" for p
    using em wrappers_known_outside wrappers_known_on_Plain wrappers_known_once
      wrappers_known_unsubscribe logged
    by (rule exec_preserves)
  show ?thesis
  proof (cases l)
    case (Plain n f)
    with body [of "f data"] show ?thesis by simp
  next
    case (Wrapper k g)
    obtain r st' where e: "exec em (g data) (st\<lparr>calls := calls st @ [OnceWrapper k]\<rparr>) = (r, st')"
      by (cases "exec em (g data) (st\<lparr>calls := calls st @ [OnceWrapper k]\<rparr>)")
    with body [of "g data"] Wrapper have st': "wrappers_known st'" by simp
    show ?thesis
    proof (cases r)
      case None
      with Wrapper e wrappers_known_unsubscribe [OF st', of "(event, OnceWrapper k)"] show ?thesis by simp
    next
      case (Some err)
      with Wrapper e st' show ?thesis by simp
    qed
  qed
qed

lemma wrappers_known_emit:
  fixes st :: "('d, 'w) emitter_state"
  shows "wrappers_known st \<Longrightarrow> wrappers_known (snd (emit stack event data st))"
proof (induction stack arbitrary: event data st)
  case 0
  then show ?case by simp
next
  case (Suc stack)
  have "wrappers_known (snd (emit_loop (emit stack) event data 0 (length (listeners st event)) st))"
  proof (rule emit_loop_preserves [where P = wrappers_known, OF _ Suc.prems])
    fix l :: "('d, 'w) listener" and s :: "('d, 'w) emitter_state"
    assume "wrappers_known s" and "l \<in> set (listeners s event)"
    with Suc.IH show "wrappers_known (snd (invoke (emit stack) event l data s))"
      by (intro wrappers_known_invoke)
  qed
  then show ?case by simp
qed

lemma wrappers_known_exec:
  "wrappers_known st \<Longrightarrow> wrappers_known (snd (exec (emit stack) p st))"
  using wrappers_known_emit wrappers_known_outside wrappers_known_on_Plain wrappers_known_once
    wrappers_known_unsubscribe
  by (rule exec_preserves)

lemma wrappers_known_new: "wrappers_known (new_EventEmitter w)"
  by (simp add: wrappers_known_def new_EventEmitter_def)

subsection \<open>The wrapper made by once stays registered at most once\<close>

lemma registered_events_update:
  assumes reg: "registered ev k cb st"
    and mem: "\<And>g. Wrapper k g \<in> set cbs' \<Longrightarrow> e = ev \<and> g = cb"
    and occ: "e = ev \<Longrightarrow> occurrences (OnceWrapper k) cbs' \<le> occurrences (OnceWrapper k) (listeners st ev)"
  shows "registered ev k cb (st\<lparr>events := (events st)(e \<mapsto> cbs')\<rparr>)"
    and "occurrences (OnceWrapper k) (listeners (st\<lparr>events := (events st)(e \<mapsto> cbs')\<rparr>) ev)
          \<le> occurrences (OnceWrapper k) (listeners st ev)"
proof -
  show le: "occurrences (OnceWrapper k) (listeners (st\<lparr>events := (events st)(e \<mapsto> cbs')\<rparr>) ev)
          \<le> occurrences (OnceWrapper k) (listeners st ev)"
    using occ by (cases "e = ev") (simp_all add: listeners_events_update)
  show "registered ev k cb (st\<lparr>events := (events st)(e \<mapsto> cbs')\<rparr>)"
    unfolding registered_def
  proof (intro conjI allI impI)
    show "k < wrappers_made (st\<lparr>events := (events st)(e \<mapsto> cbs')\<rparr>)"
      using reg by (simp add: registered_def)
  next
    fix e' cbs g
    assume ev: "events (st\<lparr>events := (events st)(e \<mapsto> cbs')\<rparr>) e' = Some cbs"
      and m: "Wrapper k g \<in> set cbs"
    have "e' = ev \<and> g = cb"
    proof (cases "e' = e")
      case True
      with ev have "cbs = cbs'" by simp
      with m mem True show ?thesis by simp
    next
      case False
      with ev have "events st e' = Some cbs" by simp
      with m reg show ?thesis unfolding registered_def by blast
    qed
    then show "e' = ev" and "g = cb" by simp_all
  next
    have "occurrences (OnceWrapper k) (listeners st ev) \<le> 1"
      using reg by (simp add: registered_def)
    with le show "occurrences (OnceWrapper k) (listeners (st\<lparr>events := (events st)(e \<mapsto> cbs')\<rparr>) ev) \<le> 1"
      by simp
  qed
qed

lemma registered_listeners:
  "registered ev k cb st \<Longrightarrow> Wrapper k g \<in> set (listeners st e) \<Longrightarrow> e = ev \<and> g = cb"
  unfolding registered_def using listeners_member by blast

text \<open>
  Each step that a body can take keeps the wrapper registered as it should be, logs
  nothing, and does not add a registration of it.
\<close>

lemma registered_outside:
  assumes "registered ev k cb st"
  shows "registered ev k cb (st\<lparr>outside := w\<rparr>)"
  using assms by (simp add: registered_def)

lemma registered_calls:
  assumes "registered ev k cb st"
  shows "registered ev k cb (st\<lparr>calls := c\<rparr>)"
  using assms by (simp add: registered_def)

lemma registered_unsubscribe:
  assumes "registered ev k cb st"
  shows "registered ev k cb (snd (unsubscribe h st))"
    and "calls (snd (unsubscribe h st)) = calls st"
    and "occurrences (OnceWrapper k) (listeners (snd (unsubscribe h st)) ev)
          \<le> occurrences (OnceWrapper k) (listeners st ev)"
proof -
  show "calls (snd (unsubscribe h st)) = calls st"
    by (cases "events st (fst h)") (simp_all add: unsubscribe_def)
  have both: "registered ev k cb (snd (unsubscribe h st))
      \<and> occurrences (OnceWrapper k) (listeners (snd (unsubscribe h st)) ev)
          \<le> occurrences (OnceWrapper k) (listeners st ev)"
  proof (cases "events st (fst h)")
    case None
    then show ?thesis using assms by (simp add: unsubscribe_def)
  next
    case (Some cbs)
    have m: "fst h = ev \<and> g = cb" if "Wrapper k g \<in> set (remove_first (snd h) cbs)" for g
    proof -
      from that have "Wrapper k g \<in> set (listeners st (fst h))"
        using set_remove_first Some by (fastforce simp: listeners_Some)
      then show ?thesis by (rule registered_listeners [OF assms])
    qed
    have o: "occurrences (OnceWrapper k) (remove_first (snd h) cbs)
        \<le> occurrences (OnceWrapper k) (listeners st ev)" if "fst h = ev"
    proof -
      from that have "listeners st ev = cbs" using Some by (simp add: listeners_Some)
      then show ?thesis by (simp add: occurrences_remove_first_le)
    qed
    from registered_events_update [OF assms m o] Some
    show ?thesis by (simp add: unsubscribe_def)
  qed
  then show "registered ev k cb (snd (unsubscribe h st))"
    and "occurrences (OnceWrapper k) (listeners (snd (unsubscribe h st)) ev)
          \<le> occurrences (OnceWrapper k) (listeners st ev)"
    by simp_all
qed

lemma registered_on_Plain:
  assumes "registered ev k cb st"
  shows "registered ev k cb (snd (on e (Plain n f) st))"
    and "calls (snd (on e (Plain n f) st)) = calls st"
    and "occurrences (OnceWrapper k) (listeners (snd (on e (Plain n f) st)) ev)
          \<le> occurrences (OnceWrapper k) (listeners st ev)"
proof -
  have m: "e = ev \<and> g = cb" if "Wrapper k g \<in> set (listeners st e @ [Plain n f])" for g
  proof -
    from that have "Wrapper k g \<in> set (listeners st e)" by simp
    then show ?thesis by (rule registered_listeners [OF assms])
  qed
  have o: "occurrences (OnceWrapper k) (listeners st e @ [Plain n f])
      \<le> occurrences (OnceWrapper k) (listeners st ev)" if "e = ev"
    using that by (simp add: occurrences_def)
  from registered_events_update [OF assms m o]
  show "registered ev k cb (snd (on e (Plain n f) st))"
    and "occurrences (OnceWrapper k) (listeners (snd (on e (Plain n f) st)) ev)
          \<le> occurrences (OnceWrapper k) (listeners st ev)"
    by (simp_all add: on_def)
  show "calls (snd (on e (Plain n f) st)) = calls st" by (simp add: on_def)
qed

lemma registered_more_made:
  "registered ev k cb st \<Longrightarrow> registered ev k cb (st\<lparr>wrappers_made := Suc (wrappers_made st)\<rparr>)"
  unfolding registered_def by (simp add: less_Suc_eq)

lemma registered_once:
  assumes "registered ev k cb st"
  shows "registered ev k cb (snd (once e f st))"
    and "calls (snd (once e f st)) = calls st"
    and "occurrences (OnceWrapper k) (listeners (snd (once e f st)) ev)
          \<le> occurrences (OnceWrapper k) (listeners st ev)"
proof -
  define st1 where "st1 = st\<lparr>wrappers_made := Suc (wrappers_made st)\<rparr>"
  have r1: "registered ev k cb st1" unfolding st1_def using assms by (rule registered_more_made)
  have ne: "wrappers_made st \<noteq> k" using assms by (simp add: registered_def)
  have l1: "listeners st1 = listeners st" by (simp add: st1_def)
  have m: "e = ev \<and> g = cb" if "Wrapper k g \<in> set (listeners st1 e @ [Wrapper (wrappers_made st) f])" for g
  proof -
    from that ne have "Wrapper k g \<in> set (listeners st1 e)" by auto
    then show ?thesis by (rule registered_listeners [OF r1])
  qed
  have o: "occurrences (OnceWrapper k) (listeners st1 e @ [Wrapper (wrappers_made st) f])
      \<le> occurrences (OnceWrapper k) (listeners st1 ev)" if "e = ev"
    using that ne by (simp add: occurrences_def)
  have eq: "snd (once e f st) = st1\<lparr>events := (events st1)(e \<mapsto> listeners st1 e @ [Wrapper (wrappers_made st) f])\<rparr>"
    by (simp add: once_def on_def st1_def)
  from registered_events_update [OF r1 m o] l1
  show "registered ev k cb (snd (once e f st))"
    and "occurrences (OnceWrapper k) (listeners (snd (once e f st)) ev)
          \<le> occurrences (OnceWrapper k) (listeners st ev)"
    unfolding eq by simp_all
  show "calls (snd (once e f st)) = calls st" by (simp add: once_def on_def)
qed

subsection \<open>The wrapper made by once is invoked at most once\<close>

lemma tracked_step:
  assumes "tracked ev k cb st" and "registered ev k cb st'" and "calls st' = calls st"
    and "occurrences (OnceWrapper k) (listeners st' ev) \<le> occurrences (OnceWrapper k) (listeners st ev)"
  shows "tracked ev k cb st'"
  using assms by (simp add: tracked_def)

lemma tracked_outside:
  "tracked ev k cb st \<Longrightarrow> tracked ev k cb (st\<lparr>outside := w\<rparr>)"
  by (simp add: tracked_def registered_outside)

lemma tracked_on_Plain:
  assumes "tracked ev k cb st"
  shows "tracked ev k cb (snd (on e (Plain n f) st))"
proof -
  from assms have r: "registered ev k cb st" by (simp add: tracked_def)
  show ?thesis
    by (rule tracked_step [OF assms registered_on_Plain [OF r]])
qed

lemma tracked_once:
  assumes "tracked ev k cb st"
  shows "tracked ev k cb (snd (once e f st))"
proof -
  from assms have r: "registered ev k cb st" by (simp add: tracked_def)
  show ?thesis
    by (rule tracked_step [OF assms registered_once [OF r]])
qed

lemma tracked_unsubscribe:
  assumes "tracked ev k cb st"
  shows "tracked ev k cb (snd (unsubscribe h st))"
proof -
  from assms have r: "registered ev k cb st" by (simp add: tracked_def)
  show ?thesis
    by (rule tracked_step [OF assms registered_unsubscribe [OF r]])
qed

lemma tracked_log_other:
  assumes "tracked ev k cb st" and "i \<noteq> OnceWrapper k"
  shows "tracked ev k cb (st\<lparr>calls := calls st @ [i]\<rparr>)"
  using assms by (simp add: tracked_def registered_calls)

text \<open>
  The step that matters: the tracked wrapper itself is invoked. Its callback is quiet, so
  no listener runs before the callback returns; the call is logged once and the
  \<open>unsubscribe()\<close> that follows takes the only registration away, if the callback has not
  done so itself.
\<close>

lemma tracked_invoke_self:
  assumes tr: "tracked ev k cb st" and mem: "Wrapper k cb \<in> set (listeners st ev)"
    and quiet: "quiet (cb data)"
  shows "tracked ev k cb (snd (invoke em ev (Wrapper k cb) data st))"
proof -
  define c where "c = calls st @ [OnceWrapper k]"
  define P where "P = (\<lambda>s. registered ev k cb s \<and> calls s = c)"
  from occurrences_member [OF mem] have "0 < occurrences (OnceWrapper k) (listeners st ev)" by simp
  with tr have cnt: "count_list (calls st) (OnceWrapper k) = 0" by (simp add: tracked_def)
  have start: "P (st\<lparr>calls := c\<rparr>)"
    using tr by (simp add: P_def tracked_def registered_calls)
  have "fst (exec em (cb data) (st\<lparr>calls := c\<rparr>)) = None \<and> P (snd (exec em (cb data) (st\<lparr>calls := c\<rparr>)))"
  proof (rule exec_quiet [where P = P, OF _ _ _ _ quiet start])
    show "\<And>s w. P s \<Longrightarrow> P (s\<lparr>outside := w\<rparr>)" by (simp add: P_def registered_outside)
    show "\<And>s e n f. P s \<Longrightarrow> P (snd (on e (Plain n f) s))"
      by (simp add: P_def registered_on_Plain(1) calls_on)
    show "\<And>s e f. P s \<Longrightarrow> P (snd (once e f s))"
      by (simp add: P_def registered_once(1) calls_once)
    show "\<And>s h. P s \<Longrightarrow> P (snd (unsubscribe h s))"
      by (simp add: P_def registered_unsubscribe(1) calls_unsubscribe)
  qed
  then obtain st' where run: "exec em (cb data) (st\<lparr>calls := c\<rparr>) = (None, st')"
    and reg: "registered ev k cb st'" and log: "calls st' = c"
    by (cases "exec em (cb data) (st\<lparr>calls := c\<rparr>)") (simp add: P_def)
  define st'' where "st'' = snd (unsubscribe (ev, OnceWrapper k) st')"
  have inv: "invoke em ev (Wrapper k cb) data st = unsubscribe (ev, OnceWrapper k) st'"
    using run by (simp add: c_def)
  have reg'': "registered ev k cb st''" and log'': "calls st'' = c"
    unfolding st''_def using reg log by (simp_all add: registered_unsubscribe(1) calls_unsubscribe)
  have gone: "occurrences (OnceWrapper k) (listeners st'' ev) = 0"
  proof (cases "events st' ev")
    case None
    then show ?thesis by (simp add: st''_def unsubscribe_def listeners_def occurrences_def)
  next
    case (Some cbs)
    then have "listeners st' ev = cbs" by (simp add: listeners_Some)
    with reg have "occurrences (OnceWrapper k) cbs \<le> 1" by (simp add: registered_def)
    with Some show ?thesis
      by (simp add: st''_def unsubscribe_def listeners_events_update occurrences_remove_first_same)
  qed
  have "count_list (calls st'') (OnceWrapper k) = 1"
    using log'' cnt by (simp add: c_def)
  with reg'' gone have "tracked ev k cb st''" by (simp add: tracked_def)
  then show ?thesis unfolding inv st''_def .
qed

lemma tracked_invoke:
  assumes em: "\<And>e d s. tracked ev k cb s \<Longrightarrow> tracked ev k cb (snd (em e d s))"
    and quiet: "\<And>d. quiet (cb d)"
    and tr: "tracked ev k cb st" and mem: "l \<in> set (listeners st event)"
  shows "tracked ev k cb (snd (invoke em event l data st))"
proof (cases "l = Wrapper k cb \<and> event = ev")
  case True
  with tracked_invoke_self [OF tr _ quiet, where data = data and em = em] mem show ?thesis by simp
next
  case False
  have other: "ident l \<noteq> OnceWrapper k"
  proof
    assume "ident l = OnceWrapper k"
    then obtain g where l: "l = Wrapper k g" by (cases l) simp_all
    with mem tr have "event = ev \<and> g = cb"
      using registered_listeners [of ev k cb st g event] by (simp add: tracked_def)
    with l False show False by simp
  qed
  have logged: "tracked ev k cb (st\<lparr>calls := calls st @ [ident l]\<rparr>)"
    using tr other by (rule tracked_log_other)
  have body: "tracked ev k cb (snd (exec em p (st\<lparr>calls := calls st @ [ident l]\<rparr>)))" for p
    using em tracked_outside tracked_on_Plain tracked_once tracked_unsubscribe logged
    by (rule exec_preserves)
  show ?thesis
  proof (cases l)
    case (Plain n f)
    with body [of "f data"] show ?thesis by simp
  next
    case (Wrapper j g)
    obtain r st' where e: "exec em (g data) (st\<lparr>calls := calls st @ [OnceWrapper j]\<rparr>) = (r, st')"
      by (cases "exec em (g data) (st\<lparr>calls := calls st @ [OnceWrapper j]\<rparr>)")
    with body [of "g data"] Wrapper have st': "tracked ev k cb st'" by simp
    show ?thesis
    proof (cases r)
      case None
      with Wrapper e tracked_unsubscribe [OF st', of "(event, OnceWrapper j)"] show ?thesis by simp
    next
      case (Some err)
      with Wrapper e st' show ?thesis by simp
    qed
  qed
qed

lemma tracked_emit:
  fixes st :: "('d, 'w) emitter_state"
  assumes quiet: "\<And>d. quiet (cb d)"
  shows "tracked ev k cb st \<Longrightarrow> tracked ev k cb (snd (emit stack event data st))"
proof (induction stack arbitrary: event data st)
  case 0
  then show ?case by simp
next
  case (Suc stack)
  have "tracked ev k cb (snd (emit_loop (emit stack) event data 0 (length (listeners st event)) st))"
  proof (rule emit_loop_preserves [where P = "tracked ev k cb", OF _ Suc.prems])
    fix l :: "('d, 'w) listener" and s :: "('d, 'w) emitter_state"
    assume "tracked ev k cb s" and "l \<in> set (listeners s event)"
    with Suc.IH quiet show "tracked ev k cb (snd (invoke (emit stack) event l data s))"
      by (intro tracked_invoke)
  qed
  then show ?case by simp
qed

lemma tracked_exec:
  assumes quiet: "\<And>d. quiet (cb d)"
  shows "tracked ev k cb st \<Longrightarrow> tracked ev k cb (snd (exec (emit stack) p st))"
  using tracked_emit [OF quiet] tracked_outside tracked_on_Plain tracked_once tracked_unsubscribe
  by (rule exec_preserves)

text \<open>Right after \<open>once\<close>, in a state reached from a new emitter, the new wrapper is tracked.\<close>

lemma tracked_after_once:
  assumes known: "wrappers_known st"
  shows "tracked ev (wrappers_made st) cb (snd (once ev cb st))"
proof -
  define k where "k = wrappers_made st"
  have no_old: "\<And>e g. Wrapper k g \<notin> set (listeners st e)"
    using wrappers_known_listeners [OF known] by (auto simp add: k_def)
  have occ0: "occurrences (OnceWrapper k) (listeners st ev) = 0"
  proof (rule occurrences_none, rule ballI)
    fix l assume l: "l \<in> set (listeners st ev)"
    show "ident l \<noteq> OnceWrapper k"
    proof (cases l)
      case (Plain n f) then show ?thesis by simp
    next
      case (Wrapper j g)
      with l no_old [of g ev] show ?thesis by auto
    qed
  qed
  have cnt0: "count_list (calls st) (OnceWrapper k) = 0"
    using known unfolding wrappers_known_def k_def by (auto simp: count_list_0_iff)
  define st1 where "st1 = st\<lparr>wrappers_made := Suc k, events := (events st)(ev \<mapsto> listeners st ev @ [Wrapper k cb])\<rparr>"
  have eq: "snd (once ev cb st) = st1"
    by (simp add: once_def on_def listeners_def st1_def k_def)
  have l1: "listeners st1 ev = listeners st ev @ [Wrapper k cb]"
    by (simp add: st1_def listeners_def)
  have occ1: "occurrences (OnceWrapper k) (listeners st1 ev) = 1"
    using occ0 by (simp add: l1 occurrences_def)
  have reg: "registered ev k cb st1"
    unfolding registered_def
  proof (intro conjI allI impI)
    show "k < wrappers_made st1" by (simp add: st1_def)
  next
    fix e cbs g
    assume ev: "events st1 e = Some cbs" and m: "Wrapper k g \<in> set cbs"
    have "e = ev \<and> g = cb"
    proof (cases "e = ev")
      case True
      with ev have "cbs = listeners st ev @ [Wrapper k cb]" by (simp add: st1_def)
      with m no_old [of g ev] True show ?thesis by auto
    next
      case False
      with ev have "events st e = Some cbs" by (simp add: st1_def)
      with m no_old [of g e] show ?thesis by (simp add: listeners_Some)
    qed
    then show "e = ev" and "g = cb" by simp_all
  next
    show "occurrences (OnceWrapper k) (listeners st1 ev) \<le> 1" using occ1 by simp
  qed
  have "count_list (calls st1) (OnceWrapper k) = 0" using cnt0 by (simp add: st1_def)
  with reg occ1 have "tracked ev k cb st1" by (simp add: tracked_def)
  then show ?thesis by (simp add: eq k_def)
qed

lemma invoke_quiet_calls:
  assumes "quiet (cb data)"
  shows "calls (snd (invoke em ev (Wrapper k cb) data st)) = calls st @ [OnceWrapper k]"
proof -
  define c where "c = calls st @ [OnceWrapper k]"
  have "fst (exec em (cb data) (st\<lparr>calls := c\<rparr>)) = None
      \<and> calls (snd (exec em (cb data) (st\<lparr>calls := c\<rparr>))) = c"
    by (rule exec_quiet [where P = "\<lambda>s. calls s = c", OF _ _ _ _ assms])
      (simp_all add: calls_on calls_once calls_unsubscribe)
  then obtain st' where "exec em (cb data) (st\<lparr>calls := c\<rparr>) = (None, st')" and "calls st' = c"
    by (cases "exec em (cb data) (st\<lparr>calls := c\<rparr>)") simp
  then show ?thesis by (simp add: c_def calls_unsubscribe)
qed

subsection \<open>The demo and the claim\<close>

lemmas emitter_eval =
  new_EventEmitter_def on_def once_def emit_loop.simps listeners_def unsubscribe_def Let_def

lemma observer_run_result:
  "\<exists>st. observer_run (Suc stack) = Inr st
        \<and> outside st = [''System started (one-time event)'', ''User John logged in'', ''User John logged out'']
        \<and> calls st = [OnceWrapper 0, Named 0, Named 1]"
  by (simp add: observer_run_def emitter_eval on_login_def on_logout_def on_startup_def member_def)

lemma observerPattern_output:
  "observerPattern =
     Inr ([CHR 0xF0, CHR 0x9F, CHR 0x91, CHR 0x81, CHR 0xEF, CHR 0xB8, CHR 0x8F] @ '' Observer Pattern:'' @ nl
          @ ''Events fired: 3'' @ nl
          @ ''Messages:'' @ nl
          @ [CHR 0xE2, CHR 0x80, CHR 0xA2] @ '' System started (one-time event)'' @ nl
          @ [CHR 0xE2, CHR 0x80, CHR 0xA2] @ '' User John logged in'' @ nl
          @ [CHR 0xE2, CHR 0x80, CHR 0xA2] @ '' User John logged out'')"
proof -
  have "call_stack_size = Suc 9999" by (simp add: call_stack_size_def)
  with observer_run_result [of 9999] obtain st where
    run: "observer_run call_stack_size = Inr st" and
    msgs: "outside st = [''System started (one-time event)'', ''User John logged in'', ''User John logged out'']"
    by auto
  show ?thesis
    by (simp add: observerPattern_def run msgs string_of_int_def string_of_nat.simps)
qed

text \<open>
  A callback that, the first time it runs, emits its own event before it returns: the
  wrapper is still registered then, so the one \<open>emit\<close> from outside invokes it twice, and
  both calls return normally.
\<close>

lemma once_reentrant_callback_invoked_twice:
  "fst (emit (Suc (Suc 0)) ''e'' () (snd (once ''e'' emit_again (new_EventEmitter 0)))) = None
   \<and> calls (snd (emit (Suc (Suc 0)) ''e'' () (snd (once ''e'' emit_again (new_EventEmitter 0)))))
       = [OnceWrapper 0, OnceWrapper 0]"
  by (simp add: emitter_eval emit_again_def)

text \<open>
  Claim C10 as stated fails: a callback registered with \<open>once\<close> that throws is not
  unsubscribed (the wrapper's \<open>unsubscribe()\<close> comes after \<open>callback(data)\<close>), so the next
  \<open>emit\<close> of the event invokes it again. Here it is invoked twice.
\<close>

theorem once_throwing_callback_invoked_twice:
  "count_list
     (calls (snd (emit (Suc 0) ''e'' ()
        (snd (emit (Suc 0) ''e'' () (snd (once ''e'' always_throws (new_EventEmitter 0))))))))
     (OnceWrapper 0) = 2"
  by (simp add: emitter_eval always_throws_def)

text \<open>
  Claim C10, amended. Take an emitter that is used through \<open>on\<close>, \<open>once\<close>, \<open>emit\<close> and
  the unsubscribe functions only, in any state reached from a new one by such code, with
  any listeners, which may throw and may call the emitter themselves. Register with \<open>once\<close>
  a callback that, whatever it is given and whatever state it finds, returns normally and
  does not call \<open>emit\<close> while it runs. Then, whatever code follows, the
  callback is invoked at most once, and once it has been invoked it is no longer registered,
  so no later \<open>emit\<close> invokes it. On a new emitter, the \<open>emit\<close> that follows the \<open>once\<close> runs
  such a callback once and leaves it unsubscribed. In the demo the run ends with exactly
  three recorded messages, the one-time listener having run once. (\<open>stack\<close> is the room on
  the call stack, any number.)
\<close>

theorem once_quiet_callback_invoked_at_most_once:
  "((\<forall>d. quiet (callback d)) \<longrightarrow>
      (let st0 = snd (exec (emit stack) before (new_EventEmitter w0));
           k = wrappers_made st0;
           st = snd (exec (emit stack) after (snd (once event callback st0)))
       in count_list (calls st) (OnceWrapper k) \<le> 1
          \<and> (count_list (calls st) (OnceWrapper k) = 1 \<longrightarrow>
               occurrences (OnceWrapper k) (listeners st event) = 0)))
   \<and> (quiet (callback d) \<longrightarrow>
        (let st = snd (emit (Suc stack) event d (snd (once event callback (new_EventEmitter w0))))
         in calls st = [OnceWrapper 0] \<and> occurrences (OnceWrapper 0) (listeners st event) = 0))
   \<and> (\<exists>st. observer_run (Suc stack) = Inr st
        \<and> outside st = [''System started (one-time event)'', ''User John logged in'', ''User John logged out'']
        \<and> count_list (calls st) (OnceWrapper 0) = 1)"
proof (intro conjI impI)
  assume "\<forall>d. quiet (callback d)"
  then have quiet: "\<And>d. quiet (callback d)" by simp
  define st0 where "st0 = snd (exec (emit stack) before (new_EventEmitter w0))"
  define k where "k = wrappers_made st0"
  define st where "st = snd (exec (emit stack) after (snd (once event callback st0)))"
  have "wrappers_known st0"
    unfolding st0_def by (intro wrappers_known_exec wrappers_known_new)
  then have "tracked event k callback (snd (once event callback st0))"
    unfolding k_def by (rule tracked_after_once)
  then have "tracked event k callback st"
    unfolding st_def by (rule tracked_exec [OF quiet])
  then have "occurrences (OnceWrapper k) (listeners st event) + count_list (calls st) (OnceWrapper k) \<le> 1"
    by (simp add: tracked_def)
  then have "count_list (calls st) (OnceWrapper k) \<le> 1
      \<and> (count_list (calls st) (OnceWrapper k) = 1 \<longrightarrow> occurrences (OnceWrapper k) (listeners st event) = 0)"
    by simp
  then show "let st0 = snd (exec (emit stack) before (new_EventEmitter w0));
           k = wrappers_made st0;
           st = snd (exec (emit stack) after (snd (once event callback st0)))
       in count_list (calls st) (OnceWrapper k) \<le> 1
          \<and> (count_list (calls st) (OnceWrapper k) = 1 \<longrightarrow>
               occurrences (OnceWrapper k) (listeners st event) = 0)"
    by (simp add: st0_def k_def st_def Let_def)
next
  assume quiet: "quiet (callback d)"
  define st1 where "st1 = snd (once event callback (new_EventEmitter w0 :: ('a, 'b) emitter_state))"
  define st2 where "st2 = snd (invoke (emit stack) event (Wrapper 0 callback) d st1)"
  have l1: "listeners st1 event = [Wrapper 0 callback]" and c1: "calls st1 = []"
    by (simp_all add: st1_def emitter_eval)
  have "tracked event (wrappers_made (new_EventEmitter w0 :: ('a, 'b) emitter_state)) callback st1"
    unfolding st1_def by (intro tracked_after_once wrappers_known_new)
  then have tr: "tracked event 0 callback st1" by (simp add: new_EventEmitter_def)
  have "tracked event 0 callback st2"
    unfolding st2_def using tr _ quiet by (rule tracked_invoke_self) (simp add: l1)
  moreover have c2: "calls st2 = [OnceWrapper 0]"
    unfolding st2_def
    using invoke_quiet_calls [where cb = callback and data = d and em = "emit stack" and ev = event
        and k = 0 and st = st1, OF quiet] c1
    by simp
  ultimately have gone: "occurrences (OnceWrapper 0) (listeners st2 event) = 0"
    by (simp add: tracked_def)
  have "snd (emit (Suc stack) event d st1) = st2"
  proof (cases "invoke (emit stack) event (Wrapper 0 callback) d st1")
    case (Pair r s)
    then show ?thesis
      by (cases r) (simp_all add: l1 st2_def emit_loop.simps [of _ _ _ 0] emit_loop.simps [of _ _ _ "Suc 0"])
  qed
  with c2 gone
  show "let st = snd (emit (Suc stack) event d (snd (once event callback (new_EventEmitter w0))))
         in calls st = [OnceWrapper 0] \<and> occurrences (OnceWrapper 0) (listeners st event) = 0"
    by (simp add: st1_def Let_def)
next
  from observer_run_result [of stack] obtain st where
    run: "observer_run (Suc stack) = Inr st" and
    msgs: "outside st = [''System started (one-time event)'', ''User John logged in'', ''User John logged out'']" and
    log: "calls st = [OnceWrapper 0, Named 0, Named 1]"
    by blast
  have once: "count_list (calls st) (OnceWrapper 0) = 1" by (simp add: log)
  show "\<exists>st. observer_run (Suc stack) = Inr st
        \<and> outside st = [''System started (one-time event)'', ''User John logged in'', ''User John logged out'']
        \<and> count_list (calls st) (OnceWrapper 0) = 1"
    using run msgs once by (intro exI [of _ st] conjI)
qed

theorem once_quiet_callback_invoked_at_most_once_witness:
  "(\<forall>d. quiet (count_up d))
   \<and> quiet (count_up ())
   \<and> (let st = snd (exec (emit (Suc (Suc 0))) emit_twice
                 (snd (once ''e'' count_up
                    (snd (exec (emit (Suc (Suc 0))) listen_again (new_EventEmitter 0))))))
      in calls st = [Named 0, Named 0, OnceWrapper 0, Named 0]
         \<and> count_list (calls st) (OnceWrapper 0) = 1
         \<and> occurrences (OnceWrapper 0) (listeners st ''e'') = 0
         \<and> outside st = 4)"
proof -
  have q: "\<forall>d. quiet (count_up d)" by (simp add: count_up_def)
  have k: "wrappers_made (snd (exec (emit (Suc (Suc 0))) listen_again (new_EventEmitter (0::nat)))) = 0"
    by (simp add: emitter_eval listen_again_def)
  have c: "calls (snd (exec (emit (Suc (Suc 0))) emit_twice
                 (snd (once ''e'' count_up
                    (snd (exec (emit (Suc (Suc 0))) listen_again (new_EventEmitter 0)))))))
             = [Named 0, Named 0, OnceWrapper 0, Named 0]"
    by (simp add: emitter_eval listen_again_def emit_twice_def emit_again_def count_up_def)
  have w: "outside (snd (exec (emit (Suc (Suc 0))) emit_twice
                 (snd (once ''e'' count_up
                    (snd (exec (emit (Suc (Suc 0))) listen_again (new_EventEmitter 0))))))) = 4"
    by (simp add: emitter_eval listen_again_def emit_twice_def emit_again_def count_up_def)
  from once_quiet_callback_invoked_at_most_once
         [of count_up "Suc (Suc 0)" listen_again 0 emit_twice "''e''" "()"]
       q k c w
  show ?thesis by (simp add: Let_def)
qed

section \<open>A debounced function runs once per burst\<close>

lemma advance_not_due:
  assumes "pending st = [(i, due, p)]" and "t < due"
  shows "advance fire t st = st\<lparr>clock := max (clock st) t\<rparr>"
  using assms by (simp add: advance_def)

lemma advance_due:
  assumes "pending st = [(i, due, p)]" and "due \<le> t"
  shows "advance fire t st = st\<lparr>clock := max (clock st) t, pending := [], vars := fire due p (vars st)\<rparr>"
  using assms by (simp add: advance_def)

lemma waiting_first_call:
  "waiting wait t a w (debounced (\<lambda>a. a) wait a (advance (run_func func) t (single_start w)))"
  by (simp add: waiting_def debounced_def advance_def single_start_def clearTimeout_def setTimeout_def)

lemma waiting_next_call:
  assumes "waiting wait t a w st" and "t \<le> u" and "u < t + wait"
  shows "waiting wait u b w (debounced (\<lambda>a. a) wait b (advance (run_func func) u st))"
proof -
  from assms(1) obtain i where p: "pending st = [(i, t + wait, a)]" and to: "timeout (vars st) = Some i"
    and c: "clock st = t" and r: "runs (vars st) = []" and w: "world (vars st) = w"
    by (auto simp: waiting_def)
  have adv: "advance (run_func func) u st = st\<lparr>clock := max (clock st) u\<rparr>"
    using p assms(3) by (rule advance_not_due)
  show ?thesis
    using p to c r w assms(2)
    by (simp add: adv waiting_def debounced_def clearTimeout_def setTimeout_def max_def)
qed

lemma waiting_calls_at:
  "waiting wait t a w st \<Longrightarrow> burst wait (t # map fst cs) \<Longrightarrow>
   waiting wait (fst (last ((t, a) # cs))) (snd (last ((t, a) # cs))) w (calls_at func wait cs st)"
proof (induction cs arbitrary: t a st)
  case Nil
  then show ?case by simp
next
  case (Cons c cs)
  obtain u b where c: "c = (u, b)" by (cases c)
  from Cons.prems(2) c have tu: "t \<le> u" "u < t + wait" and rest: "burst wait (u # map fst cs)"
    by simp_all
  have "waiting wait u b w (debounced (\<lambda>a. a) wait b (advance (run_func func) u st))"
    using Cons.prems(1) tu by (rule waiting_next_call)
  from Cons.IH [OF this rest] show ?case by (simp add: c)
qed

lemma waiting_from_start:
  assumes "cs \<noteq> []" and "burst wait (map fst cs)"
  shows "waiting wait (fst (last cs)) (snd (last cs)) w (calls_at func wait cs (single_start w))"
proof -
  from assms(1) obtain t a cs' where cs: "cs = (t, a) # cs'" by (cases cs) auto
  have "waiting wait t a w (debounced (\<lambda>a. a) wait a (advance (run_func func) t (single_start w)))"
    by (rule waiting_first_call)
  moreover have "burst wait (t # map fst cs')" using assms(2) cs by simp
  ultimately have "waiting wait (fst (last ((t, a) # cs'))) (snd (last ((t, a) # cs'))) w
      (calls_at func wait cs' (debounced (\<lambda>a. a) wait a (advance (run_func func) t (single_start w))))"
    by (rule waiting_calls_at)
  then show ?thesis by (simp add: cs)
qed

lemma waiting_before_due:
  assumes "waiting wait t a w st" and "T < t + wait"
  shows "runs (vars (advance (run_func func) T st)) = []
       \<and> world (vars (advance (run_func func) T st)) = w
       \<and> length (pending (advance (run_func func) T st)) = 1"
proof -
  from assms(1) obtain i where p: "pending st = [(i, t + wait, a)]"
    and r: "runs (vars st) = []" and w: "world (vars st) = w"
    by (auto simp: waiting_def)
  show ?thesis using p r w by (simp add: advance_not_due [OF p assms(2)])
qed

lemma waiting_when_due:
  assumes "waiting wait t a w st" and "t + wait \<le> T"
  shows "runs (vars (advance (run_func func) T st)) = [(t + wait, a)]
       \<and> world (vars (advance (run_func func) T st)) = func a w
       \<and> pending (advance (run_func func) T st) = []"
proof -
  from assms(1) obtain i where p: "pending st = [(i, t + wait, a)]"
    and r: "runs (vars st) = []" and w: "world (vars st) = w"
    by (auto simp: waiting_def)
  show ?thesis using r w by (simp add: advance_due [OF p assms(2)] run_func_def)
qed

text \<open>A call takes the timer of the previous call out of the pending timers.\<close>

lemma debounced_clears_previous:
  assumes "timeout (vars st) = Some i" and "i < next_timer st"
  shows "i \<notin> fst ` set (pending (debounced later wait args st))"
  using assms by (auto simp: debounced_def clearTimeout_def setTimeout_def)

lemma improvement_demo: "improvement (Suc 0) 50 = ''98''"
  by code_simp

lemma after_await_vars:
  "vars (after_await now) = \<lparr>timeout = Some 50, inThrottle = False, debounceCount = 1,
      throttleCount = 1, directCount = 50, resolved = True\<rparr>"
  by (simp add: after_await_def demo_start_def rapid_call_def throttledOperation_def
      debouncedOperation_def debounced_def expensiveOperation_def setTimeout_def clearTimeout_def
      advance_def upt_rec Let_def)

lemma debouncingThrottling_output:
  "debouncingThrottling now =
     Some ([CHR 0xE2, CHR 0x9A, CHR 0xA1] @ '' Debouncing & Throttling:'' @ nl
           @ ''Direct calls: 50'' @ nl
           @ ''Debounced calls: 1'' @ nl
           @ ''Throttled calls: 1'' @ nl
           @ ''Performance improvement: 98%'')"
  by (simp add: debouncingThrottling_def after_await_vars improvement_demo
      string_of_int_def string_of_nat.simps)

text \<open>
  Claim C6. In the timer model (whole milliseconds, synchronous code taking no time, due
  timers run in order of their due time):
  \<^item> a call of the wrapper made by \<open>debounce(func, wait)\<close> removes the timer the previous
    call has set from the pending timers;
  \<^item> for a burst of calls, each less than \<open>wait\<close> ms after the one before, \<open>func\<close> has not
    run at any time before \<open>wait\<close> ms have passed since the last call, and from then on it
    has run exactly once, at \<open>wait\<close> ms after the last call and with that call's arguments;
  \<^item> in the performance demo the method resumes after its \<open>await\<close> with 50 direct
    executions and exactly 1 debounced execution.
\<close>

theorem debounce_runs_once_per_burst:
  "(timeout (vars st) = Some i \<and> i < next_timer st \<longrightarrow>
      i \<notin> fst ` set (pending (debounced later wait args st)))
   \<and> (cs \<noteq> [] \<and> burst wait (map fst cs) \<longrightarrow>
        (let final = advance (run_func func) T (calls_at func wait cs (single_start w));
             t = fst (last cs);
             a = snd (last cs)
         in (T < t + wait \<longrightarrow> runs (vars final) = [] \<and> world (vars final) = w
                               \<and> length (pending final) = 1)
          \<and> (t + wait \<le> T \<longrightarrow> runs (vars final) = [(t + wait, a)] \<and> world (vars final) = func a w
                               \<and> pending final = [])))
   \<and> directCount (vars (after_await now)) = 50
   \<and> debounceCount (vars (after_await now)) = 1
   \<and> resolved (vars (after_await now))"
proof -
  have clears: "timeout (vars st) = Some i \<and> i < next_timer st \<longrightarrow>
      i \<notin> fst ` set (pending (debounced later wait args st))"
  proof
    assume h: "timeout (vars st) = Some i \<and> i < next_timer st"
    from h have "timeout (vars st) = Some i" and "i < next_timer st" by simp_all
    then show "i \<notin> fst ` set (pending (debounced later wait args st))"
      by (rule debounced_clears_previous)
  qed
  have once: "cs \<noteq> [] \<and> burst wait (map fst cs) \<longrightarrow>
        (let final = advance (run_func func) T (calls_at func wait cs (single_start w));
             t = fst (last cs);
             a = snd (last cs)
         in (T < t + wait \<longrightarrow> runs (vars final) = [] \<and> world (vars final) = w
                               \<and> length (pending final) = 1)
          \<and> (t + wait \<le> T \<longrightarrow> runs (vars final) = [(t + wait, a)] \<and> world (vars final) = func a w
                               \<and> pending final = []))"
  proof
    assume h: "cs \<noteq> [] \<and> burst wait (map fst cs)"
    from h have "cs \<noteq> []" and "burst wait (map fst cs)" by simp_all
    then have wt: "waiting wait (fst (last cs)) (snd (last cs)) w (calls_at func wait cs (single_start w))"
      by (rule waiting_from_start)
    define final where "final = advance (run_func func) T (calls_at func wait cs (single_start w))"
    have before: "T < fst (last cs) + wait \<longrightarrow>
        runs (vars final) = [] \<and> world (vars final) = w \<and> length (pending final) = 1"
      unfolding final_def using wt by (intro impI waiting_before_due)
    have due: "fst (last cs) + wait \<le> T \<longrightarrow>
        runs (vars final) = [(fst (last cs) + wait, snd (last cs))] \<and> world (vars final) = func (snd (last cs)) w
        \<and> pending final = []"
      unfolding final_def using wt by (intro impI waiting_when_due)
    from before due show "let final = advance (run_func func) T (calls_at func wait cs (single_start w));
             t = fst (last cs);
             a = snd (last cs)
         in (T < t + wait \<longrightarrow> runs (vars final) = [] \<and> world (vars final) = w
                               \<and> length (pending final) = 1)
          \<and> (t + wait \<le> T \<longrightarrow> runs (vars final) = [(t + wait, a)] \<and> world (vars final) = func a w
                               \<and> pending final = [])"
      unfolding Let_def final_def by (rule conjI)
  qed
  have demo: "directCount (vars (after_await now)) = 50
      \<and> debounceCount (vars (after_await now)) = 1
      \<and> resolved (vars (after_await now))"
    by (simp add: after_await_vars)
  from clears once demo show ?thesis by (intro conjI) simp_all
qed

theorem debounce_runs_once_per_burst_witness:
  "timeout (vars (debounced (\<lambda>a. a) 100 (1::nat) (single_start (0::nat)))) = Some 0
   \<and> 0 < next_timer (debounced (\<lambda>a. a) 100 (1::nat) (single_start (0::nat)))
   \<and> [(0, 1), (10, 2), (30, 3 :: nat)] \<noteq> []
   \<and> burst 100 (map fst [(0, 1), (10, 2), (30, 3 :: nat)])
   \<and> 0 \<notin> fst ` set (pending (debounced (\<lambda>a. a) 100 2 (debounced (\<lambda>a. a) 100 (1::nat) (single_start (0::nat)))))
   \<and> runs (vars (advance (run_func (\<lambda>a w. w + a)) 129
         (calls_at (\<lambda>a w. w + a) 100 [(0, 1), (10, 2), (30, 3)] (single_start (0::nat))))) = []
   \<and> runs (vars (advance (run_func (\<lambda>a w. w + a)) 130
         (calls_at (\<lambda>a w. w + a) 100 [(0, 1), (10, 2), (30, 3)] (single_start (0::nat))))) = [(130, 3)]
   \<and> world (vars (advance (run_func (\<lambda>a w. w + a)) 130
         (calls_at (\<lambda>a w. w + a) 100 [(0, 1), (10, 2), (30, 3)] (single_start (0::nat))))) = 3"
proof -
  let ?st = "debounced (\<lambda>a. a) 100 (1::nat) (single_start (0::nat))"
  let ?cs = "[(0, 1), (10, 2), (30, 3 :: nat)] :: (nat \<times> nat) list"
  let ?f = "\<lambda>(a::nat) (w::nat). w + a"
  have h1: "timeout (vars ?st) = Some 0 \<and> 0 < next_timer ?st"
    by (simp add: debounced_def single_start_def clearTimeout_def setTimeout_def)
  have h2: "?cs \<noteq> [] \<and> burst 100 (map fst ?cs)"
    by simp
  have l: "fst (last ?cs) = 30" "snd (last ?cs) = 3" by simp_all
  note at129 = debounce_runs_once_per_burst [where st = ?st and i = 0 and later = "\<lambda>a. a"
      and wait = 100 and args = 2 and cs = ?cs and T = 129 and func = ?f and w = 0, unfolded Let_def l]
  note at130 = debounce_runs_once_per_burst [where st = ?st and i = 0 and later = "\<lambda>a. a"
      and wait = 100 and args = 2 and cs = ?cs and T = 130 and func = ?f and w = 0, unfolded Let_def l]
  have c: "0 \<notin> fst ` set (pending (debounced (\<lambda>a. a) 100 2 ?st))"
    using at129 h1 by blast
  have "(129::nat) < 30 + 100" by simp
  with at129 h2 have r129: "runs (vars (advance (run_func ?f) 129 (calls_at ?f 100 ?cs (single_start 0)))) = []"
    by blast
  have "(30::nat) + 100 \<le> 130" by simp
  with at130 h2 have r130: "runs (vars (advance (run_func ?f) 130 (calls_at ?f 100 ?cs (single_start 0)))) = [(30 + 100, 3)]
      \<and> world (vars (advance (run_func ?f) 130 (calls_at ?f 100 ?cs (single_start 0)))) = ?f 3 0"
    by blast
  from h1 h2 c r129 r130 show ?thesis by simp
qed

section \<open>The advanced patterns demo rejects\<close>

lemma closuresAndPrivacy_output:
  "closuresAndPrivacy =
     [CHR 0xF0, CHR 0x9F, CHR 0x94, CHR 0x92] @ '' Closures & Privacy:'' @ nl
     @ ''Current Value: 16'' @ nl
     @ ''History: +5, -2, +3'' @ nl
     @ ''Private state is completely encapsulated!''"
  by (simp add: closuresAndPrivacy_def createCounter_def increment_def decrement_def getValue_def
      getHistory_def Let_def string_of_int_def string_of_nat.simps)

text \<open>The two \<open>UserModule.create\<close> calls of \<open>modulePattern\<close> pass the validation.\<close>

lemma create_John:
  "create now (JObj [(''name'', JStr ''John''), (''email'', JStr ''john@example.com'')]) \<lparr>users = [], currentId = 1\<rparr>
   = (Inr (JObj [(''id'', JNum 1), (''name'', JStr ''John''), (''email'', JStr ''john@example.com''),
                 (''createdAt'', JStr now)]),
      \<lparr>users = [JObj [(''id'', JNum 1), (''name'', JStr ''John''), (''email'', JStr ''john@example.com''),
                       (''createdAt'', JStr now)]],
       currentId = 2\<rparr>)"
  by (simp add: create_def validateUser_def thenE_def member_def js_includes_def spread_into_def
      own_properties_def Let_def)

lemma create_Jane:
  "fst (create now (JObj [(''name'', JStr ''Jane''), (''email'', JStr ''jane@example.com'')])
          \<lparr>users = us, currentId = 2\<rparr>)
   = Inr (JObj [(''id'', JNum 2), (''name'', JStr ''Jane''), (''email'', JStr ''jane@example.com''),
                (''createdAt'', JStr now)])"
  by (simp add: create_def validateUser_def thenE_def member_def js_includes_def spread_into_def
      own_properties_def Let_def)

lemma modulePattern_output:
  "modulePattern now =
     Inr ([CHR 0xF0, CHR 0x9F, CHR 0x8F, CHR 0x97, CHR 0xEF, CHR 0xB8, CHR 0x8F] @ '' Module Pattern:'' @ nl
          @ ''Created Users: 2'' @ nl
          @ ''User 1: John (ID: 1)'' @ nl
          @ ''User 2: Jane (ID: 2)'' @ nl
          @ ''Private state is completely encapsulated!'')"
  by (simp add: modulePattern_def create_def validateUser_def thenE_def member_def js_includes_def
      spread_into_def own_properties_def Let_def string_of_int_def string_of_nat.simps)

text \<open>The three assignments of \<open>proxyPattern\<close> pass the validations of the \<open>set\<close> trap.\<close>

lemma proxy_set_demo:
  "fst (proxy_set ''name'' (JStr ''John'') st) = Inr True"
  "fst (proxy_set ''age'' (JNum 30) st) = Inr True"
  "fst (proxy_set ''email'' (JStr ''john@example.com'') st) = Inr True"
  by (simp_all add: proxy_set_def js_includes_def less_than_def greater_than_def Let_def)

text \<open>
  \<open>smartUser.accessLog\<close> goes through the \<open>get\<close> trap, which returns
  \<open>obj["accessLog"]\<close>, and the target has no such property.
\<close>

lemma proxy_get_accessLog:
  "''accessLog'' \<notin> fst ` set (target st) \<Longrightarrow> fst (proxy_get ''accessLog'' st) = Value JUndefined"
proof -
  assume "''accessLog'' \<notin> fst ` set (target st)"
  then have "map_of (target st) ''accessLog'' = None" by (simp add: map_of_eq_None_iff)
  then show ?thesis by (simp add: proxy_get_def own_def Let_def)
qed

lemma proxyPattern_throws:
  "proxyPattern = Inl (TypeError ''Cannot read properties of undefined (reading 'slice')'')"
  by (simp add: proxyPattern_def createSmartObject_def proxy_set_def proxy_has_def proxy_get_def
      call_got_def slice_last3_join_def js_includes_def less_than_def greater_than_def own_def
      toLowerCase_def thenE_def Let_def)

lemma AdvancedPatterns_run_result:
  "AdvancedPatterns_run now this =
     (Inl (TypeError ''Cannot read properties of undefined (reading 'slice')''), this)"
  by (simp add: AdvancedPatterns_run_def thenE_def memoizationPattern_output observerPattern_output
      modulePattern_output proxyPattern_throws)

text \<open>
  Claim C7 fails on the code. The two validation throws the claim names are indeed not
  reached: both \<open>UserModule.create\<close> calls return a user and the three assignments pass the
  \<open>set\<close> trap. But \<open>run()\<close> of the advanced patterns demo still rejects: \<open>proxyPattern\<close>
  reads \<open>smartUser.accessLog\<close> through the \<open>get\<close> trap, gets \<open>undefined\<close>, and
  \<open>log.slice(-3)\<close> throws a TypeError.
\<close>

theorem AdvancedPatterns_run_rejects:
  "(\<exists>u1 m1. create now (JObj [(''name'', JStr ''John''), (''email'', JStr ''john@example.com'')])
                 \<lparr>users = [], currentId = 1\<rparr> = (Inr u1, m1)
            \<and> (\<exists>u2. fst (create now (JObj [(''name'', JStr ''Jane''), (''email'', JStr ''jane@example.com'')]) m1) = Inr u2))
   \<and> fst (proxy_set ''name'' (JStr ''John'') st) = Inr True
   \<and> fst (proxy_set ''age'' (JNum 30) st) = Inr True
   \<and> fst (proxy_set ''email'' (JStr ''john@example.com'') st) = Inr True
   \<and> fst (AdvancedPatterns_run now new_AdvancedPatternsDemo)
       = Inl (TypeError ''Cannot read properties of undefined (reading 'slice')'')"
  by (simp add: create_John create_Jane proxy_set_demo AdvancedPatterns_run_result)

section \<open>The dashboard's click handler and error path\<close>

lemma handleError_with_element:
  assumes "document (vars st) (action @ ''-output'') = Some out"
  shows "handleError action error st =
     (None,
      st\<lparr>vars := (vars st)\<lparr>
        document := (document (vars st))(action @ ''-output'' \<mapsto>
          out\<lparr>content := InnerHTML (''<span class='' @ [CHR 0x22] @ ''error'' @ [CHR 0x22] @ ''>Error: ''
                                      @ message error @ ''</span>'')\<rparr>),
        console_error := console_error (vars st) @ [(''Demo '' @ action @ '' failed:'', error)]\<rparr>\<rparr>)"
  using assms by (simp add: handleError_def)

lemma runDemo_instance:
  "fst (snd (runDemo run highlight action demo st)) = snd (run demo)"
  by (simp add: runDemo_def split: prod.splits sum.splits)

lemma handleError_demos:
  "demos (vars (snd (handleError action error st))) = demos (vars st)"
  by (simp add: handleError_def split: option.splits)

lemma show_result_demos:
  "show_result highlight action res st = Inr st' \<Longrightarrow> demos (vars st') = demos (vars st)"
  by (auto simp: show_result_def setTimeout_def Let_def split: option.splits)

lemma runDemo_demos:
  "demos (vars (snd (snd (runDemo run highlight action demo st)))) = demos (vars st)"
proof -
  obtain r demo' where r: "run demo = (r, demo')" by (cases "run demo")
  show ?thesis
  proof (cases r)
    case (Inl error)
    obtain thrown st' where h: "handleError action error st = (thrown, st')"
      by (cases "handleError action error st")
    then have "demos (vars st') = demos (vars st)" using handleError_demos [of action error st] by simp
    then show ?thesis using r Inl h by (simp add: runDemo_def)
  next
    case (Inr res)
    show ?thesis
    proof (cases "show_result highlight action res st")
      case (Inl error)
      obtain thrown st' where h: "handleError action error st = (thrown, st')"
        by (cases "handleError action error st")
      then have "demos (vars st') = demos (vars st)" using handleError_demos [of action error st] by simp
      then show ?thesis using r Inr Inl h by (simp add: runDemo_def)
    next
      case shown: (Inr st')
      then have "demos (vars st') = demos (vars st)" by (rule show_result_demos)
      then show ?thesis using r Inr shown by (simp add: runDemo_def)
    qed
  qed
qed

text \<open>
  Claim C2. If \<open>run()\<close> of the demo throws or rejects with \<open>error\<close> and the page has the
  element \<open><action>-output\<close>, then \<open>runDemo\<close> does not reject; the element's \<open>innerHTML\<close>
  becomes the span \<open><span class="error">Error: \<close> followed by the error's message and
  \<open></span>\<close>; \<open>console.error\<close> receives \<open>Demo <action> failed:\<close> and the error; and nothing
  else changes: \<open>run()\<close> has been called once (the instance is as that call left it), no
  timer is set, the code display and the other elements are as before.
\<close>

theorem runDemo_error_path:
  "run demo = (Inl error, demo') \<and> document (vars st) (action @ ''-output'') = Some out \<longrightarrow>
   runDemo run highlight action demo st =
     (None, demo',
      st\<lparr>vars := (vars st)\<lparr>
        document := (document (vars st))(action @ ''-output'' \<mapsto>
          out\<lparr>content := InnerHTML (''<span class='' @ [CHR 0x22] @ ''error'' @ [CHR 0x22] @ ''>Error: ''
                                      @ message error @ ''</span>'')\<rparr>),
        console_error := console_error (vars st) @ [(''Demo '' @ action @ '' failed:'', error)]\<rparr>\<rparr>)"
proof
  assume h: "run demo = (Inl error, demo') \<and> document (vars st) (action @ ''-output'') = Some out"
  then have r: "run demo = (Inl error, demo')"
    and el: "document (vars st) (action @ ''-output'') = Some out" by simp_all
  show "runDemo run highlight action demo st =
     (None, demo',
      st\<lparr>vars := (vars st)\<lparr>
        document := (document (vars st))(action @ ''-output'' \<mapsto>
          out\<lparr>content := InnerHTML (''<span class='' @ [CHR 0x22] @ ''error'' @ [CHR 0x22] @ ''>Error: ''
                                      @ message error @ ''</span>'')\<rparr>),
        console_error := console_error (vars st) @ [(''Demo '' @ action @ '' failed:'', error)]\<rparr>\<rparr>)"
    by (simp add: runDemo_def r handleError_with_element [OF el])
qed

theorem runDemo_error_path_witness:
  "AdvancedPatterns_run [] new_AdvancedPatternsDemo
     = (Inl (TypeError ''Cannot read properties of undefined (reading 'slice')''), new_AdvancedPatternsDemo)
   \<and> document (vars sample_page) (''advanced-patterns'' @ ''-output'')
       = Some \<lparr>content = InnerHTML [], classList = [''output'']\<rparr>
   \<and> (case runDemo (AdvancedPatterns_run []) (\<lambda>c. c) ''advanced-patterns'' new_AdvancedPatternsDemo sample_page of
        (thrown, demo', st') \<Rightarrow>
          thrown = None
          \<and> map_option content (document (vars st') ''advanced-patterns-output'')
              = Some (InnerHTML (''<span class='' @ [CHR 0x22] @ ''error'' @ [CHR 0x22]
                   @ ''>Error: Cannot read properties of undefined (reading 'slice')</span>''))
          \<and> console_error (vars st')
              = [(''Demo advanced-patterns failed:'',
                  TypeError ''Cannot read properties of undefined (reading 'slice')'')]
          \<and> pending st' = [])"
proof -
  have r: "AdvancedPatterns_run [] new_AdvancedPatternsDemo
     = (Inl (TypeError ''Cannot read properties of undefined (reading 'slice')''), new_AdvancedPatternsDemo)"
    by (rule AdvancedPatterns_run_result)
  have el: "document (vars sample_page) (''advanced-patterns'' @ ''-output'')
       = Some \<lparr>content = InnerHTML [], classList = [''output'']\<rparr>"
    by (simp add: sample_page_def)
  from runDemo_error_path [of "AdvancedPatterns_run []" new_AdvancedPatternsDemo
      "TypeError ''Cannot read properties of undefined (reading 'slice')''" new_AdvancedPatternsDemo
      sample_page "''advanced-patterns''" "\<lparr>content = InnerHTML [], classList = [''output'']\<rparr>" "\<lambda>c. c"]
    r el
  show ?thesis by (simp add: sample_page_def)
qed

text \<open>
  Claim C5. \<open>handleDemoClick\<close> leaves the whole state as it is unless the target has the
  class \<open>demo-btn\<close> and its \<open>data-action\<close> is a key of the demos map. If it has and it is,
  the handler does what \<open>runDemo\<close> does for that key and the instance registered under
  it, and the instance has then gone through \<open>run()\<close> once.
\<close>

theorem handleDemoClick_dispatch:
  "(\<not> (''demo-btn'' \<in> set (target_classList clicked)
        \<and> (\<exists>a. dataset_action clicked = Some a \<and> a \<in> dom (demos (vars st))))
      \<longrightarrow> handleDemoClick run highlight clicked st = st)
   \<and> (''demo-btn'' \<in> set (target_classList clicked) \<and> dataset_action clicked = Some a
        \<and> demos (vars st) a = Some d
      \<longrightarrow> handleDemoClick run highlight clicked st
            = (case runDemo run highlight a d st of
                 (thrown, d', st') \<Rightarrow> st'\<lparr>vars := (vars st')\<lparr>demos := (demos (vars st'))(a \<mapsto> d')\<rparr>\<rparr>)
          \<and> demos (vars (handleDemoClick run highlight clicked st)) = (demos (vars st))(a \<mapsto> snd (run d)))"
proof (intro conjI impI)
  assume no: "\<not> (''demo-btn'' \<in> set (target_classList clicked)
        \<and> (\<exists>a. dataset_action clicked = Some a \<and> a \<in> dom (demos (vars st))))"
  show "handleDemoClick run highlight clicked st = st"
  proof (cases "''demo-btn'' \<in> set (target_classList clicked)")
    case False
    then show ?thesis by (simp add: handleDemoClick_def)
  next
    case True
    with no have none: "\<forall>a. dataset_action clicked = Some a \<longrightarrow> demos (vars st) a = None"
      by (auto simp: dom_def)
    show ?thesis
    proof (cases "dataset_action clicked")
      case None
      then show ?thesis using True by (simp add: handleDemoClick_def)
    next
      case (Some a)
      with none have "demos (vars st) a = None" by simp
      then show ?thesis using True Some by (simp add: handleDemoClick_def)
    qed
  qed
next
  assume yes: "''demo-btn'' \<in> set (target_classList clicked) \<and> dataset_action clicked = Some a
        \<and> demos (vars st) a = Some d"
  then show eq: "handleDemoClick run highlight clicked st
            = (case runDemo run highlight a d st of
                 (thrown, d', st') \<Rightarrow> st'\<lparr>vars := (vars st')\<lparr>demos := (demos (vars st'))(a \<mapsto> d')\<rparr>\<rparr>)"
    by (simp add: handleDemoClick_def)
  obtain thrown d' st' where rd: "runDemo run highlight a d st = (thrown, d', st')"
    by (cases "runDemo run highlight a d st")
  have "d' = snd (run d)" using runDemo_instance [of run highlight a d st] rd by simp
  moreover have "demos (vars st') = demos (vars st)"
    using runDemo_demos [of run highlight a d st] rd by simp
  ultimately show "demos (vars (handleDemoClick run highlight clicked st)) = (demos (vars st))(a \<mapsto> snd (run d))"
    using eq rd by simp
qed

theorem handleDemoClick_dispatch_witness:
  "\<not> (''demo-btn'' \<in> set (target_classList page_header)
       \<and> (\<exists>a. dataset_action page_header = Some a \<and> a \<in> dom (demos (vars sample_page))))
   \<and> handleDemoClick (AdvancedPatterns_run []) (\<lambda>c. c) page_header sample_page = sample_page
   \<and> ''demo-btn'' \<in> set (target_classList advanced_button)
   \<and> dataset_action advanced_button = Some ''advanced-patterns''
   \<and> demos (vars sample_page) ''advanced-patterns'' = Some new_AdvancedPatternsDemo
   \<and> console_error (vars (handleDemoClick (AdvancedPatterns_run []) (\<lambda>c. c) advanced_button sample_page))
       = [(''Demo advanced-patterns failed:'',
           TypeError ''Cannot read properties of undefined (reading 'slice')'')]"
proof -
  have no: "\<not> (''demo-btn'' \<in> set (target_classList page_header)
       \<and> (\<exists>a. dataset_action page_header = Some a \<and> a \<in> dom (demos (vars sample_page))))"
    by (simp add: page_header_def)
  have yes: "''demo-btn'' \<in> set (target_classList advanced_button)
      \<and> dataset_action advanced_button = Some ''advanced-patterns''
      \<and> demos (vars sample_page) ''advanced-patterns'' = Some new_AdvancedPatternsDemo"
    by (simp add: advanced_button_def sample_page_def)
  have rd: "runDemo (AdvancedPatterns_run []) (\<lambda>c. c) ''advanced-patterns'' new_AdvancedPatternsDemo sample_page
      = (None, new_AdvancedPatternsDemo,
         sample_page\<lparr>vars := (vars sample_page)\<lparr>
           document := (document (vars sample_page))(''advanced-patterns-output'' \<mapsto>
             \<lparr>content = InnerHTML (''<span class='' @ [CHR 0x22] @ ''error'' @ [CHR 0x22]
                   @ ''>Error: Cannot read properties of undefined (reading 'slice')</span>''),
              classList = [''output'']\<rparr>),
           console_error := [(''Demo advanced-patterns failed:'',
                  TypeError ''Cannot read properties of undefined (reading 'slice')'')]\<rparr>\<rparr>)"
    by (simp add: runDemo_def AdvancedPatterns_run_result handleError_def sample_page_def)
  from handleDemoClick_dispatch [of page_header sample_page "AdvancedPatterns_run []" "\<lambda>c. c"]
       handleDemoClick_dispatch [of advanced_button sample_page "AdvancedPatterns_run []" "\<lambda>c. c"
         "''advanced-patterns''" new_AdvancedPatternsDemo]
       no yes rd
  show ?thesis by simp
qed

text \<open>
  Claim C3 fails on the code for the demo registered as \<open>advanced-patterns\<close>: its \<open>run()\<close>
  does not resolve to an object with \<open>output\<close> and \<open>code\<close>, it rejects (see
  \<open>AdvancedPatterns_run\<close>), so a click on its button ends with the error span in the output
  element, nothing shown in the code display and no highlight.
\<close>

theorem advanced_patterns_click_shows_error:
  "(let st = handleDemoClick (AdvancedPatterns_run now) highlight advanced_button sample_page
    in document (vars st) ''advanced-patterns-output''
         = Some \<lparr>content = InnerHTML (''<span class='' @ [CHR 0x22] @ ''error'' @ [CHR 0x22]
                     @ ''>Error: Cannot read properties of undefined (reading 'slice')</span>''),
                 classList = [''output'']\<rparr>
       \<and> codeDisplayManager (vars st) = codeDisplayManager (vars sample_page)
       \<and> pending st = [])"
  by (simp add: handleDemoClick_def advanced_button_def runDemo_def AdvancedPatterns_run_result
      handleError_def sample_page_def new_AdvancedPatternsDemo_def)

section \<open>The runs leave the instances as the constructors made them\<close>

lemma take_length_le:
  assumes "take (length ys) xs = ys"
  shows "length ys \<le> length xs"
proof -
  from assms have "length (take (length ys) xs) = length ys" by simp
  then show ?thesis by simp
qed

lemma extends_lengths:
  assumes "extends h h'"
  shows "length (objects h) \<le> length (objects h')" and "length (arrays h) \<le> length (arrays h')"
  using assms by (simp_all add: extends_def take_length_le)

lemma assign_frame:
  "n \<le> obj \<Longrightarrow> take n (objects (assign obj f h)) = take n (objects h)"
  "length (objects (assign obj f h)) = length (objects h)"
  "arrays (assign obj f h) = arrays h"
  by (simp_all add: assign_def)

lemma resetFn_frame:
  "n \<le> obj \<Longrightarrow> take n (objects (resetFn obj h)) = take n (objects h)"
  "length (objects (resetFn obj h)) = length (objects h)"
  "arrays (resetFn obj h) = arrays h"
  by (simp_all add: resetFn_def assign_frame)

lemma createFn_frame:
  assumes "createFn h = (obj, h')" and "n \<le> length (objects h)"
  shows "n \<le> obj" and "take n (objects h') = take n (objects h)"
    and "length (objects h) \<le> length (objects h')" and "arrays h' = arrays h"
  using assms by (auto simp add: createFn_def alloc_object_def)

lemma populate_frame:
  assumes "populate k p h = (p', h')" and "\<forall>a \<in> set (pool p). n \<le> a" and "n \<le> length (objects h)"
  shows "(\<forall>a \<in> set (pool p'). n \<le> a) \<and> take n (objects h') = take n (objects h)
         \<and> length (objects h) \<le> length (objects h') \<and> arrays h' = arrays h"
  using assms
proof (induction k arbitrary: p h)
  case 0
  then show ?case by simp
next
  case (Suc k)
  obtain obj h1 where c: "createFn h = (obj, h1)" by (cases "createFn h")
  note f = createFn_frame [OF c Suc.prems(3)]
  from Suc.prems(1) c have p: "populate k (p\<lparr>pool := pool p @ [obj]\<rparr>) h1 = (p', h')" by simp
  have "(\<forall>a \<in> set (pool p'). n \<le> a) \<and> take n (objects h') = take n (objects h1)
         \<and> length (objects h1) \<le> length (objects h') \<and> arrays h' = arrays h1"
    using Suc.prems(2) f(1) f(3) Suc.prems(3) by (intro Suc.IH [OF p]) auto
  with f show ?case by simp
qed

lemma acquire_frame:
  assumes "acquire p h = (obj, p', h')" and "\<forall>a \<in> set (pool p). n \<le> a" and "n \<le> length (objects h)"
  shows "n \<le> obj \<and> (\<forall>a \<in> set (pool p'). n \<le> a) \<and> take n (objects h') = take n (objects h)
         \<and> length (objects h) \<le> length (objects h') \<and> arrays h' = arrays h"
proof (cases "pool p = []")
  case True
  obtain o1 h1 where c: "createFn h = (o1, h1)" by (cases "createFn h")
  from assms(1) True c have "obj = o1" "p' = p" "h' = h1" by (simp_all add: acquire_def)
  with createFn_frame [OF c assms(3)] assms(2) show ?thesis by simp
next
  case False
  with assms(1) have e: "obj = last (pool p)" "p' = p\<lparr>pool := butlast (pool p)\<rparr>" "h' = h"
    by (simp_all add: acquire_def)
  from False have "last (pool p) \<in> set (pool p)" by simp
  moreover have "set (butlast (pool p)) \<subseteq> set (pool p)" by (auto dest: in_set_butlastD)
  ultimately show ?thesis using assms(2) e by auto
qed

lemma acquire_loop_frame:
  assumes "acquire_loop is p ps h = (p', ps', h')" and "\<forall>a \<in> set (pool p). n \<le> a"
    and "\<forall>a \<in> set ps. n \<le> a" and "n \<le> length (objects h)"
  shows "(\<forall>a \<in> set (pool p'). n \<le> a) \<and> (\<forall>a \<in> set ps'. n \<le> a)
         \<and> take n (objects h') = take n (objects h)
         \<and> length (objects h) \<le> length (objects h') \<and> arrays h' = arrays h"
  using assms
proof (induction "is" arbitrary: p ps h)
  case Nil
  then show ?case by simp
next
  case (Cons i later)
  obtain obj p1 h1 where a: "acquire p h = (obj, p1, h1)" by (cases "acquire p h")
  note f = acquire_frame [OF a Cons.prems(2) Cons.prems(4)]
  define h3 where "h3 = assign obj (\<lambda>u. u\<lparr>name := ''Pooled User '' @ string_of_int (int i)\<rparr>) (assign obj (\<lambda>u. u\<lparr>id := i\<rparr>) h1)"
  from Cons.prems(1) a have l: "acquire_loop later p1 (ps @ [obj]) h3 = (p', ps', h')"
    by (simp add: h3_def)
  have h3: "take n (objects h3) = take n (objects h1)" "length (objects h3) = length (objects h1)"
    "arrays h3 = arrays h1"
    using f by (simp_all add: h3_def assign_frame)
  have "(\<forall>a \<in> set (pool p'). n \<le> a) \<and> (\<forall>a \<in> set ps'. n \<le> a)
         \<and> take n (objects h') = take n (objects h3)
         \<and> length (objects h3) \<le> length (objects h') \<and> arrays h' = arrays h3"
    using f Cons.prems(3) Cons.prems(4) h3 by (intro Cons.IH [OF l]) auto
  with f h3 show ?case by simp
qed

lemma release_all_frame:
  assumes "release_all ps p h = (p', h')" and "\<forall>a \<in> set ps. n \<le> a"
  shows "take n (objects h') = take n (objects h) \<and> length (objects h') = length (objects h)
         \<and> arrays h' = arrays h"
  using assms
proof (induction ps arbitrary: p h)
  case Nil
  then show ?case by simp
next
  case (Cons obj later)
  from Cons.prems(1) have l: "release_all later (p\<lparr>pool := pool p @ [obj]\<rparr>) (resetFn obj h) = (p', h')"
    by (simp add: release_def)
  from Cons.prems(2) have "n \<le> obj" "\<forall>a \<in> set later. n \<le> a" by simp_all
  with Cons.IH [OF l] show ?case by (simp add: resetFn_frame)
qed

lemma memoryOptimization_extends:
  "extends h (snd (memoryOptimization this h))"
proof -
  define n where "n = length (objects h)"
  obtain p1 h1 where a: "new_ObjectPool 10 h = (p1, h1)" by (cases "new_ObjectPool 10 h")
  obtain p2 ps h2 where b: "acquire_loop [0 ..< 5] p1 [] h1 = (p2, ps, h2)"
    by (cases "acquire_loop [0 ..< 5] p1 [] h1")
  obtain p3 h3 where c: "release_all ps p2 h2 = (p3, h3)" by (cases "release_all ps p2 h2")
  from a have a': "populate 10 \<lparr>pool = []\<rparr> h = (p1, h1)" by (simp add: new_ObjectPool_def)
  have fa: "(\<forall>a \<in> set (pool p1). n \<le> a) \<and> take n (objects h1) = take n (objects h)
         \<and> length (objects h) \<le> length (objects h1) \<and> arrays h1 = arrays h"
    by (rule populate_frame [OF a']) (simp_all add: n_def)
  have fb: "(\<forall>a \<in> set (pool p2). n \<le> a) \<and> (\<forall>a \<in> set ps. n \<le> a)
         \<and> take n (objects h2) = take n (objects h1)
         \<and> length (objects h1) \<le> length (objects h2) \<and> arrays h2 = arrays h1"
    using fa by (intro acquire_loop_frame [OF b]) (simp_all add: n_def)
  have fc: "take n (objects h3) = take n (objects h2) \<and> length (objects h3) = length (objects h2)
         \<and> arrays h3 = arrays h2"
    using fb by (intro release_all_frame [OF c]) simp
  have "snd (memoryOptimization this h) = h3"
    by (simp add: memoryOptimization_def a b c)
  with fa fb fc show ?thesis by (simp add: extends_def n_def)
qed

lemma algorithmOptimization_extends:
  "extends h (snd (algorithmOptimization env this h))"
  by (simp add: algorithmOptimization_def alloc_array_def extends_def Let_def)

lemma extends_trans:
  assumes "extends h1 h2" and "extends h2 h3"
  shows "extends h1 h3"
proof -
  note l = extends_lengths [OF assms(1)]
  have "take (length (objects h1)) (objects h3) = take (length (objects h1)) (take (length (objects h2)) (objects h3))"
    using l by (simp add: min_def)
  moreover have "take (length (arrays h1)) (arrays h3) = take (length (arrays h1)) (take (length (arrays h2)) (arrays h3))"
    using l by (simp add: min_def)
  ultimately show ?thesis using assms unfolding extends_def by simp
qed

lemma extends_refl: "extends h h"
  by (simp add: extends_def)

lemma Performance_run_frame:
  assumes "Performance_run env this h = (r, this', h')"
  shows "this' = this \<and> extends h h'"
proof (cases "debouncingThrottling (started env)")
  case None
  with assms show ?thesis by (simp add: Performance_run_def extends_refl)
next
  case (Some e1)
  obtain e3 h3 where m: "memoryOptimization this h = (e3, h3)" by (cases "memoryOptimization this h")
  obtain r4 h4 where a: "algorithmOptimization env this h3 = (r4, h4)"
    by (cases "algorithmOptimization env this h3")
  from assms Some m a have e: "this' = this" "h' = h4"
    by (simp_all add: Performance_run_def Let_def)
  from memoryOptimization_extends [of h this] m have "extends h h3" by simp
  moreover from algorithmOptimization_extends [of h3 env this] a have "extends h3 h4" by simp
  ultimately show ?thesis using e by (auto intro: extends_trans)
qed

lemma Destructuring_run_this: "snd (Destructuring_run this) = this"
  unfolding Destructuring_run_def by (rule snd_conv)

lemma SpreadRest_run_this: "snd (SpreadRest_run env this) = this"
  unfolding SpreadRest_run_def by (rule snd_conv)

lemma ArrowFunction_run_this: "snd (ArrowFunction_run this) = this"
  unfolding ArrowFunction_run_def by (rule snd_conv)

lemma TemplateLiteral_run_this: "snd (TemplateLiteral_run this) = this"
  unfolding TemplateLiteral_run_def by (rule snd_conv)

lemma AdvancedPatterns_run_this: "snd (AdvancedPatterns_run now this) = this"
  unfolding AdvancedPatterns_run_def by (rule snd_conv)

lemma demo_run_frame:
  assumes "demo_run env d h = (r, d', h')"
  shows "d' = d \<and> extends h h'"
proof (cases d)
  case (Destructuring this)
  with assms Destructuring_run_this [of this] show ?thesis
    by (simp add: case_prod_beta extends_refl)
next
  case (SpreadRest this)
  with assms SpreadRest_run_this [of "dates env" this] show ?thesis
    by (simp add: case_prod_beta extends_refl)
next
  case (ArrowFunctions this)
  with assms ArrowFunction_run_this [of this] show ?thesis
    by (simp add: case_prod_beta extends_refl)
next
  case (TemplateLiterals this)
  with assms TemplateLiteral_run_this [of this] show ?thesis
    by (simp add: case_prod_beta extends_refl)
next
  case (AdvancedPatterns this)
  with assms AdvancedPatterns_run_this [of "iso_now (dates env)" this] show ?thesis
    by (simp add: case_prod_beta extends_refl)
next
  case (Performance this)
  obtain r1 this1 h1 where p: "Performance_run (measured env) this h = (r1, this1, h1)"
    by (cases "Performance_run (measured env) this h")
  from Performance_run_frame [OF p] assms Performance p show ?thesis by simp
qed

lemma extends_allocated:
  assumes "extends h h'" and "allocated h d"
  shows "allocated h' d \<and> input_data h' d = input_data h d"
proof (cases d)
  case (Performance this)
  define r where "r = testData this"
  note l = extends_lengths [OF assms(1)]
  from assms(2) Performance have r: "r < length (arrays h)"
    and el: "\<forall>a \<in> set (arrays h ! r). a < length (objects h)"
    by (simp_all add: allocated_def r_def list_all_iff)
  from assms(1) r have "arrays h' ! r = take (length (arrays h)) (arrays h') ! r" by simp
  with assms(1) have same: "arrays h' ! r = arrays h ! r" by (simp add: extends_def)
  have obj: "objects h' ! a = objects h ! a" if "a < length (objects h)" for a
  proof -
    from that have "objects h' ! a = take (length (objects h)) (objects h') ! a" by simp
    with assms(1) show ?thesis by (simp add: extends_def)
  qed
  from el obj have "map (\<lambda>a. objects h' ! a) (arrays h ! r) = map (\<lambda>a. objects h ! a) (arrays h ! r)"
    by simp
  with same r el l Performance show ?thesis
    by (auto simp add: allocated_def input_data_def users_of_def r_def list_all_iff)
qed (use assms in \<open>simp_all add: allocated_def input_data_def\<close>)

lemma run_times_frame:
  assumes "allocated h d"
  shows "fst (run_times envs d h) = d \<and> extends h (snd (run_times envs d h))"
  using assms
proof (induction envs arbitrary: h)
  case Nil
  show ?case by (simp add: extends_refl)
next
  case (Cons env later)
  obtain r d' h' where s: "demo_run env d h = (r, d', h')" by (cases "demo_run env d h")
  note f = demo_run_frame [OF s]
  with extends_allocated [of h h' d] Cons.prems have "allocated h' d" by simp
  from Cons.IH [OF this] f s show ?case by (auto intro: extends_trans)
qed

subsection \<open>What a run returns depends on the input data only\<close>

lemma populate_size:
  "populate k p h = (p', h') \<Longrightarrow> length (pool p') = length (pool p) + k"
proof (induction k arbitrary: p h)
  case 0
  then show ?case by simp
next
  case (Suc k)
  obtain obj h1 where c: "createFn h = (obj, h1)" by (cases "createFn h")
  from Suc.prems c have "populate k (p\<lparr>pool := pool p @ [obj]\<rparr>) h1 = (p', h')" by simp
  from Suc.IH [OF this] show ?case by simp
qed

lemma acquire_size:
  "acquire p h = (obj, p', h') \<Longrightarrow> length (pool p') = length (pool p) - 1"
  by (cases "pool p = []") (auto simp add: acquire_def split: prod.splits)

lemma acquire_loop_size:
  "acquire_loop is p ps h = (p', ps', h') \<Longrightarrow>
   length (pool p') = length (pool p) - length is \<and> length ps' = length ps + length is"
proof (induction "is" arbitrary: p ps h)
  case Nil
  then show ?case by simp
next
  case (Cons i later)
  obtain obj p1 h1 where a: "acquire p h = (obj, p1, h1)" by (cases "acquire p h")
  define h3 where "h3 = assign obj (\<lambda>u. u\<lparr>name := ''Pooled User '' @ string_of_int (int i)\<rparr>) (assign obj (\<lambda>u. u\<lparr>id := i\<rparr>) h1)"
  from Cons.prems a have "acquire_loop later p1 (ps @ [obj]) h3 = (p', ps', h')"
    by (simp add: h3_def)
  from Cons.IH [OF this] acquire_size [OF a] show ?case by simp
qed

lemma release_all_size:
  "release_all ps p h = (p', h') \<Longrightarrow> length (pool p') = length (pool p) + length ps"
proof (induction ps arbitrary: p h)
  case Nil
  then show ?case by simp
next
  case (Cons obj later)
  from Cons.prems have "release_all later (p\<lparr>pool := pool p @ [obj]\<rparr>) (resetFn obj h) = (p', h')"
    by (simp add: release_def)
  from Cons.IH [OF this] show ?case by simp
qed

text \<open>The pool has its ten objects again at the end, five of them recycled, in any store.\<close>

lemma memoryOptimization_sizes:
  assumes "new_ObjectPool 10 h = (p1, h1)" and "acquire_loop [0 ..< 5] p1 [] h1 = (p2, ps, h2)"
    and "release_all ps p2 h2 = (p3, h3)"
  shows "ObjectPool_size p3 = 10" and "length ps = 5"
proof -
  from assms(1) have "length (pool p1) = 10"
    using populate_size [of 10 "\<lparr>pool = []\<rparr>" h p1 h1] by (simp add: new_ObjectPool_def)
  moreover from acquire_loop_size [OF assms(2)]
  have "length (pool p2) = length (pool p1) - 5" and ps: "length ps = 5" by simp_all
  moreover from release_all_size [OF assms(3)] have "length (pool p3) = length (pool p2) + length ps" .
  ultimately show "ObjectPool_size p3 = 10" by (simp add: ObjectPool_size_def)
  show "length ps = 5" by (rule ps)
qed

lemma memoryOptimization_output:
  "fst (memoryOptimization this h) = fst (memoryOptimization this h')"
proof -
  obtain p1 h1 where a: "new_ObjectPool 10 h = (p1, h1)" by (cases "new_ObjectPool 10 h")
  obtain p2 ps h2 where b: "acquire_loop [0 ..< 5] p1 [] h1 = (p2, ps, h2)"
    by (cases "acquire_loop [0 ..< 5] p1 [] h1")
  obtain p3 h3 where c: "release_all ps p2 h2 = (p3, h3)" by (cases "release_all ps p2 h2")
  obtain q1 k1 where a': "new_ObjectPool 10 h' = (q1, k1)" by (cases "new_ObjectPool 10 h'")
  obtain q2 qs k2 where b': "acquire_loop [0 ..< 5] q1 [] k1 = (q2, qs, k2)"
    by (cases "acquire_loop [0 ..< 5] q1 [] k1")
  obtain q3 k3 where c': "release_all qs q2 k2 = (q3, k3)" by (cases "release_all qs q2 k2")
  note s = memoryOptimization_sizes [OF a b c] and s' = memoryOptimization_sizes [OF a' b' c']
  show ?thesis
    by (simp add: memoryOptimization_def a b c a' b' c' s s')
qed

lemma map_insort_key:
  "map f (insort_key (\<lambda>a. k (f a)) x xs) = insort_key k (f x) (map f xs)"
  by (induction xs) simp_all

lemma map_sort_key:
  "map f (sort_key (\<lambda>a. k (f a)) xs) = sort_key k (map f xs)"
  by (induction xs) (simp_all add: map_insort_key)

text \<open>
  The sorted copy holds the users of \<open>testData\<close> in the order of their scores, so what the
  searches return depends on those users only.
\<close>

lemma algorithmOptimization_output:
  assumes "users_of h (testData this) = users_of h' (testData this)"
  shows "fst (algorithmOptimization env this h) = fst (algorithmOptimization env this h')"
proof -
  have "map (\<lambda>a. objects h ! a) (sort_key (\<lambda>a. score (objects h ! a)) (arrays h ! testData this))
      = sort_key score (users_of h (testData this))"
    unfolding users_of_def by (rule map_sort_key)
  moreover have "map (\<lambda>a. objects h' ! a) (sort_key (\<lambda>a. score (objects h' ! a)) (arrays h' ! testData this))
      = sort_key score (users_of h' (testData this))"
    unfolding users_of_def by (rule map_sort_key)
  ultimately have key: "map (\<lambda>a. objects h ! a) (sort_key (\<lambda>a. score (objects h ! a)) (arrays h ! testData this))
      = map (\<lambda>a. objects h' ! a) (sort_key (\<lambda>a. score (objects h' ! a)) (arrays h' ! testData this))"
    using assms by simp
  show ?thesis
    by (simp add: algorithmOptimization_def alloc_array_def users_of_def Let_def key)
qed

lemma lazyEvaluation_output:
  assumes "users_of h (testData this) = users_of h' (testData this)"
  shows "lazyEvaluation env this h = lazyEvaluation env this h'"
  using assms by (simp add: lazyEvaluation_def)

lemma Performance_run_output:
  assumes a: "allocated h (Performance this)" and a': "allocated h' (Performance this)"
    and same: "users_of h (testData this) = users_of h' (testData this)"
  shows "fst (Performance_run env this h) = fst (Performance_run env this h')"
proof (cases "debouncingThrottling (started env)")
  case None
  then show ?thesis by (simp add: Performance_run_def)
next
  case (Some e1)
  obtain e3 h3 where m: "memoryOptimization this h = (e3, h3)" by (cases "memoryOptimization this h")
  obtain f3 k3 where m': "memoryOptimization this h' = (f3, k3)" by (cases "memoryOptimization this h'")
  obtain r4 h4 where g: "algorithmOptimization env this h3 = (r4, h4)"
    by (cases "algorithmOptimization env this h3")
  obtain s4 k4 where g': "algorithmOptimization env this k3 = (s4, k4)"
    by (cases "algorithmOptimization env this k3")
  have e3: "e3 = f3" using memoryOptimization_output [of this h h'] m m' by simp
  have "extends h h3" using memoryOptimization_extends [of h this] m by simp
  from extends_allocated [OF this a] have u: "users_of h3 (testData this) = users_of h (testData this)"
    by (simp add: input_data_def)
  have "extends h' k3" using memoryOptimization_extends [of h' this] m' by simp
  from extends_allocated [OF this a'] have u': "users_of k3 (testData this) = users_of h' (testData this)"
    by (simp add: input_data_def)
  have r4: "r4 = s4"
    using algorithmOptimization_output [of h3 this k3 env] u u' same g g' by simp
  have l: "lazyEvaluation env this h = lazyEvaluation env this h'"
    using same by (rule lazyEvaluation_output)
  show ?thesis
    by (simp add: Performance_run_def Some m m' g g' e3 r4 l Let_def split: promise.splits)
qed

lemma demo_run_output:
  assumes "allocated h d" and "allocated h' d" and "input_data h' d = input_data h d"
  shows "fst (demo_run env d h') = fst (demo_run env d h)"
proof (cases d)
  case (Performance this)
  with assms have "users_of h (testData this) = users_of h' (testData this)"
    by (simp add: input_data_def)
  from Performance_run_output [OF _ _ this, of "measured env"] assms(1,2) Performance
  show ?thesis by (simp add: case_prod_beta)
qed (simp_all add: case_prod_beta)

text \<open>
  The constructor of \<open>PerformanceDemo\<close> allocates what it refers to, so the instances of
  a new dashboard are allocated.
\<close>

lemma new_PerformanceDemo_allocated:
  assumes "new_PerformanceDemo random h = (this, h')"
  shows "allocated h' (Performance this)"
proof -
  define users where "users = map (\<lambda>i. \<lparr>id = i, name = ''User '' @ string_of_int (int i),
      score = random (2 * i) * 100, active = random (2 * i + 1) > 1 / 2\<rparr>) [0 ..< 10000]"
  define refs where "refs = [length (objects h) ..< length (objects h) + 10000]"
  have len: "length users = 10000" by (simp add: users_def del: upt_rec_numeral)
  from assms have td: "testData this = length (arrays h)"
    and h': "h' = \<lparr>objects = objects h @ users, arrays = arrays h @ [refs]\<rparr>"
    unfolding new_PerformanceDemo_def alloc_array_def Let_def users_def refs_def
    by (auto simp add: case_prod_beta simp del: upt_rec_numeral)
  have "\<forall>a \<in> set refs. a < length (objects h @ users)"
    by (simp add: refs_def len del: upt_rec_numeral)
  with td h' show ?thesis by (simp add: allocated_def list_all_iff)
qed

lemma new_demos_allocated:
  assumes "new_demos random = (ds, h)" and "(key, d) \<in> set ds"
  shows "allocated h d"
proof -
  obtain this h' where p: "new_PerformanceDemo random \<lparr>objects = [], arrays = []\<rparr> = (this, h')"
    by (cases "new_PerformanceDemo random \<lparr>objects = [], arrays = []\<rparr>")
  from assms(1) p have h: "h = h'" and ds: "ds = [(''destructuring'', Destructuring new_DestructuringDemo),
           (''spread-rest'', SpreadRest new_SpreadRestDemo),
           (''arrow-functions'', ArrowFunctions new_ArrowFunctionDemo),
           (''template-literals'', TemplateLiterals new_TemplateLiteralDemo),
           (''advanced-patterns'', AdvancedPatterns new_AdvancedPatternsDemo),
           (''performance'', Performance this)]"
    by (simp_all add: new_demos_def)
  show ?thesis
  proof (cases "d = Performance this")
    case True
    with new_PerformanceDemo_allocated [OF p] h show ?thesis by simp
  next
    case False
    with assms(2) ds show ?thesis by (auto simp add: allocated_def)
  qed
qed

text \<open>
  Claim C4. Every demo is stateless across invocations: after any number of calls of
  \<open>run()\<close> on an instance whose references are allocated (as the constructors leave them),
  the instance has the fields it had, the store still holds every object and array it
  held, unchanged, and so the input data that the next run reads - the fields, and for
  \<open>PerformanceDemo\<close> the users behind \<open>testData\<close> - is what it was; a run that follows
  returns what the first run would have returned under the same clock readings.
\<close>

theorem run_leaves_constructed_fields_unchanged:
  assumes "allocated h d"
  shows "fst (run_times envs d h) = d
         \<and> extends h (snd (run_times envs d h))
         \<and> input_data (snd (run_times envs d h)) d = input_data h d
         \<and> fst (demo_run env d (snd (run_times envs d h))) = fst (demo_run env d h)"
proof -
  note f = run_times_frame [OF assms, of envs]
  note a = extends_allocated [OF _ assms, of "snd (run_times envs d h)"]
  from f a have "allocated (snd (run_times envs d h)) d"
    and "input_data (snd (run_times envs d h)) d = input_data h d"
    by simp_all
  with demo_run_output [OF assms, of "snd (run_times envs d h)" env] f show ?thesis by simp
qed

theorem run_leaves_constructed_fields_unchanged_witness:
  "allocated sample_heap (Performance \<lparr>testData = 0\<rparr>)
   \<and> fst (run_times [sample_environment, sample_environment] (Performance \<lparr>testData = 0\<rparr>) sample_heap)
       = Performance \<lparr>testData = 0\<rparr>
   \<and> extends sample_heap
         (snd (run_times [sample_environment, sample_environment] (Performance \<lparr>testData = 0\<rparr>) sample_heap))
   \<and> input_data
         (snd (run_times [sample_environment, sample_environment] (Performance \<lparr>testData = 0\<rparr>) sample_heap))
         (Performance \<lparr>testData = 0\<rparr>)
       = input_data sample_heap (Performance \<lparr>testData = 0\<rparr>)
   \<and> fst (demo_run sample_environment (Performance \<lparr>testData = 0\<rparr>)
         (snd (run_times [sample_environment, sample_environment] (Performance \<lparr>testData = 0\<rparr>) sample_heap)))
       = fst (demo_run sample_environment (Performance \<lparr>testData = 0\<rparr>) sample_heap)"
proof -
  have a: "allocated sample_heap (Performance \<lparr>testData = 0\<rparr>)"
    by (simp add: allocated_def sample_heap_def)
  from run_leaves_constructed_fields_unchanged [OF a, of "[sample_environment, sample_environment]"
      sample_environment] a
  show ?thesis by blast
qed

end
